(* ===== verification/Go_Text.thy ===== *)
theory Go_Text
  imports Prelude
begin

section \<open>Go text: prefixes, hexadecimal, decimal, names\<close>

text \<open>
  A Go string is a sequence of bytes and so is a \<^typ>\<open>string\<close> of HOL, whose characters are the 256 byte
  values. This theory holds the functions of \<^verbatim>\<open>strings\<close>, \<^verbatim>\<open>encoding/hex\<close>, \<^verbatim>\<open>strconv\<close> and \<^verbatim>\<open>regexp\<close> that the
  sources call, as they act on bytes, with the round trips the components rest on.
\<close>

subsection \<open>Prefixes, suffixes, splitting\<close>

definition trim_prefix :: "string \<Rightarrow> string \<Rightarrow> string" where
  "trim_prefix s p = (if prefix p s then drop (length p) s else s)"

definition trim_suffix :: "string \<Rightarrow> string \<Rightarrow> string" where
  "trim_suffix s p = (if suffix p s then take (length s - length p) s else s)"

definition trim_right :: "string \<Rightarrow> char \<Rightarrow> string" where
  "trim_right s c = rev (dropWhile (\<lambda>x. x = c) (rev s))"

text \<open>\<^verbatim>\<open>strings.Split(s, sep)\<close> for a separator of one byte: always at least one part.\<close>

fun split_on :: "char \<Rightarrow> string \<Rightarrow> string list" where
  "split_on c [] = [[]]"
| "split_on c (x # xs) =
     (if x = c then [] # split_on c xs
      else (case split_on c xs of [] \<Rightarrow> [[x]] | part # parts \<Rightarrow> (x # part) # parts))"

fun join_with :: "char \<Rightarrow> string list \<Rightarrow> string" where
  "join_with c [] = []"
| "join_with c [s] = s"
| "join_with c (s # t # ss) = s @ c # join_with c (t # ss)"

lemma trim_prefix_append [simp]: "trim_prefix (p @ s) p = s"
  by (simp add: trim_prefix_def)

lemma split_on_ne [simp]: "split_on c s \<noteq> []"
  by (induction s) (auto split: list.splits)

lemma join_split: "join_with c (split_on c s) = s"
proof (induction s)
  case (Cons x s)
  obtain p ps where sp: "split_on c s = p # ps"
    by (cases "split_on c s") auto
  with Cons show ?case by (cases ps) auto
qed simp

lemma split_on_no_sep: "part \<in> set (split_on c s) \<Longrightarrow> c \<notin> set part"
  by (induction s arbitrary: part) (auto split: list.splits if_splits)

lemma split_on_join: "x \<notin> set s \<Longrightarrow> split_on x (s @ x # t) = s # split_on x t"
  by (induction s) auto

lemma split_on_single: "x \<notin> set s \<Longrightarrow> split_on x s = [s]"
  by (induction s) auto

text \<open>\<^verbatim>\<open>strings.TrimSpace\<close> on ASCII text.\<close>

definition is_space :: "char \<Rightarrow> bool" where
  "is_space c \<longleftrightarrow> c = CHR '' '' \<or> (CHR 0x09 \<le> c \<and> c \<le> CHR 0x0D)"

definition trim_space :: "string \<Rightarrow> string" where
  "trim_space s = rev (dropWhile is_space (rev (dropWhile is_space s)))"

lemma dropWhile_none: "\<forall>x \<in> set xs. \<not> P x \<Longrightarrow> dropWhile P xs = xs"
  by (cases xs) auto

lemma trim_space_id: "(\<And>c. c \<in> set s \<Longrightarrow> \<not> is_space c) \<Longrightarrow> trim_space s = s"
  by (simp add: trim_space_def dropWhile_none [where P = is_space])

subsection \<open>Lower case\<close>

text \<open>
  \<^verbatim>\<open>strings.ToLower\<close> on the bytes of ASCII text. The sources apply it only where the text has already
  been decoded as hexadecimal, so that every byte is a letter of ASCII or a digit.
\<close>

definition lower_char :: "char \<Rightarrow> char" where
  "lower_char c = (if CHR ''A'' \<le> c \<and> c \<le> CHR ''Z'' then char_of (of_char c + 32 :: nat) else c)"

definition to_lower :: "string \<Rightarrow> string" where
  "to_lower = map lower_char"

subsection \<open>Hexadecimal\<close>

definition hex_digit :: "nat \<Rightarrow> char" where
  "hex_digit n = ''0123456789abcdef'' ! n"

definition hex_value :: "char \<Rightarrow> nat option" where
  "hex_value c =
     (if CHR ''0'' \<le> c \<and> c \<le> CHR ''9'' then Some (of_char c - 48)
      else if CHR ''a'' \<le> c \<and> c \<le> CHR ''f'' then Some (of_char c - 87)
      else if CHR ''A'' \<le> c \<and> c \<le> CHR ''F'' then Some (of_char c - 55)
      else None)"

text \<open>\<^verbatim>\<open>hex.EncodeToString\<close> and \<^verbatim>\<open>hex.DecodeString\<close>, \<^const>\<open>None\<close> for an odd length or a foreign byte.\<close>

fun hex_encode :: "string \<Rightarrow> string" where
  "hex_encode [] = []"
| "hex_encode (c # cs) = hex_digit (of_char c div 16) # hex_digit (of_char c mod 16) # hex_encode cs"

fun hex_decode :: "string \<Rightarrow> string option" where
  "hex_decode [] = Some []"
| "hex_decode [c] = None"
| "hex_decode (a # b # cs) =
     (case hex_value a of None \<Rightarrow> None
      | Some x \<Rightarrow> (case hex_value b of None \<Rightarrow> None
        | Some y \<Rightarrow> map_option ((#) (char_of (16 * x + y))) (hex_decode cs)))"

lemma of_char_less_256: "(of_char c :: nat) < 256"
  using of_char_mod_256 [of c, where ?'a = nat]
  by (metis mod_less_divisor zero_less_numeral)

lemma hex_value_digit: "n < 16 \<Longrightarrow> hex_value (hex_digit n) = Some n"
proof -
  have "\<forall>n < 16. hex_value (hex_digit n) = Some n" by code_simp
  then show "n < 16 \<Longrightarrow> hex_value (hex_digit n) = Some n" by blast
qed

lemma hex_decode_encode [simp]: "hex_decode (hex_encode s) = Some s"
proof (induction s)
  case (Cons c s)
  have "(of_char c :: nat) < 256" by (rule of_char_less_256)
  then have "(of_char c :: nat) div 16 < 16" by (simp add: less_mult_imp_div_less)
  with Cons show ?case
    by (simp add: hex_value_digit)
qed simp

lemma length_hex_encode [simp]: "length (hex_encode s) = 2 * length s"
  by (induction s) auto

lemma hex_encode_inj: "hex_encode s = hex_encode t \<longleftrightarrow> s = t"
  by (metis hex_decode_encode option.inject)


lemma hex_value_ranges:
  "hex_value c = Some x \<Longrightarrow>
     c \<in> set (map char_of ([48..<58] @ [97..<103] @ [65..<71 :: nat]))"
proof -
  assume h: "hex_value c = Some x"
  define n :: nat where "n = of_char c"
  have c: "c = char_of n" by (simp add: n_def)
  from h have "(48 \<le> n \<and> n < 58) \<or> (97 \<le> n \<and> n < 103) \<or> (65 \<le> n \<and> n < 71)"
    by (auto simp: hex_value_def less_eq_char_def n_def split: if_splits)
  then have "n \<in> set ([48..<58] @ [97..<103] @ [65..<71 :: nat])"
    by (simp only: set_append set_upt Un_iff atLeastLessThan_iff)
  then show ?thesis by (simp only: c set_map imageI)
qed

lemma hex_value_bounds: "hex_value c = Some x \<Longrightarrow> x < 16 \<and> hex_digit x = lower_char c"
proof -
  have "\<forall>c \<in> set (map char_of ([48..<58] @ [97..<103] @ [65..<71 :: nat])).
    (case hex_value c of None \<Rightarrow> True | Some x \<Rightarrow> x < 16 \<and> hex_digit x = lower_char c)"
    by code_simp
  moreover assume h: "hex_value c = Some x"
  ultimately have "case hex_value c of None \<Rightarrow> True | Some x \<Rightarrow> x < 16 \<and> hex_digit x = lower_char c"
    by (blast dest: hex_value_ranges)
  with h show "x < 16 \<and> hex_digit x = lower_char c" by simp
qed

lemma hex_encode_decode: "hex_decode s = Some b \<Longrightarrow> hex_encode b = to_lower s"
proof (induction s arbitrary: b rule: hex_decode.induct)
  case (3 x y cs)
  from "3.prems" obtain m n b' where mn: "hex_value x = Some m" "hex_value y = Some n"
    and b': "hex_decode cs = Some b'" and b: "b = char_of (16 * m + n) # b'"
    by (auto split: option.splits)
  from mn have "m < 16" "n < 16" "hex_digit m = lower_char x" "hex_digit n = lower_char y"
    by (auto dest: hex_value_bounds)
  with 3 b b' mn show ?case by (simp add: to_lower_def)
qed (auto simp: to_lower_def)

text \<open>The lower-case hexadecimal spellings are exactly the encodings.\<close>

lemma canonical_hex_iff: "(\<exists>b. hex_decode s = Some b \<and> s = to_lower s \<and> length b = n) \<longleftrightarrow>
    (\<exists>b. s = hex_encode b \<and> length b = n)"
  by (metis hex_decode_encode hex_encode_decode)


subsection \<open>Decimal\<close>

fun itoa :: "nat \<Rightarrow> string" where
  "itoa n = (if n < 10 then [hex_digit n] else itoa (n div 10) @ [hex_digit (n mod 10)])"

declare itoa.simps [simp del]

definition digit_value :: "char \<Rightarrow> nat option" where
  "digit_value c = (if CHR ''0'' \<le> c \<and> c \<le> CHR ''9'' then Some (of_char c - 48) else None)"

fun read_digits :: "nat \<Rightarrow> string \<Rightarrow> nat option" where
  "read_digits acc [] = Some acc"
| "read_digits acc (c # cs) =
     (case digit_value c of None \<Rightarrow> None | Some d \<Rightarrow> read_digits (10 * acc + d) cs)"

text \<open>\<^verbatim>\<open>strconv.ParseUint(s, 10, bits)\<close>: digits only, at least one, and in range.\<close>

definition parse_uint :: "nat \<Rightarrow> string \<Rightarrow> nat option" where
  "parse_uint bits s = (if s = [] then None
     else case read_digits 0 s of None \<Rightarrow> None | Some n \<Rightarrow> if n < 2 ^ bits then Some n else None)"

lemma digit_value_digit: "n < 10 \<Longrightarrow> digit_value (hex_digit n) = Some n"
proof -
  have "\<forall>n < 10. digit_value (hex_digit n) = Some n" by code_simp
  then show "n < 10 \<Longrightarrow> digit_value (hex_digit n) = Some n" by blast
qed

lemma read_digits_append:
  "read_digits acc (s @ t) = (case read_digits acc s of None \<Rightarrow> None | Some a \<Rightarrow> read_digits a t)"
  by (induction s arbitrary: acc) (auto split: option.splits)

lemma itoa_nonempty [simp]: "itoa n \<noteq> []"
  by (subst itoa.simps) simp

lemma read_digits_itoa: "read_digits 0 (itoa n) = Some n"
proof (induction n rule: itoa.induct)
  case (1 n)
  show ?case
  proof (cases "n < 10")
    case True
    then show ?thesis by (subst itoa.simps) (simp add: digit_value_digit)
  next
    case False
    with 1 show ?thesis
      by (subst itoa.simps) (simp add: read_digits_append digit_value_digit)
  qed
qed

lemma parse_uint_itoa: "n < 2 ^ bits \<Longrightarrow> parse_uint bits (itoa n) = Some n"
  by (simp add: parse_uint_def read_digits_itoa)

lemma itoa_inj: "itoa m = itoa n \<longleftrightarrow> m = n"
  by (metis option.inject read_digits_itoa)

lemma itoa_digits: "c \<in> set (itoa n) \<Longrightarrow> digit_value c \<noteq> None"
proof (induction n rule: itoa.induct)
  case (1 n)
  show ?case
  proof (cases "n < 10")
    case True
    with "1.prems" show ?thesis by (simp add: itoa.simps [of n] digit_value_digit)
  next
    case False
    with 1 show ?thesis by (auto simp: itoa.simps [of n] digit_value_digit)
  qed
qed

subsection \<open>Names\<close>

definition is_alnum :: "char \<Rightarrow> bool" where
  "is_alnum c \<longleftrightarrow> (CHR ''a'' \<le> c \<and> c \<le> CHR ''z'') \<or> (CHR ''A'' \<le> c \<and> c \<le> CHR ''Z'')
     \<or> (CHR ''0'' \<le> c \<and> c \<le> CHR ''9'')"

end
