(* ===== verification/Go_Map.thy ===== *)
theory Go_Map
  imports Prelude
begin

section \<open>Go maps\<close>

text \<open>
  A Go map is an association list that is strictly sorted by key: two maps with the same entries are the
  same list, its length is \<^verbatim>\<open>len(m)\<close>, and the list is one of the orders in which \<^verbatim>\<open>range\<close> may visit the
  entries. Where the order of a \<^verbatim>\<open>range\<close> loop can matter, the component takes the order of the visit as an
  argument. \<^verbatim>\<open>encoding/json\<close> writes a map in this order too. The locale states what a client of a map
  relies on; the sorted lists provide it.
\<close>

subsection \<open>The interface\<close>

locale finite_table =
  fixes get :: "'m \<Rightarrow> 'k \<Rightarrow> 'v option"
    and put :: "'k \<Rightarrow> 'v \<Rightarrow> 'm \<Rightarrow> 'm"
    and del :: "'k \<Rightarrow> 'm \<Rightarrow> 'm"
    and size_of :: "'m \<Rightarrow> nat"
    and ok :: "'m \<Rightarrow> bool"
  assumes get_put: "get (put k v m) = (get m)(k \<mapsto> v)"
    and get_del: "ok m \<Longrightarrow> get (del k m) = (get m)(k := None)"
    and ok_put: "ok m \<Longrightarrow> ok (put k v m)"
    and ok_del: "ok m \<Longrightarrow> ok (del k m)"
    and finite_get: "finite (dom (get m))"
    and size_get: "ok m \<Longrightarrow> size_of m = card (dom (get m))"
    and ext: "ok m \<Longrightarrow> ok n \<Longrightarrow> get m = get n \<Longrightarrow> m = n"
begin

lemma get_put_same: "get (put k v m) k = Some v"
  by (simp add: get_put)

lemma get_put_other: "k \<noteq> k' \<Longrightarrow> get (put k v m) k' = get m k'"
  by (simp add: get_put)

lemma size_put: "ok m \<Longrightarrow> size_of (put k v m) = (if get m k = None then Suc (size_of m) else size_of m)"
  by (auto simp: size_get ok_put get_put finite_get insert_absorb domIff)

lemma size_put_le: "ok m \<Longrightarrow> size_of m \<le> size_of (put k v m)"
  by (simp add: size_put)

lemma put_put: "ok m \<Longrightarrow> put k v (put k w m) = put k v m"
  by (rule ext) (auto simp: ok_put get_put)

lemma put_commute: "ok m \<Longrightarrow> k \<noteq> k' \<Longrightarrow> put k v (put k' w m) = put k' w (put k v m)"
  by (rule ext) (auto simp: ok_put get_put fun_upd_twist)

lemma put_same: "ok m \<Longrightarrow> get m k = Some v \<Longrightarrow> put k v m = m"
  by (rule ext) (auto simp: ok_put get_put)

lemma size_del: "ok m \<Longrightarrow> size_of (del k m) = (if get m k = None then size_of m else size_of m - 1)"
  by (auto simp: size_get ok_del get_del finite_get domIff)

end

subsection \<open>Sorted association lists\<close>

type_synonym ('k, 'v) go_map = "('k \<times> 'v) list"

abbreviation gm_get :: "('k, 'v) go_map \<Rightarrow> 'k \<Rightarrow> 'v option" where
  "gm_get \<equiv> map_of"

fun gm_put :: "'k::linorder \<Rightarrow> 'v \<Rightarrow> ('k, 'v) go_map \<Rightarrow> ('k, 'v) go_map" where
  "gm_put k v [] = [(k, v)]"
| "gm_put k v (e # m) =
     (if fst e < k then e # gm_put k v m else if fst e = k then (k, v) # m else (k, v) # e # m)"

definition gm_del :: "'k \<Rightarrow> ('k, 'v) go_map \<Rightarrow> ('k, 'v) go_map" where
  "gm_del k m = filter (\<lambda>e. fst e \<noteq> k) m"

definition gm_ok :: "('k::linorder, 'v) go_map \<Rightarrow> bool" where
  "gm_ok m = sorted_wrt (<) (List.map fst m)"

fun gm_of_list :: "('k::linorder \<times> 'v) list \<Rightarrow> ('k, 'v) go_map" where
  "gm_of_list [] = []"
| "gm_of_list (e # es) = gm_put (fst e) (snd e) (gm_of_list es)"

lemma gm_ok_Nil [simp]: "gm_ok []"
  by (simp add: gm_ok_def)

lemma gm_ok_Cons: "gm_ok (e # m) \<longleftrightarrow> (\<forall>k \<in> fst ` set m. fst e < k) \<and> gm_ok m"
  by (auto simp: gm_ok_def)

lemma gm_ok_distinct: "gm_ok m \<Longrightarrow> distinct (List.map fst m)"
  by (simp add: gm_ok_def sorted_wrt_less_distinct)

lemma gm_get_put_fun: "gm_get (gm_put k v m) = (gm_get m)(k \<mapsto> v)"
  by (induction m) (auto simp: fun_eq_iff)

lemma keys_gm_put: "fst ` set (gm_put k v m) = insert k (fst ` set m)"
  by (induction m) auto

lemma gm_ok_put_aux: "gm_ok m \<Longrightarrow> gm_ok (gm_put k v m)"
  by (induction m) (auto simp: gm_ok_Cons keys_gm_put)

lemma gm_ok_del_aux: "gm_ok m \<Longrightarrow> gm_ok (gm_del k m)"
  by (induction m) (auto simp: gm_ok_Cons gm_del_def)

lemma gm_get_del_fun: "gm_get (gm_del k m) = (gm_get m)(k := None)"
  by (induction m) (auto simp: gm_del_def fun_eq_iff)

lemma gm_length_card: "gm_ok m \<Longrightarrow> length m = card (dom (gm_get m))"
  by (metis dom_map_of_conv_image_fst gm_ok_distinct length_map list.set_map distinct_card)

lemma map_of_eq_set:
  assumes "distinct (List.map fst m)" "distinct (List.map fst n)" "map_of m = map_of n"
  shows "set m = set n"
  using assms map_of_inject_set by blast

lemma gm_ext_aux:
  assumes "gm_ok m" "gm_ok n" "gm_get m = gm_get n"
  shows "m = n"
proof -
  have s: "set m = set n"
    using assms by (simp add: map_of_eq_set gm_ok_distinct)
  have "inj_on fst (set m \<union> set n)"
    using gm_ok_distinct [OF assms(1)] by (simp add: s [symmetric] distinct_map)
  with s assms(1,2) show ?thesis
    by (intro map_sorted_distinct_set_unique [where f = fst])
      (simp_all add: gm_ok_def strict_sorted_iff)
qed

interpretation gm: finite_table gm_get gm_put gm_del length gm_ok
  by unfold_locales
    (simp_all add: gm_get_put_fun gm_get_del_fun gm_ok_put_aux gm_ok_del_aux gm_length_card
      finite_dom_map_of gm_ext_aux)

lemmas gm_laws [map_simps] = gm.get_put gm.get_del gm.ok_put gm.ok_del gm.size_put gm_get_del_fun

declare gm.ok_put [simp] gm.ok_del [simp]

lemma gm_ok_of_list [simp]: "gm_ok (gm_of_list es)"
  by (induction es) auto

lemma gm_get_of_list: "gm_get (gm_of_list es) = gm_get es"
  by (induction es) (auto simp: gm.get_put)

lemma gm_of_list_ok: "gm_ok m \<Longrightarrow> gm_of_list m = m"
  by (rule gm.ext) (auto simp: gm_get_of_list)

text \<open>Any order in which the entries are visited and stored gives the same map.\<close>

lemma gm_of_list_perm:
  assumes "distinct (List.map fst xs)" and "mset xs = mset ys"
  shows "gm_of_list xs = gm_of_list ys"
proof -
  have "set xs = set ys" using assms(2) by (rule mset_eq_setD)
  moreover have "distinct (List.map fst ys)"
    using assms by (metis mset_eq_imp_distinct_iff mset_map)
  ultimately have "gm_get xs = gm_get ys" using assms(1) by (simp add: map_of_inject_set)
  then show ?thesis by (intro gm.ext) (auto simp: gm_get_of_list)
qed

lemma gm_in_set_iff: "gm_ok m \<Longrightarrow> (k, v) \<in> set m \<longleftrightarrow> gm_get m k = Some v"
  by (simp add: gm_ok_distinct)

lemma gm_put_set: "gm_ok m \<Longrightarrow> set (gm_put k v m) = insert (k, v) {e \<in> set m. fst e \<noteq> k}"
  by (induction m) (auto simp: gm_ok_Cons)

lemma gm_ok_fold_put: "gm_ok acc \<Longrightarrow> gm_ok (fold (\<lambda>(k, x). gm_put k x) xs acc)"
  by (induction xs arbitrary: acc) (auto split: prod.splits)

lemma gm_get_fold_put: "distinct (List.map fst xs) \<Longrightarrow>
    gm_get (fold (\<lambda>(k, x). gm_put k x) xs acc) = gm_get acc ++ gm_get xs"
proof (induction xs arbitrary: acc)
  case (Cons e xs)
  obtain k x where e: "e = (k, x)" by (cases e)
  with Cons.prems have "gm_get xs k = None" by (simp add: map_of_eq_None_iff)
  with Cons e show ?case by (auto simp: gm.get_put fun_eq_iff map_add_def split: option.splits)
qed simp

lemma gm_fold_put_id: "gm_ok m \<Longrightarrow> fold (\<lambda>(k, x). gm_put k x) m [] = m"
  by (rule gm.ext) (auto simp: gm_ok_fold_put gm_get_fold_put gm_ok_distinct)

end
