(* ===== verification/Go_Json.thy ===== *)
theory Go_Json
  imports Go_Text Go_Map
begin

section \<open>JSON as encoding/json reads and writes it\<close>

text \<open>
  A JSON document as a tree, the text \<^verbatim>\<open>json.Marshal\<close> writes for it, and the rules by which
  \<^verbatim>\<open>json.Unmarshal\<close> stores a value into a Go variable: \<^verbatim>\<open>null\<close> leaves the variable as it was, a value of
  another kind is an error, member names are matched without regard to ASCII case, and a decoder with
  \<^verbatim>\<open>DisallowUnknownFields\<close> refuses a member no field is named after. Text is UTF-8; the model writes bytes
  above 127 as they are.
\<close>

datatype json =
    JNull
  | JBool bool
  | JNum int
  | JStr string
  | JArr "json list"
  | JObj "(string \<times> json) list"

subsection \<open>Writing\<close>

definition escape_char :: "char \<Rightarrow> string" where
  "escape_char c =
     (if c = CHR 0x22 then [CHR 0x5C, CHR 0x22]
      else if c = CHR 0x5C then [CHR 0x5C, CHR 0x5C]
      else if c = CHR 0x08 then [CHR 0x5C, CHR ''b'']
      else if c = CHR 0x0C then [CHR 0x5C, CHR ''f'']
      else if c = CHR 0x0A then [CHR 0x5C, CHR ''n'']
      else if c = CHR 0x0D then [CHR 0x5C, CHR ''r'']
      else if c = CHR 0x09 then [CHR 0x5C, CHR ''t'']
      else if of_char c < (32 :: nat) \<or> c = CHR ''<'' \<or> c = CHR ''>'' \<or> c = CHR 0x26 then
        [CHR 0x5C, CHR ''u'', CHR ''0'', CHR ''0'', hex_digit (of_char c div 16), hex_digit (of_char c mod 16)]
      else [c])"

definition quote :: "string \<Rightarrow> string" where
  "quote s = CHR 0x22 # concat (map escape_char s) @ [CHR 0x22]"

definition render_int :: "int \<Rightarrow> string" where
  "render_int n = (if n < 0 then CHR ''-'' # itoa (nat (- n)) else itoa (nat n))"

fun render :: "json \<Rightarrow> string"
  and render_elements :: "json list \<Rightarrow> string"
  and render_members :: "(string \<times> json) list \<Rightarrow> string" where
  "render JNull = ''null''"
| "render (JBool b) = (if b then ''true'' else ''false'')"
| "render (JNum n) = render_int n"
| "render (JStr s) = quote s"
| "render (JArr js) = ''['' @ render_elements js @ '']''"
| "render (JObj ms) = ''{'' @ render_members ms @ ''}''"
| "render_elements [] = []"
| "render_elements (j # js) = render j @ (if js = [] then [] else '','' @ render_elements js)"
| "render_members [] = []"
| "render_members ((k, j) # ms) =
     quote k @ '':'' @ render j @ (if ms = [] then [] else '','' @ render_members ms)"

subsection \<open>A written string can be read back\<close>

text \<open>The reader of the escapes above, up to the closing quote: what the text determines.\<close>

fun read_string :: "string \<Rightarrow> (string \<times> string) option" where
  "read_string [] = None"
| "read_string (c # cs) =
     (if c = CHR 0x22 then Some ([], cs)
      else if c = CHR 0x5C then
        (case cs of
          [] \<Rightarrow> None
        | e # ds \<Rightarrow>
          if e = CHR ''u'' then
            (case ds of
              z # y # a # b # es \<Rightarrow>
                (case (hex_value a, hex_value b) of
                  (Some m, Some n) \<Rightarrow> map_option (apfst ((#) (char_of (16 * m + n)))) (read_string es)
                | _ \<Rightarrow> None)
            | _ \<Rightarrow> None)
          else map_option (apfst ((#)
             (if e = CHR ''b'' then CHR 0x08 else if e = CHR ''f'' then CHR 0x0C
              else if e = CHR ''n'' then CHR 0x0A else if e = CHR ''r'' then CHR 0x0D
              else if e = CHR ''t'' then CHR 0x09 else e))) (read_string ds))
      else map_option (apfst ((#) c)) (read_string cs))"

lemma read_escaped_char: "read_string (escape_char c @ t) = map_option (apfst ((#) c)) (read_string t)"
proof (cases "c \<in> {CHR 0x22, CHR 0x5C, CHR 0x08, CHR 0x0C, CHR 0x0A, CHR 0x0D, CHR 0x09}")
  case True
  then show ?thesis by (auto simp: escape_char_def)
next
  case False
  have "(of_char c :: nat) div 16 < 16"
    by (simp add: less_mult_imp_div_less of_char_less_256)
  with False show ?thesis by (simp add: escape_char_def hex_value_digit)
qed

lemma read_quoted: "read_string (tl (quote s) @ t) = Some (s, t)"
  unfolding quote_def
  by (induction s) (simp_all add: read_escaped_char)

lemma quote_append_inj: "quote s @ t = quote s' @ t' \<longleftrightarrow> s = s' \<and> t = t'"
proof
  assume "quote s @ t = quote s' @ t'"
  then have "tl (quote s) @ t = tl (quote s') @ t'" by (simp add: quote_def)
  then show "s = s' \<and> t = t'" by (metis read_quoted option.inject prod.inject)
qed simp

lemma quote_inj: "quote s = quote s' \<longleftrightarrow> s = s'"
  using quote_append_inj [of s "[]" s' "[]"] by simp

subsection \<open>Reading into Go variables\<close>

definition fold_name :: "string \<Rightarrow> string" where
  "fold_name = to_lower"

definition names_field :: "string \<Rightarrow> string \<Rightarrow> bool" where
  "names_field k f \<longleftrightarrow> fold_name k = fold_name f"

text \<open>For evaluation: equal names and names of different length are decided without folding.\<close>

lemma names_field_code [code]:
  "names_field k f \<longleftrightarrow> k = f \<or> length k = length f \<and> fold_name k = fold_name f"
  by (auto simp: names_field_def fold_name_def to_lower_def dest: map_eq_imp_length_eq)

abbreviation type_error :: "string" where
  "type_error \<equiv> ''json: cannot unmarshal value into Go value''"

definition read_str :: "json \<Rightarrow> string \<Rightarrow> string result" where
  "read_str j old = (case j of JNull \<Rightarrow> Inr old | JStr s \<Rightarrow> Inr s | _ \<Rightarrow> Inl type_error)"

definition read_bool :: "json \<Rightarrow> bool \<Rightarrow> bool result" where
  "read_bool j old = (case j of JNull \<Rightarrow> Inr old | JBool b \<Rightarrow> Inr b | _ \<Rightarrow> Inl type_error)"

definition read_u64 :: "json \<Rightarrow> u64 \<Rightarrow> u64 result" where
  "read_u64 j old = (case j of JNull \<Rightarrow> Inr old
     | JNum n \<Rightarrow> if 0 \<le> n \<and> n < 2 ^ 64 then Inr (word_of_int n) else Inl type_error
     | _ \<Rightarrow> Inl type_error)"

text \<open>\<^verbatim>\<open>int\<close> and \<^verbatim>\<open>int64\<close> are 64 bits wide on the platforms the program runs on.\<close>

definition read_int :: "json \<Rightarrow> int \<Rightarrow> int result" where
  "read_int j old = (case j of JNull \<Rightarrow> Inr old
     | JNum n \<Rightarrow> if - (2 ^ 63) \<le> n \<and> n < 2 ^ 63 then Inr n else Inl type_error
     | _ \<Rightarrow> Inl type_error)"

text \<open>
  A struct: the members in turn, each stored by \<open>field\<close>, which is told whether unknown names are refused.
  \<^verbatim>\<open>null\<close> leaves the struct as it was.
\<close>

definition read_struct :: "(string \<times> json \<Rightarrow> 'a \<Rightarrow> 'a result) \<Rightarrow> json \<Rightarrow> 'a \<Rightarrow> 'a result" where
  "read_struct field j old = (case j of JNull \<Rightarrow> Inr old | JObj ms \<Rightarrow> fold_result field ms old
     | _ \<Rightarrow> Inl type_error)"

text \<open>A map with string keys: each value is read into a fresh zero value; \<^verbatim>\<open>null\<close> makes the map nil.\<close>

definition read_map :: "(json \<Rightarrow> 'a \<Rightarrow> 'a result) \<Rightarrow> 'a \<Rightarrow> json \<Rightarrow> (string, 'a) go_map \<Rightarrow> (string, 'a) go_map result"
where
  "read_map elem zero j old = (case j of
     JNull \<Rightarrow> Inr []
   | JObj ms \<Rightarrow> fold_result (\<lambda>(k, v) m. and_then (elem v zero) (\<lambda>x. Inr (gm_put k x m))) ms old
   | _ \<Rightarrow> Inl type_error)"

definition unknown_field :: "bool \<Rightarrow> string \<Rightarrow> 'a \<Rightarrow> 'a result" where
  "unknown_field strict k old = (if strict then Inl (''json: unknown field '' @ quote k) else Inr old)"

lemma read_simps [simp]:
  "read_str (JStr s) old = Inr s"
  "read_bool (JBool b) old' = Inr b"
  "read_u64 (JNum (uint w)) old'' = Inr w"
  "read_struct field (JObj ms) z = fold_result field ms z"
  using uint_lt2p [of w] by (simp_all add: read_str_def read_bool_def read_u64_def read_struct_def)

lemma read_map_gm_ok: "read_map elem zero j old = Inr m \<Longrightarrow> gm_ok old \<Longrightarrow> gm_ok m"
  by (auto simp: read_map_def and_then_eq_Inr split: json.splits
      elim!: fold_result_invariant [where P = gm_ok])

text \<open>Reading back the members of a map that were written in key order.\<close>

lemma read_map_written:
  assumes ok: "gm_ok m" and elem: "\<And>k x. (k, x) \<in> set m \<Longrightarrow> elem (w x) zero = Inr x"
  shows "read_map elem zero (JObj (map (\<lambda>(k, x). (k, w x)) m)) [] = Inr m"
proof -
  let ?step = "\<lambda>(k, v) m. and_then (elem v zero) (\<lambda>x. Inr (gm_put k x m))"
  have "\<forall>(k, x) \<in> set xs. elem (w x) zero = Inr x \<Longrightarrow>
      fold_result ?step (map (\<lambda>(k, x). (k, w x)) xs) acc = Inr (fold (\<lambda>(k, x). gm_put k x) xs acc)" for xs acc
    by (induction xs arbitrary: acc) (auto split: prod.splits)
  with elem have "fold_result ?step (map (\<lambda>(k, x). (k, w x)) m) [] = Inr (fold (\<lambda>(k, x). gm_put k x) m [])"
    by blast
  moreover have "fold (\<lambda>(k, x). gm_put k x) m [] = m" by (rule gm_fold_put_id [OF ok])
  ultimately show ?thesis by (simp add: read_map_def)
qed

text \<open>A slice of strings.\<close>

definition read_strings :: "json \<Rightarrow> string list result" where
  "read_strings j = (case j of JNull \<Rightarrow> Inr []
     | JArr js \<Rightarrow> fold_result (\<lambda>x acc. and_then (read_str x []) (\<lambda>s. Inr (acc @ [s]))) js []
     | _ \<Rightarrow> Inl type_error)"

lemma read_strings_written: "read_strings (JArr (map JStr ss)) = Inr ss"
proof -
  have "fold_result (\<lambda>x acc. and_then (read_str x []) (\<lambda>s. Inr (acc @ [s]))) (map JStr ss) acc = Inr (acc @ ss)" for acc
    by (induction ss arbitrary: acc) auto
  then show ?thesis by (simp add: read_strings_def)
qed

end
