(* ===== verification/Route_Data.thy ===== *)
theory Route_Data
  imports Go_Json
begin

section \<open>Routing records, snapshots and registrations\<close>

text \<open>
  The data of \<^verbatim>\<open>cmd/worker/serve.go\<close> that the worker stores, publishes and recovers: a record per workload
  instance, the complete snapshot of an owner, and the request that changes one record. The JSON forms
  follow the struct tags.
\<close>

record routeRecord =
  rec_id :: string
  rec_app :: string
  rec_endpoint :: string
  rec_revision :: u64
  rec_deleted :: bool

record routeSnapshot =
  snap_schema :: int
  snap_owner :: string
  snap_incarnation :: u64
  snap_revision :: u64
  snap_records :: "(string, routeRecord) go_map"

record registration =
  req_operation :: string
  req_id :: string
  req_app :: string
  req_endpoint :: string
  req_deleted :: bool

definition zero_record :: routeRecord where
  "zero_record = \<lparr>rec_id = [], rec_app = [], rec_endpoint = [], rec_revision = 0, rec_deleted = False\<rparr>"

definition zero_snapshot :: routeSnapshot where
  "zero_snapshot = \<lparr>snap_schema = 0, snap_owner = [], snap_incarnation = 0, snap_revision = 0, snap_records = []\<rparr>"

definition zero_registration :: registration where
  "zero_registration = \<lparr>req_operation = [], req_id = [], req_app = [], req_endpoint = [], req_deleted = False\<rparr>"

subsection \<open>Writing\<close>

definition marshal_record :: "routeRecord \<Rightarrow> json" where
  "marshal_record r = JObj
     [(''id'', JStr (rec_id r)), (''app'', JStr (rec_app r)), (''endpoint'', JStr (rec_endpoint r)),
      (''revision'', JNum (uint (rec_revision r))), (''deleted'', JBool (rec_deleted r))]"

definition marshal_snapshot :: "routeSnapshot \<Rightarrow> json" where
  "marshal_snapshot s = JObj
     [(''schema'', JNum (snap_schema s)), (''owner'', JStr (snap_owner s)),
      (''incarnation'', JNum (uint (snap_incarnation s))), (''revision'', JNum (uint (snap_revision s))),
      (''records'', JObj (map (\<lambda>(k, r). (k, marshal_record r)) (snap_records s)))]"

definition marshal_registration :: "registration \<Rightarrow> json" where
  "marshal_registration r = JObj
     [(''operation'', JStr (req_operation r)), (''id'', JStr (req_id r)), (''app'', JStr (req_app r)),
      (''endpoint'', JStr (req_endpoint r)), (''deleted'', JBool (req_deleted r))]"

subsection \<open>Reading\<close>

definition record_field :: "bool \<Rightarrow> string \<times> json \<Rightarrow> routeRecord \<Rightarrow> routeRecord result" where
  "record_field strict kv r = (case kv of (k, j) \<Rightarrow>
     if names_field k ''id'' then and_then (read_str j (rec_id r)) (\<lambda>x. Inr (r\<lparr>rec_id := x\<rparr>))
     else if names_field k ''app'' then and_then (read_str j (rec_app r)) (\<lambda>x. Inr (r\<lparr>rec_app := x\<rparr>))
     else if names_field k ''endpoint'' then
       and_then (read_str j (rec_endpoint r)) (\<lambda>x. Inr (r\<lparr>rec_endpoint := x\<rparr>))
     else if names_field k ''revision'' then
       and_then (read_u64 j (rec_revision r)) (\<lambda>x. Inr (r\<lparr>rec_revision := x\<rparr>))
     else if names_field k ''deleted'' then
       and_then (read_bool j (rec_deleted r)) (\<lambda>x. Inr (r\<lparr>rec_deleted := x\<rparr>))
     else unknown_field strict k r)"

definition read_record :: "bool \<Rightarrow> json \<Rightarrow> routeRecord \<Rightarrow> routeRecord result" where
  "read_record strict = read_struct (record_field strict)"

definition snapshot_field :: "bool \<Rightarrow> string \<times> json \<Rightarrow> routeSnapshot \<Rightarrow> routeSnapshot result" where
  "snapshot_field strict kv s = (case kv of (k, j) \<Rightarrow>
     if names_field k ''schema'' then and_then (read_int j (snap_schema s)) (\<lambda>x. Inr (s\<lparr>snap_schema := x\<rparr>))
     else if names_field k ''owner'' then and_then (read_str j (snap_owner s)) (\<lambda>x. Inr (s\<lparr>snap_owner := x\<rparr>))
     else if names_field k ''incarnation'' then
       and_then (read_u64 j (snap_incarnation s)) (\<lambda>x. Inr (s\<lparr>snap_incarnation := x\<rparr>))
     else if names_field k ''revision'' then
       and_then (read_u64 j (snap_revision s)) (\<lambda>x. Inr (s\<lparr>snap_revision := x\<rparr>))
     else if names_field k ''records'' then
       and_then (read_map (read_record strict) zero_record j (snap_records s)) (\<lambda>x. Inr (s\<lparr>snap_records := x\<rparr>))
     else unknown_field strict k s)"

definition read_snapshot :: "json \<Rightarrow> routeSnapshot result" where
  "read_snapshot j = read_struct (snapshot_field False) j zero_snapshot"

definition registration_field :: "string \<times> json \<Rightarrow> registration \<Rightarrow> registration result" where
  "registration_field kv r = (case kv of (k, j) \<Rightarrow>
     if names_field k ''operation'' then
       and_then (read_str j (req_operation r)) (\<lambda>x. Inr (r\<lparr>req_operation := x\<rparr>))
     else if names_field k ''id'' then and_then (read_str j (req_id r)) (\<lambda>x. Inr (r\<lparr>req_id := x\<rparr>))
     else if names_field k ''app'' then and_then (read_str j (req_app r)) (\<lambda>x. Inr (r\<lparr>req_app := x\<rparr>))
     else if names_field k ''endpoint'' then
       and_then (read_str j (req_endpoint r)) (\<lambda>x. Inr (r\<lparr>req_endpoint := x\<rparr>))
     else if names_field k ''deleted'' then
       and_then (read_bool j (req_deleted r)) (\<lambda>x. Inr (r\<lparr>req_deleted := x\<rparr>))
     else unknown_field True k r)"

text \<open>The management service decodes a registration with \<^verbatim>\<open>DisallowUnknownFields\<close>.\<close>

definition read_registration :: "json \<Rightarrow> registration result" where
  "read_registration j = read_struct registration_field j zero_registration"

subsection \<open>What is written is read back\<close>

lemma lower_names:
  "to_lower ''id'' = ''id''" "to_lower ''app'' = ''app''" "to_lower ''endpoint'' = ''endpoint''"
  "to_lower ''revision'' = ''revision''" "to_lower ''deleted'' = ''deleted''"
  "to_lower ''schema'' = ''schema''" "to_lower ''owner'' = ''owner''"
  "to_lower ''incarnation'' = ''incarnation''" "to_lower ''records'' = ''records''"
  "to_lower ''operation'' = ''operation''"
  by code_simp+

lemmas names_simps = names_field_def fold_name_def lower_names

lemma read_marshal_record: "read_record strict (marshal_record r) z = Inr r"
  by (simp add: read_record_def marshal_record_def record_field_def names_simps)

lemma read_marshal_registration: "read_registration (marshal_registration r) = Inr r"
  by (simp add: read_registration_def marshal_registration_def registration_field_def names_simps)

definition snapshot_wf :: "routeSnapshot \<Rightarrow> bool" where
  "snapshot_wf s \<longleftrightarrow> gm_ok (snap_records s) \<and> - (2 ^ 63) \<le> snap_schema s \<and> snap_schema s < 2 ^ 63"

lemma read_marshal_snapshot:
  assumes "snapshot_wf s"
  shows "read_snapshot (marshal_snapshot s) = Inr s"
proof -
  have "read_map (read_record False) zero_record
      (JObj (map (\<lambda>(k, r). (k, marshal_record r)) (snap_records s))) [] = Inr (snap_records s)"
    using assms by (intro read_map_written) (auto simp: snapshot_wf_def read_marshal_record)
  with assms show ?thesis
    by (simp add: read_snapshot_def marshal_snapshot_def snapshot_field_def names_simps zero_snapshot_def
        read_int_def snapshot_wf_def)
qed

lemma read_snapshot_gm_ok:
  assumes "read_snapshot j = Inr s"
  shows "gm_ok (snap_records s)"
proof (cases j)
  case (JObj ms)
  with assms have "fold_result (snapshot_field False) ms zero_snapshot = Inr s"
    by (simp add: read_snapshot_def)
  then show ?thesis
    by (rule fold_result_invariant [where P = "\<lambda>s. gm_ok (snap_records s)"])
      (auto simp: zero_snapshot_def snapshot_field_def unknown_field_def and_then_eq_Inr
        split: if_splits prod.splits dest: read_map_gm_ok)
qed (use assms in \<open>auto simp: read_snapshot_def read_struct_def zero_snapshot_def\<close>)

text \<open>The text of a request determines the request.\<close>

lemma render_registration_inj:
  "render (marshal_registration r) = render (marshal_registration r') \<longleftrightarrow> r = r'"
  by (cases r; cases r')
    (auto simp: marshal_registration_def quote_append_inj quote_inj split: if_splits)

end
