(* ===== verification/Registry.thy ===== *)
theory Registry
  imports Route_Data
begin

section \<open>The instance registry: workerDaemon.register\<close>

text \<open>
  The worker's durable intent (\<^verbatim>\<open>cmd/worker/serve.go\<close>, \<^verbatim>\<open>register\<close> and \<^verbatim>\<open>snapshot\<close>): one row with the owner's complete
  snapshot, and one row per operation with the hash of its request and the revision it was given. Every
  SQL call can fail; a fault is the error it returns. The transaction works on a copy of the database
  that \<open>Commit\<close> makes current; the deferred \<^verbatim>\<open>Rollback\<close> leaves the database as it was on every other path.
  SHA-256 is the parameter \<open>sha\<close>.
\<close>

subsection \<open>The database and its faults\<close>

record routing_db =
  routing_state :: "json option"
  routing_operations :: "(string, string \<times> u64) go_map"

datatype sql_call = Begin | QueryOperation | CountOperations | QueryState | UpdateState
  | InsertOperation | Commit

type_synonym sql_faults = "sql_call \<Rightarrow> string option"

definition sql :: "sql_faults \<Rightarrow> sql_call \<Rightarrow> 'a result \<Rightarrow> 'a result" where
  "sql faults c r = (case faults c of Some e \<Rightarrow> Inl e | None \<Rightarrow> r)"

definition no_faults :: sql_faults where
  "no_faults c = None"

lemma sql_no_faults [simp, fault_simps]: "sql no_faults c r = r"
  by (simp add: sql_def no_faults_def)

lemma sql_eq_Inr [result_simps]: "sql faults c r = Inr x \<longleftrightarrow> faults c = None \<and> r = Inr x"
  by (auto simp: sql_def split: option.splits)

abbreviation max_revision :: u64 where
  "max_revision \<equiv> 9223372036854775807"

definition select_body :: "routing_db \<Rightarrow> json result" where
  "select_body db = (case routing_state db of None \<Rightarrow> Inl ''sql: no rows in result set'' | Some b \<Rightarrow> Inr b)"

text \<open>The driver has no encoding for an unsigned integer whose high bit is set, and the key is unique.\<close>

definition insert_operation :: "string \<Rightarrow> string \<Rightarrow> u64 \<Rightarrow> routing_db \<Rightarrow> routing_db result" where
  "insert_operation op hash rv db =
     (if \<not> rv \<le> max_revision then Inl ''sql: converting argument: uint64 values with high bit set are not supported''
      else if gm_get (routing_operations db) op \<noteq> None then Inl ''UNIQUE constraint failed: routing_operations.id''
      else Inr (db\<lparr>routing_operations := gm_put op (hash, rv) (routing_operations db)\<rparr>))"

subsection \<open>The operations\<close>

text \<open>\<^verbatim>\<open>func (d *workerDaemon) snapshot\<close>\<close>

definition daemon_snapshot :: "sql_faults \<Rightarrow> routing_db \<Rightarrow> routeSnapshot result" where
  "daemon_snapshot faults db = and_then (sql faults QueryState (select_body db)) read_snapshot"

definition request_hash :: "(string \<Rightarrow> string) \<Rightarrow> registration \<Rightarrow> string" where
  "request_hash sha r = hex_encode (sha (render (marshal_registration r)))"

text \<open>The guards of \<^verbatim>\<open>register\<close> on the decoded state, in the order of the code.\<close>

definition register_checks :: "nat \<Rightarrow> routeSnapshot \<Rightarrow> registration \<Rightarrow> unit result" where
  "register_checks ops_count state request =
     (let found = gm_get (snap_records state) (req_id request);
          ex = (found \<noteq> None);
          old = (case found of None \<Rightarrow> zero_record | Some r \<Rightarrow> r) in
      if 16384 \<le> ops_count \<and> \<not> (ex \<and> \<not> rec_deleted old \<and> req_deleted request) then
        Inl ''operation capacity reached; deletion reserve retained''
      else if ex \<and> (rec_app old \<noteq> req_app request \<or> rec_endpoint old \<noteq> req_endpoint request
          \<or> rec_deleted old \<and> \<not> req_deleted request) then
        Inl ''record conflicts with permanent identity''
      else if \<not> ex \<and> (req_deleted request \<or> 4096 \<le> length (snap_records state)) then
        Inl ''unknown deletion or lifetime capacity''
      else if list_ex (\<lambda>(id, r). rec_endpoint r = req_endpoint request \<and> id \<noteq> req_id request) (snap_records state) then
        Inl ''endpoint permanently reserved''
      else if max_revision \<le> snap_revision state then Inl ''revision exhausted''
      else Inr ())"

definition registered_record :: "u64 \<Rightarrow> registration \<Rightarrow> routeRecord" where
  "registered_record rv request =
     \<lparr>rec_id = req_id request, rec_app = req_app request, rec_endpoint = req_endpoint request,
      rec_revision = rv, rec_deleted = req_deleted request\<rparr>"

definition register_apply :: "routeSnapshot \<Rightarrow> registration \<Rightarrow> routeSnapshot" where
  "register_apply state request =
     (let rv = snap_revision state + 1 in
      state\<lparr>snap_revision := rv,
            snap_records := gm_put (req_id request) (registered_record rv request) (snap_records state)\<rparr>)"

text \<open>The part of the transaction after the operation was found to be new: the new revision and database.\<close>

definition register_new :: "sql_faults \<Rightarrow> string \<Rightarrow> registration \<Rightarrow> routing_db \<Rightarrow> (u64 \<times> routing_db) result" where
  "register_new faults hash request db =
     and_then (sql faults CountOperations (Inr (length (routing_operations db)))) (\<lambda>ops_count.
     and_then (sql faults QueryState (select_body db)) (\<lambda>data.
     and_then (read_snapshot data) (\<lambda>state.
     and_then (register_checks ops_count state request) (\<lambda>_.
     let state' = register_apply state request in
     and_then (sql faults UpdateState (Inr (db\<lparr>routing_state := Some (marshal_snapshot state')\<rparr>))) (\<lambda>tx.
     and_then (sql faults InsertOperation
       (insert_operation (req_operation request) hash (snap_revision state') tx)) (\<lambda>tx'.
     and_then (sql faults Commit (Inr ())) (\<lambda>_. Inr (snap_revision state', tx'))))))))"

text \<open>\<^verbatim>\<open>func (d *workerDaemon) register\<close>: the result and the database afterwards.\<close>

definition register :: "(string \<Rightarrow> string) \<Rightarrow> sql_faults \<Rightarrow> registration \<Rightarrow> routing_db \<Rightarrow> u64 result \<times> routing_db" where
  "register sha faults request db =
     (case sql faults Begin (Inr ()) of Inl e \<Rightarrow> (Inl e, db)
      | Inr _ \<Rightarrow>
        (case sql faults QueryOperation (Inr (gm_get (routing_operations db) (req_operation request))) of
          Inl e \<Rightarrow> (Inl e, db)
        | Inr (Some (oldHash, revision)) \<Rightarrow>
            (if oldHash \<noteq> request_hash sha request then (Inl ''operation has different intended result'', db)
             else (Inr revision, db))
        | Inr None \<Rightarrow>
            (case register_new faults (request_hash sha request) request db of
              Inl e \<Rightarrow> (Inl e, db)
            | Inr (revision, db') \<Rightarrow> (Inr revision, db'))))"

subsection \<open>What a call can do\<close>

text \<open>A call that fails leaves the database as it was.\<close>

lemma register_error_frame: "register sha faults request db = (Inl e, db') \<Longrightarrow> db' = db"
  by (auto simp: register_def split: sum.splits option.splits if_splits prod.splits)

text \<open>A call that succeeds found its operation with the same request, or ran the whole transaction.\<close>

definition fresh_registration :: "(string \<Rightarrow> string) \<Rightarrow> registration \<Rightarrow> routing_db \<Rightarrow> routeSnapshot \<Rightarrow> routing_db \<Rightarrow> bool" where
  "fresh_registration sha request db state db' \<longleftrightarrow>
     gm_get (routing_operations db) (req_operation request) = None
     \<and> (\<exists>data. routing_state db = Some data \<and> read_snapshot data = Inr state)
     \<and> register_checks (length (routing_operations db)) state request = Inr ()
     \<and> db' = \<lparr>routing_state = Some (marshal_snapshot (register_apply state request)),
          routing_operations = gm_put (req_operation request)
            (request_hash sha request, snap_revision state + 1) (routing_operations db)\<rparr>"

lemma register_checks_revision:
  "register_checks n state request = Inr () \<Longrightarrow> snap_revision state < max_revision"
  by (auto simp: register_checks_def Let_def split: if_splits)

lemma register_cases:
  assumes "register sha faults request db = (Inr rv, db')"
  obtains (replay) "db' = db"
      "gm_get (routing_operations db) (req_operation request) = Some (request_hash sha request, rv)"
    | (fresh) state where "fresh_registration sha request db state db'" "rv = snap_revision state + 1"
proof (cases "gm_get (routing_operations db) (req_operation request)")
  case None
  with assms obtain state data where
    "routing_state db = Some data" "read_snapshot data = Inr state"
    "register_checks (length (routing_operations db)) state request = Inr ()"
    "rv = snap_revision state + 1"
    "db' = \<lparr>routing_state = Some (marshal_snapshot (register_apply state request)),
       routing_operations = gm_put (req_operation request)
         (request_hash sha request, snap_revision state + 1) (routing_operations db)\<rparr>"
    by (cases db) (auto simp: register_def register_new_def select_body_def insert_operation_def
        and_then_eq_Inr sql_eq_Inr register_apply_def Let_def
        split: sum.splits option.splits if_splits prod.splits)
  with None show thesis by (intro fresh) (auto simp: fresh_registration_def)
next
  case (Some hr)
  with assms show thesis
    by (intro replay) (auto simp: register_def sql_def split: sum.splits option.splits if_splits prod.splits)
qed

text \<open>Without faults the transaction runs whenever the guards hold.\<close>

lemma register_fresh_succeeds:
  assumes "gm_get (routing_operations db) (req_operation request) = None"
    and "routing_state db = Some data" and "read_snapshot data = Inr state"
    and ok: "register_checks (length (routing_operations db)) state request = Inr ()"
  shows "\<exists>db'. register sha no_faults request db = (Inr (snap_revision state + 1), db')
      \<and> fresh_registration sha request db state db'"
proof -
  have lt: "snap_revision state < max_revision" using ok by (rule register_checks_revision)
  then have "snap_revision state + 1 \<le> max_revision" by (simp add: inc_le)
  with assms show ?thesis
    by (cases db) (simp add: register_def register_new_def select_body_def insert_operation_def
        fresh_registration_def register_apply_def Let_def)
qed

end
