(* ===== verification/Netip.thy ===== *)
theory Netip
  imports Go_Text
begin

section \<open>Literal endpoints: net/netip\<close>

text \<open>
  \<^verbatim>\<open>netip.ParseAddrPort\<close>, \<^verbatim>\<open>AddrPort.String\<close>, \<^verbatim>\<open>Addr.Unmap\<close>, \<^verbatim>\<open>IsUnspecified\<close> and \<^verbatim>\<open>IsMulticast\<close>, which the
  management service uses to admit a backend endpoint. An IPv4 address is its four octets, an IPv6
  address its eight groups of sixteen bits with a zone (empty for none).
\<close>

datatype addr = V4 "nat list" | V6 "nat list" string

type_synonym addr_port = "addr \<times> nat"

definition addr_ok :: "addr \<Rightarrow> bool" where
  "addr_ok a = (case a of V4 os \<Rightarrow> length os = 4 \<and> (\<forall>n \<in> set os. n < 256)
     | V6 gs z \<Rightarrow> length gs = 8 \<and> (\<forall>n \<in> set gs. n < 65536))"

subsection \<open>Parsing\<close>

text \<open>An octet is decimal, has no leading zero and is at most 255.\<close>

definition parse_octet :: "string \<Rightarrow> nat option" where
  "parse_octet s = (if length s > 1 \<and> hd s = CHR ''0'' then None else parse_uint 8 s)"

definition parse_ipv4 :: "string \<Rightarrow> nat list option" where
  "parse_ipv4 s = (case map parse_octet (split_on CHR ''.'' s) of
     [Some a, Some b, Some c, Some d] \<Rightarrow> Some [a, b, c, d]
   | _ \<Rightarrow> None)"

fun read_hex :: "nat \<Rightarrow> string \<Rightarrow> nat" where
  "read_hex acc [] = acc"
| "read_hex acc (c # cs) = read_hex (16 * acc + (case hex_value c of Some d \<Rightarrow> d | None \<Rightarrow> 0)) cs"

definition is_hex :: "char \<Rightarrow> bool" where
  "is_hex c \<longleftrightarrow> hex_value c \<noteq> None"

text \<open>
  The loop of \<^verbatim>\<open>parseIPv6\<close>: \<open>left\<close> groups may follow, \<open>gs\<close> were read, \<open>ell\<close> is the place of the \<^verbatim>\<open>::\<close>.
\<close>

fun ipv6_groups :: "nat \<Rightarrow> string \<Rightarrow> nat list \<Rightarrow> nat option \<Rightarrow> (nat list \<times> nat option) option" where
  "ipv6_groups 0 s gs ell = (if s = [] then Some (gs, ell) else None)"
| "ipv6_groups (Suc left) s gs ell =
     (let hex = takeWhile is_hex s; rest = dropWhile is_hex s in
      if hex = [] \<or> length hex > 4 then None
      else case rest of
        [] \<Rightarrow> Some (gs @ [read_hex 0 hex], ell)
      | c # cs \<Rightarrow>
        if c = CHR ''.'' then
          (if ell = None \<and> length gs \<noteq> 6 \<or> length gs > 6 then None
           else case parse_ipv4 s of
             Some [a, b, c, d] \<Rightarrow> Some (gs @ [256 * a + b, 256 * c + d], ell)
           | _ \<Rightarrow> None)
        else if c \<noteq> CHR '':'' \<or> cs = [] then None
        else if hd cs = CHR '':'' then
          (if ell \<noteq> None then None
           else if tl cs = [] then Some (gs @ [read_hex 0 hex], Some (Suc (length gs)))
           else ipv6_groups left (tl cs) (gs @ [read_hex 0 hex]) (Some (Suc (length gs))))
        else ipv6_groups left cs (gs @ [read_hex 0 hex]) ell)"

definition expand_groups :: "nat list \<times> nat option \<Rightarrow> nat list option" where
  "expand_groups p = (case p of (gs, ell) \<Rightarrow>
     (if length gs < 8 then
        map_option (\<lambda>e. take e gs @ replicate (8 - length gs) 0 @ drop e gs) ell
      else if ell \<noteq> None then None else Some gs))"

definition parse_ipv6 :: "string \<Rightarrow> addr option" where
  "parse_ipv6 s =
     (let body = takeWhile (\<lambda>c. c \<noteq> CHR 0x25) s; after = dropWhile (\<lambda>c. c \<noteq> CHR 0x25) s; zone = tl after in
      if after \<noteq> [] \<and> zone = [] then None
      else if body = ''::'' then Some (V6 (replicate 8 0) zone)
      else map_option (\<lambda>gs. V6 gs zone)
        (Option.bind
          (if prefix ''::'' body then ipv6_groups 8 (drop 2 body) [] (Some 0) else ipv6_groups 8 body [] None)
          expand_groups))"

definition parse_addr :: "string \<Rightarrow> addr option" where
  "parse_addr s = (case find (\<lambda>c. c \<in> {CHR ''.'', CHR '':'', CHR 0x25}) s of
     None \<Rightarrow> None
   | Some c \<Rightarrow> if c = CHR ''.'' then map_option V4 (parse_ipv4 s)
       else if c = CHR '':'' then parse_ipv6 s else None)"

definition parse_addr_port :: "string \<Rightarrow> addr_port option" where
  "parse_addr_port s =
     (let port = rev (takeWhile (\<lambda>c. c \<noteq> CHR '':'') (rev s));
          ip = rev (tl (dropWhile (\<lambda>c. c \<noteq> CHR '':'') (rev s)));
          bracketed = (hd ip = CHR ''['') in
      if CHR '':'' \<notin> set s \<or> ip = [] \<or> port = [] then None
      else if bracketed \<and> (length ip < 2 \<or> last ip \<noteq> CHR '']'') then None
      else case (parse_uint 16 port, parse_addr (if bracketed then butlast (tl ip) else ip)) of
        (Some p, Some (V4 os)) \<Rightarrow> if bracketed then None else Some (V4 os, p)
      | (Some p, Some (V6 gs z)) \<Rightarrow> if bracketed then Some (V6 gs z, p) else None
      | _ \<Rightarrow> None)"

subsection \<open>Classification\<close>

definition is_4in6 :: "addr \<Rightarrow> bool" where
  "is_4in6 a = (case a of V4 os \<Rightarrow> False | V6 gs z \<Rightarrow> take 6 gs = [0, 0, 0, 0, 0, 65535])"

definition unmap :: "addr \<Rightarrow> addr" where
  "unmap a = (if is_4in6 a then
     (case a of V6 gs z \<Rightarrow> V4 [gs ! 6 div 256, gs ! 6 mod 256, gs ! 7 div 256, gs ! 7 mod 256] | _ \<Rightarrow> a)
   else a)"

definition is_unspecified :: "addr \<Rightarrow> bool" where
  "is_unspecified a \<longleftrightarrow> a = V4 [0, 0, 0, 0] \<or> a = V6 (replicate 8 0) []"

definition is_multicast :: "addr \<Rightarrow> bool" where
  "is_multicast a = (case unmap a of V4 os \<Rightarrow> hd os div 16 = 14 | V6 gs z \<Rightarrow> hd gs div 256 = 255)"

subsection \<open>Printing\<close>

fun hex_nat :: "nat \<Rightarrow> string" where
  "hex_nat n = (if n < 16 then [hex_digit n] else hex_nat (n div 16) @ [hex_digit (n mod 16)])"

declare hex_nat.simps [simp del]

definition zero_run :: "nat list \<Rightarrow> nat \<Rightarrow> nat" where
  "zero_run gs i = length (takeWhile (\<lambda>g. g = 0) (drop i gs))"

fun best_run :: "nat list \<Rightarrow> nat list \<Rightarrow> (nat \<times> nat) option \<Rightarrow> (nat \<times> nat) option" where
  "best_run gs [] best = best"
| "best_run gs (i # is) best =
     (let l = zero_run gs i in
      best_run gs is (if l \<ge> 2 \<and> (case best of None \<Rightarrow> True | Some (_, m) \<Rightarrow> m < l) then Some (i, l) else best))"

definition show_addr :: "addr \<Rightarrow> string" where
  "show_addr a = (case a of
     V4 os \<Rightarrow> join_with CHR ''.'' (map itoa os)
   | V6 gs z \<Rightarrow>
       (if is_4in6 a then ''::ffff:'' @ (case unmap a of V4 os \<Rightarrow> join_with CHR ''.'' (map itoa os) | _ \<Rightarrow> [])
        else case best_run gs [0..<8] None of
          None \<Rightarrow> join_with CHR '':'' (map hex_nat gs)
        | Some (i, l) \<Rightarrow> join_with CHR '':'' (map hex_nat (take i gs)) @ ''::''
            @ join_with CHR '':'' (map hex_nat (drop (i + l) gs)))
       @ (if z = [] then [] else CHR 0x25 # z))"

definition show_addr_port :: "addr_port \<Rightarrow> string" where
  "show_addr_port ap = (case ap of (a, p) \<Rightarrow>
     (case a of V4 os \<Rightarrow> show_addr a @ '':'' @ itoa p
      | V6 gs z \<Rightarrow> ''['' @ show_addr a @ '']:'' @ itoa p))"

subsection \<open>Reading a printed IPv4 endpoint back\<close>

lemma digit_not_sep: "digit_value c \<noteq> None \<Longrightarrow> c \<notin> {CHR ''.'', CHR '':'', CHR ''['', CHR 0x25}"
  by (auto simp: digit_value_def less_eq_char_def)

lemma itoa_not_sep: "c \<in> set (itoa n) \<Longrightarrow> c \<notin> {CHR ''.'', CHR '':'', CHR ''['', CHR 0x25}"
  using itoa_digits digit_not_sep by blast

lemma find_append_first: "\<forall>c \<in> set s. \<not> P c \<Longrightarrow> P x \<Longrightarrow> find P (s @ x # t) = Some x"
  by (induction s) auto

lemma hd_itoa: "n \<ge> 10 \<Longrightarrow> hd (itoa n) \<noteq> CHR ''0''"
proof (induction n rule: itoa.induct)
  case (1 n)
  show ?case
  proof (cases "n div 10 < 10")
    case True
    with "1.prems" have "n div 10 \<in> set [1..<10]" by (simp add: div_greater_zero_iff Suc_le_eq)
    moreover have "\<forall>d \<in> set [1..<10]. hex_digit d \<noteq> CHR ''0''" by code_simp
    ultimately have "hex_digit (n div 10) \<noteq> CHR ''0''" by blast
    with True "1.prems" show ?thesis by (simp add: itoa.simps [of n] itoa.simps [of "n div 10"])
  next
    case False
    with 1 show ?thesis by (simp add: itoa.simps [of n])
  qed
qed

lemma parse_octet_itoa: "n < 256 \<Longrightarrow> parse_octet (itoa n) = Some n"
proof -
  assume n: "n < 256"
  have "\<not> (length (itoa n) > 1 \<and> hd (itoa n) = CHR ''0'')"
    using hd_itoa [of n] by (cases "n < 10") (auto simp: itoa.simps [of n])
  with n show ?thesis by (simp add: parse_octet_def parse_uint_itoa)
qed

lemma parse_ipv4_show:
  assumes "addr_ok (V4 os)"
  shows "parse_ipv4 (show_addr (V4 os)) = Some os"
proof -
  from assms obtain a b c d where os: "os = [a, b, c, d]" and "a < 256" "b < 256" "c < 256" "d < 256"
    by (auto simp: addr_ok_def numeral_eq_Suc length_Suc_conv)
  moreover have "CHR ''.'' \<notin> set (itoa n)" for n using itoa_not_sep [of _ n] by blast
  ultimately show ?thesis
    by (simp add: parse_ipv4_def show_addr_def split_on_join split_on_single parse_octet_itoa)
qed

text \<open>The canonical spelling of an IPv4 endpoint reads back as the endpoint it was printed from.\<close>

lemma parse_show_ipv4_port:
  assumes ok: "addr_ok (V4 os)" and port: "p < 65536"
  shows "parse_addr_port (show_addr_port (V4 os, p)) = Some (V4 os, p)"
proof -
  define ip where "ip = show_addr (V4 os)"
  have colon: "CHR '':'' \<notin> set (itoa n)" and brack: "CHR ''['' \<notin> set (itoa n)" for n
    using itoa_not_sep [of _ n] by blast+
  from ok obtain a b c d where os: "os = [a, b, c, d]"
    by (auto simp: addr_ok_def numeral_eq_Suc length_Suc_conv)
  have ip: "ip = itoa a @ ''.'' @ itoa b @ ''.'' @ itoa c @ ''.'' @ itoa d"
    by (simp add: ip_def show_addr_def os)
  have nocolon: "CHR '':'' \<notin> set ip" and ipne: "ip \<noteq> []" and hdip: "hd ip \<noteq> CHR ''[''"
    using colon brack by (auto simp: ip) (metis brack hd_append2 hd_in_set itoa_nonempty)
  have s: "show_addr_port (V4 os, p) = ip @ '':'' @ itoa p"
    by (simp add: show_addr_port_def ip_def)
  have first: "find (\<lambda>c. c \<in> {CHR ''.'', CHR '':'', CHR 0x25}) ip = Some CHR ''.''"
    unfolding ip using itoa_not_sep [of _ a] by (simp add: find_append_first)
  have "parse_addr ip = Some (V4 os)"
    using parse_ipv4_show [OF ok] by (simp add: parse_addr_def first [simplified] ip_def [symmetric])
  moreover have "takeWhile (\<lambda>c. c \<noteq> CHR '':'') (rev (ip @ '':'' @ itoa p)) = rev (itoa p)"
    and "dropWhile (\<lambda>c. c \<noteq> CHR '':'') (rev (ip @ '':'' @ itoa p)) = CHR '':'' # rev ip"
    using colon [of p] by (simp_all add: takeWhile_append dropWhile_append takeWhile_tail)
  ultimately show ?thesis
    using port nocolon ipne hdip by (simp add: s parse_addr_port_def Let_def parse_uint_itoa)
qed

end
