(* ===== verification/Router.thy ===== *)
theory Router
  imports Route_Data Netip
begin

section \<open>The routing node: routing/src/lib.rs\<close>

text \<open>
  The state transitions of the routing node that the worker publishes to and recovers from: \<^verbatim>\<open>accept\<close>, \<^verbatim>\<open>freeze\<close>,
  \<^verbatim>\<open>recover\<close> and \<^verbatim>\<open>after_restart\<close> of \<^verbatim>\<open>State\<close>. Each returns a candidate state or an error. The size of a state's
  JSON (serde_json) and the digest of a recovery result (sha2) are the parameters \<open>json_bytes\<close> and \<open>digest_of\<close>.
  An endpoint is its canonical text, on which equality is equality of socket addresses.
\<close>

record recovery_mark =
  mark_operation :: string
  mark_digest :: string

record owner_entry =
  own_snapshot :: routeSnapshot
  own_reconciled :: u64
  own_stale :: bool
  own_frozen_by :: "string option"
  own_credential :: "string option"
  own_recovery :: "recovery_mark option"

record router_state =
  rt_generation :: u64
  rt_owners :: "(string, owner_entry) go_map"

record router_policy =
  pol_applications :: "string list"
  pol_record_limit :: nat
  pol_view_limit :: nat

abbreviation max_u64 :: u64 where
  "max_u64 \<equiv> 18446744073709551615"

definition router_name :: "string \<Rightarrow> bool" where
  "router_name s \<longleftrightarrow> s \<noteq> [] \<and> length s \<le> 128
     \<and> list_all (\<lambda>c. is_alnum c \<or> c \<in> {CHR ''-'', CHR ''_'', CHR ''.''}) s"

subsection \<open>Accepting a snapshot\<close>

text \<open>The comparison of a snapshot with the one accepted before it (the block under \<^verbatim>\<open>if let Some(previous)\<close>).\<close>

definition record_extends :: "routeRecord \<Rightarrow> routeRecord \<Rightarrow> bool" where
  "record_extends old new \<longleftrightarrow> rec_id new = rec_id old \<and> rec_app new = rec_app old
     \<and> rec_endpoint new = rec_endpoint old \<and> rec_revision old \<le> rec_revision new
     \<and> (rec_deleted old \<longrightarrow> rec_deleted new)
     \<and> (rec_revision new = rec_revision old \<longrightarrow> new = old)"

definition history_record :: "(string, routeRecord) go_map \<Rightarrow> string \<times> routeRecord \<Rightarrow> unit \<Rightarrow> unit result" where
  "history_record news ko u = (case ko of (k, old) \<Rightarrow>
     (case gm_get news k of None \<Rightarrow> Inl ''accepted history omitted''
      | Some new \<Rightarrow> guard (record_extends old new) ''record conflicts with accepted history''))"

definition history_check :: "owner_entry \<Rightarrow> routeSnapshot \<Rightarrow> unit result" where
  "history_check previous s =
     (let old = own_snapshot previous in
      if own_frozen_by previous \<noteq> None then Inl ''owner frozen for recovery''
      else if snap_incarnation s \<noteq> snap_incarnation old then Inl ''incarnation changes require recovery''
      else if snap_revision s < snap_revision old then Inl ''snapshot revision regressed''
      else if snap_revision s = snap_revision old \<and> s \<noteq> old then Inl ''conflicting snapshot revision''
      else fold_result (history_record (snap_records s)) (snap_records old) ())"

text \<open>The \<^verbatim>\<open>matches!\<close> on scoped and mapped addresses, and the other requirements on one record.\<close>

definition canonical_endpoint :: "string \<Rightarrow> bool" where
  "canonical_endpoint e = (case parse_addr_port e of None \<Rightarrow> False
     | Some (V4 os, _) \<Rightarrow> True | Some (V6 gs z, _) \<Rightarrow> z = [] \<and> \<not> is_4in6 (V6 gs z))"

definition usable_endpoint :: "string \<Rightarrow> bool" where
  "usable_endpoint e = (case parse_addr_port e of None \<Rightarrow> False
     | Some (a, p) \<Rightarrow> p \<noteq> 0 \<and> \<not> is_unspecified a \<and> \<not> is_multicast a)"

definition valid_record :: "router_policy \<Rightarrow> u64 \<Rightarrow> string \<Rightarrow> routeRecord \<Rightarrow> bool" where
  "valid_record policy rv k r \<longleftrightarrow> k = rec_id r \<and> router_name k \<and> router_name (rec_app r)
     \<and> rec_app r \<in> set (pol_applications policy) \<and> rec_revision r \<noteq> 0 \<and> rec_revision r \<le> rv
     \<and> usable_endpoint (rec_endpoint r)"

text \<open>Every endpoint any owner has ever had, with the owner and the instance it belongs to.\<close>

definition reservations :: "router_state \<Rightarrow> (string \<times> string \<times> string) list" where
  "reservations st = concat (map (\<lambda>(owner, e).
     map (\<lambda>(_, r). (rec_endpoint r, owner, rec_id r)) (snap_records (own_snapshot e))) (rt_owners st))"

definition record_check :: "router_policy \<Rightarrow> router_state \<Rightarrow> routeSnapshot \<Rightarrow> string \<times> routeRecord \<Rightarrow> string list \<Rightarrow> string list result" where
  "record_check policy st s kr seen = (case kr of (k, r) \<Rightarrow>
     if \<not> canonical_endpoint (rec_endpoint r) then Inl ''endpoint aliases require a canonical unscoped address''
     else if \<not> valid_record policy (snap_revision s) k r then Inl ''invalid record or application ownership''
     else if rec_endpoint r \<in> set seen then Inl ''endpoint reserved by another instance''
     else if (case map_of (rev (reservations st)) (rec_endpoint r) of None \<Rightarrow> False
         | Some (owner, i) \<Rightarrow> owner \<noteq> snap_owner s \<or> i \<noteq> rec_id r)
       then Inl ''endpoint reserved by another instance''
     else Inr (rec_endpoint r # seen))"

text \<open>The largest form a state can take later, whose size is budgeted at admission.\<close>

definition reserve_record :: "routeRecord \<Rightarrow> routeRecord" where
  "reserve_record r = r\<lparr>rec_revision := max_u64, rec_deleted := False\<rparr>"

definition reserve_owner :: "owner_entry \<Rightarrow> owner_entry" where
  "reserve_owner e = e\<lparr>own_reconciled := max_u64, own_stale := False,
     own_snapshot := (own_snapshot e)\<lparr>snap_revision := max_u64, snap_incarnation := max_u64,
       snap_records := map (\<lambda>(id, r). (id, reserve_record r)) (snap_records (own_snapshot e))\<rparr>,
     own_frozen_by := Some (replicate 128 CHR ''x''), own_credential := Some (replicate 64 CHR ''x''),
     own_recovery := Some \<lparr>mark_operation = replicate 128 CHR ''x'', mark_digest = replicate 64 CHR ''x''\<rparr>\<rparr>"

definition reserve_state :: "router_state \<Rightarrow> router_state" where
  "reserve_state st = st\<lparr>rt_generation := max_u64,
     rt_owners := map (\<lambda>(id, e). (id, reserve_owner e)) (rt_owners st)\<rparr>"

definition router_accept ::
  "(router_state \<Rightarrow> nat) \<Rightarrow> router_state \<Rightarrow> string \<Rightarrow> routeSnapshot \<Rightarrow> router_policy \<Rightarrow> u64 \<Rightarrow> router_state result" where
  "router_accept json_bytes st authenticated s policy now =
     (if snap_schema s \<noteq> 1 \<or> snap_owner s \<noteq> authenticated \<or> \<not> router_name (snap_owner s)
         \<or> snap_incarnation s = 0 \<or> snap_revision s = 0 then Inl ''invalid schema or owner authority''
      else if pol_record_limit policy < length (snap_records s) then Inl ''lifetime record capacity exceeded''
      else
        (let previous = gm_get (rt_owners st) (snap_owner s) in
         and_then (case previous of None \<Rightarrow> Inr () | Some p \<Rightarrow> history_check p s) (\<lambda>_.
         and_then (fold_result (record_check policy st s) (snap_records s) []) (\<lambda>_.
         and_then (guard (rt_generation st \<noteq> max_u64) ''generation exhausted'') (\<lambda>_.
         let candidate = st\<lparr>rt_generation := rt_generation st + 1,
           rt_owners := gm_put (snap_owner s)
             \<lparr>own_snapshot = s, own_reconciled = now, own_stale = False, own_frozen_by = None,
              own_credential = Option.bind previous own_credential,
              own_recovery = Option.bind previous own_recovery\<rparr> (rt_owners st)\<rparr> in
         if pol_view_limit policy < json_bytes (reserve_state candidate) then Inl ''complete view capacity exceeded''
         else Inr candidate)))))"

subsection \<open>Freezing and recovering an owner\<close>

definition freeze :: "router_state \<Rightarrow> string \<Rightarrow> string \<Rightarrow> router_state result" where
  "freeze st owner operation =
     (if \<not> router_name operation then Inl ''invalid recovery operation''
      else case gm_get (rt_owners st) owner of
        None \<Rightarrow> Inl ''unknown owner''
      | Some e \<Rightarrow>
        if (case own_recovery e of None \<Rightarrow> False | Some m \<Rightarrow> mark_operation m = operation) then Inr st
        else case own_frozen_by e of
          Some existing \<Rightarrow> if existing \<noteq> operation then Inl ''another recovery owns the fence'' else Inr st
        | None \<Rightarrow>
          and_then (guard (rt_generation st \<noteq> max_u64) ''generation exhausted'') (\<lambda>_.
            Inr (st\<lparr>rt_generation := rt_generation st + 1,
              rt_owners := gm_put owner (e\<lparr>own_frozen_by := Some operation, own_stale := True\<rparr>) (rt_owners st)\<rparr>)))"

definition router_hex :: "string \<Rightarrow> bool" where
  "router_hex s \<longleftrightarrow> length s = 64 \<and> list_all (\<lambda>c. hex_value c \<noteq> None) s"

definition router_recover ::
  "(router_state \<Rightarrow> nat) \<Rightarrow> (string \<times> routeSnapshot \<times> string \<Rightarrow> string) \<Rightarrow> router_state \<Rightarrow> string \<Rightarrow> routeSnapshot
     \<Rightarrow> string \<Rightarrow> router_policy \<Rightarrow> router_state result" where
  "router_recover json_bytes digest_of st operation s credential policy =
     (if \<not> router_name operation \<or> \<not> router_hex credential then Inl ''invalid recovery identity''
      else case gm_get (rt_owners st) (snap_owner s) of
        None \<Rightarrow> Inl ''unknown owner''
      | Some previous \<Rightarrow>
        if (case own_recovery previous of None \<Rightarrow> False | Some m \<Rightarrow> mark_operation m = operation) then
          (if map_option mark_digest (own_recovery previous) = Some (digest_of (operation, s, credential))
           then Inr st else Inl ''recovery result conflict'')
        else if own_frozen_by previous \<noteq> Some operation
              \<or> snap_incarnation s \<le> snap_incarnation (own_snapshot previous) then
            Inl ''recovery requires matching fence and newer incarnation''
          else
            (let unfenced = previous\<lparr>own_frozen_by := None,
                   own_snapshot := (own_snapshot previous)\<lparr>snap_incarnation := snap_incarnation s\<rparr>\<rparr>;
                 base = st\<lparr>rt_owners := gm_put (snap_owner s) unfenced (rt_owners st)\<rparr> in
             and_then (router_accept json_bytes base (snap_owner s) s policy (own_reconciled previous)) (\<lambda>candidate.
               case gm_get (rt_owners candidate) (snap_owner s) of
                 None \<Rightarrow> Inl ''unreachable''
               | Some e \<Rightarrow> Inr (candidate\<lparr>rt_owners := gm_put (snap_owner s)
                   (e\<lparr>own_stale := True, own_credential := Some credential,
                      own_recovery := Some \<lparr>mark_operation = operation, mark_digest = digest_of (operation, s, credential)\<rparr>\<rparr>)
                   (rt_owners candidate)\<rparr>))))"

definition after_restart :: "router_state \<Rightarrow> router_state" where
  "after_restart st = st\<lparr>rt_owners := map (\<lambda>(k, e). (k, e\<lparr>own_stale := True\<rparr>)) (rt_owners st)\<rparr>"

subsection \<open>The history relation\<close>

text \<open>What the comparison with the accepted snapshot amounts to, as a relation on record maps.\<close>

definition records_extend :: "(string, routeRecord) go_map \<Rightarrow> (string, routeRecord) go_map \<Rightarrow> bool" where
  "records_extend olds news \<longleftrightarrow> (\<forall>(k, old) \<in> set olds.
     (case gm_get news k of None \<Rightarrow> False | Some new \<Rightarrow> record_extends old new))"

definition history_extends :: "routeSnapshot \<Rightarrow> routeSnapshot \<Rightarrow> bool" where
  "history_extends old s \<longleftrightarrow> snap_incarnation s = snap_incarnation old
     \<and> snap_revision old \<le> snap_revision s \<and> (snap_revision s = snap_revision old \<longrightarrow> s = old)
     \<and> records_extend (snap_records old) (snap_records s)"

lemma history_records_ok:
  "fold_result (history_record news) olds () = Inr () \<longleftrightarrow> records_extend olds news"
  by (induction olds) (auto simp: records_extend_def history_record_def and_then_eq_Inr split: option.splits)

lemma history_check_iff:
  "history_check previous s = Inr () \<longleftrightarrow>
     own_frozen_by previous = None \<and> history_extends (own_snapshot previous) s"
  by (auto simp: history_check_def history_extends_def Let_def history_records_ok)

lemma record_extends_refl [simp]: "record_extends r r"
  by (simp add: record_extends_def)

lemma record_extends_trans: "record_extends a b \<Longrightarrow> record_extends b c \<Longrightarrow> record_extends a c"
  by (auto simp: record_extends_def)

lemma records_extend_get:
  assumes "records_extend olds news" and "gm_get olds k = Some old"
  obtains new where "gm_get news k = Some new" "record_extends old new"
proof -
  from assms(2) have "(k, old) \<in> set olds" by (rule map_of_SomeD)
  with assms(1) have "case gm_get news k of None \<Rightarrow> False | Some new \<Rightarrow> record_extends old new"
    by (auto simp: records_extend_def)
  then show thesis by (cases "gm_get news k") (auto intro: that)
qed

lemma records_extend_getI:
  "gm_ok olds \<Longrightarrow> (\<And>k old. gm_get olds k = Some old \<Longrightarrow> \<exists>new. gm_get news k = Some new \<and> record_extends old new)
    \<Longrightarrow> records_extend olds news"
  by (fastforce simp: records_extend_def gm_in_set_iff split: option.splits)

lemma records_extend_trans:
  assumes "gm_ok a" "records_extend a b" "records_extend b c"
  shows "records_extend a c"
  by (rule records_extend_getI [OF assms(1)])
    (blast elim: records_extend_get [OF assms(2)] records_extend_get [OF assms(3)] intro: record_extends_trans)

lemma records_extend_refl: "gm_ok a \<Longrightarrow> records_extend a a"
  by (rule records_extend_getI) auto

lemma history_extends_refl: "gm_ok (snap_records s) \<Longrightarrow> history_extends s s"
  by (simp add: history_extends_def records_extend_refl)

lemma history_extends_trans:
  assumes "gm_ok (snap_records a)" "history_extends a b" "history_extends b c"
  shows "history_extends a c"
  using assms records_extend_trans [of "snap_records a" "snap_records b" "snap_records c"]
  by (auto simp: history_extends_def)

end
