(* ===== verification/Daemon_Config.thy ===== *)
theory Daemon_Config
  imports Route_Data
begin

section \<open>The owner configuration\<close>

text \<open>
  \<^verbatim>\<open>daemonConfig\<close> and \<^verbatim>\<open>workload\<close> of \<^verbatim>\<open>cmd/worker/serve.go\<close>: the file the operator writes, \<^verbatim>\<open>serveWorker\<close> decodes
  strictly and \<^verbatim>\<open>recoverWorker\<close> decodes leniently and writes back with a new credential; and the checks
  \<^verbatim>\<open>serveWorker\<close> makes on it.
\<close>

record workload =
  wl_unit :: string
  wl_app :: string
  wl_endpoint :: string
  wl_version :: string
  wl_kind :: string

record daemonConfig =
  cfg_router_admin_token :: string
  cfg_workloads :: "(string, workload) go_map"
  cfg_owner :: string
  cfg_applications :: "string list"
  cfg_token :: string
  cfg_admin_token :: string
  cfg_routers :: "string list"
  cfg_restore_guard :: string

definition zero_workload :: workload where
  "zero_workload = \<lparr>wl_unit = [], wl_app = [], wl_endpoint = [], wl_version = [], wl_kind = []\<rparr>"

definition zero_config :: daemonConfig where
  "zero_config = \<lparr>cfg_router_admin_token = [], cfg_workloads = [], cfg_owner = [], cfg_applications = [],
     cfg_token = [], cfg_admin_token = [], cfg_routers = [], cfg_restore_guard = []\<rparr>"

subsection \<open>JSON\<close>

definition marshal_workload :: "workload \<Rightarrow> json" where
  "marshal_workload w = JObj
     [(''unit'', JStr (wl_unit w)), (''app'', JStr (wl_app w)), (''endpoint'', JStr (wl_endpoint w)),
      (''version'', JStr (wl_version w)), (''kind'', JStr (wl_kind w))]"

definition marshal_config :: "daemonConfig \<Rightarrow> json" where
  "marshal_config c = JObj
     [(''router_admin_token'', JStr (cfg_router_admin_token c)),
      (''workloads'', JObj (map (\<lambda>(k, w). (k, marshal_workload w)) (cfg_workloads c))),
      (''owner'', JStr (cfg_owner c)), (''applications'', JArr (map JStr (cfg_applications c))),
      (''token'', JStr (cfg_token c)), (''admin_token'', JStr (cfg_admin_token c)),
      (''routers'', JArr (map JStr (cfg_routers c))), (''restore_guard'', JStr (cfg_restore_guard c))]"

definition workload_field :: "bool \<Rightarrow> string \<times> json \<Rightarrow> workload \<Rightarrow> workload result" where
  "workload_field strict kv w = (case kv of (k, j) \<Rightarrow>
     if names_field k ''unit'' then and_then (read_str j (wl_unit w)) (\<lambda>x. Inr (w\<lparr>wl_unit := x\<rparr>))
     else if names_field k ''app'' then and_then (read_str j (wl_app w)) (\<lambda>x. Inr (w\<lparr>wl_app := x\<rparr>))
     else if names_field k ''endpoint'' then and_then (read_str j (wl_endpoint w)) (\<lambda>x. Inr (w\<lparr>wl_endpoint := x\<rparr>))
     else if names_field k ''version'' then and_then (read_str j (wl_version w)) (\<lambda>x. Inr (w\<lparr>wl_version := x\<rparr>))
     else if names_field k ''kind'' then and_then (read_str j (wl_kind w)) (\<lambda>x. Inr (w\<lparr>wl_kind := x\<rparr>))
     else unknown_field strict k w)"

definition config_field :: "bool \<Rightarrow> string \<times> json \<Rightarrow> daemonConfig \<Rightarrow> daemonConfig result" where
  "config_field strict kv c = (case kv of (k, j) \<Rightarrow>
     if names_field k ''router_admin_token'' then
       and_then (read_str j (cfg_router_admin_token c)) (\<lambda>x. Inr (c\<lparr>cfg_router_admin_token := x\<rparr>))
     else if names_field k ''workloads'' then
       and_then (read_map (read_struct (workload_field strict)) zero_workload j (cfg_workloads c))
         (\<lambda>x. Inr (c\<lparr>cfg_workloads := x\<rparr>))
     else if names_field k ''owner'' then and_then (read_str j (cfg_owner c)) (\<lambda>x. Inr (c\<lparr>cfg_owner := x\<rparr>))
     else if names_field k ''applications'' then and_then (read_strings j) (\<lambda>x. Inr (c\<lparr>cfg_applications := x\<rparr>))
     else if names_field k ''token'' then and_then (read_str j (cfg_token c)) (\<lambda>x. Inr (c\<lparr>cfg_token := x\<rparr>))
     else if names_field k ''admin_token'' then
       and_then (read_str j (cfg_admin_token c)) (\<lambda>x. Inr (c\<lparr>cfg_admin_token := x\<rparr>))
     else if names_field k ''routers'' then and_then (read_strings j) (\<lambda>x. Inr (c\<lparr>cfg_routers := x\<rparr>))
     else if names_field k ''restore_guard'' then
       and_then (read_str j (cfg_restore_guard c)) (\<lambda>x. Inr (c\<lparr>cfg_restore_guard := x\<rparr>))
     else unknown_field strict k c)"

definition read_config :: "bool \<Rightarrow> json \<Rightarrow> daemonConfig result" where
  "read_config strict j = read_struct (config_field strict) j zero_config"

lemma lower_config_names:
  "to_lower ''unit'' = ''unit''" "to_lower ''version'' = ''version''" "to_lower ''kind'' = ''kind''"
  "to_lower ''router_admin_token'' = ''router_admin_token''" "to_lower ''workloads'' = ''workloads''"
  "to_lower ''applications'' = ''applications''" "to_lower ''token'' = ''token''"
  "to_lower ''admin_token'' = ''admin_token''" "to_lower ''routers'' = ''routers''"
  "to_lower ''restore_guard'' = ''restore_guard''"
  by code_simp+

lemma read_marshal_config:
  assumes "gm_ok (cfg_workloads c)"
  shows "read_config strict (marshal_config c) = Inr c"
proof -
  have "read_map (read_struct (workload_field strict)) zero_workload
      (JObj (map (\<lambda>(k, w). (k, marshal_workload w)) (cfg_workloads c))) [] = Inr (cfg_workloads c)"
    using assms by (intro read_map_written)
      (auto simp: marshal_workload_def workload_field_def names_simps lower_config_names)
  then show ?thesis
    by (simp add: read_config_def marshal_config_def config_field_def names_simps lower_config_names
        zero_config_def read_strings_written)
qed

subsection \<open>Validation\<close>

definition name_char :: "char \<Rightarrow> bool" where
  "name_char c \<longleftrightarrow> is_alnum c \<or> c \<in> {CHR ''_'', CHR ''.'', CHR ''-''}"

text \<open>\<^verbatim>\<open>routeName\<close>: \<^verbatim>\<open>^[a-zA-Z0-9_.-]{1,128}$\<close>.\<close>

definition routeName :: "string \<Rightarrow> bool" where
  "routeName s \<longleftrightarrow> 1 \<le> length s \<and> length s \<le> 128 \<and> list_all name_char s"

text \<open>The set of configured applications: \<^verbatim>\<open>allowed\<close>, in the order of a Go map's keys.\<close>

definition allowed_applications :: "daemonConfig \<Rightarrow> string list result" where
  "allowed_applications c =
     (if list_all routeName (cfg_applications c) then Inr (remdups (cfg_applications c))
      else Inl ''invalid application'')"

text \<open>\<^verbatim>\<open>filepath.IsAbs\<close> on Unix.\<close>

definition is_abs :: "string \<Rightarrow> bool" where
  "is_abs p \<longleftrightarrow> prefix ''/'' p"

definition validate_config :: "daemonConfig \<Rightarrow> string list result" where
  "validate_config c =
     (if \<not> routeName (cfg_owner c) \<or> length (cfg_token c) < 32 \<or> length (cfg_admin_token c) < 32
         \<or> length (cfg_routers c) \<noteq> 2 \<or> \<not> is_abs (cfg_restore_guard c) then
        Inl ''invalid owner credentials, routers or external restore guard''
      else and_then (allowed_applications c) (\<lambda>allowed.
        if length allowed = 0 \<or> 64 < length allowed then Inl ''expected 1..64 applications''
        else if \<not> list_all (prefix ''http://'') (cfg_routers c) then Inl ''lab routers require explicit http URL''
        else Inr allowed))"

lemma validate_config_ok:
  assumes "validate_config c = Inr allowed"
  shows "routeName (cfg_owner c)" "length (cfg_routers c) = 2" "is_abs (cfg_restore_guard c)"
    "32 \<le> length (cfg_token c)" "32 \<le> length (cfg_admin_token c)"
    "set allowed = set (cfg_applications c)" "distinct allowed" "1 \<le> length allowed" "length allowed \<le> 64"
    "\<forall>a \<in> set allowed. routeName a" "\<forall>r \<in> set (cfg_routers c). prefix ''http://'' r"
  using assms
  by (auto simp: validate_config_def allowed_applications_def and_then_eq_Inr list_all_iff Suc_le_eq split: if_splits)

text \<open>The router's notion of a name is the worker's.\<close>

lemma name_char_iff: "name_char c \<longleftrightarrow> is_alnum c \<or> c \<in> {CHR ''-'', CHR ''_'', CHR ''.''}"
  by (auto simp: name_char_def)

end
