(* ===== verification/Recovery_Data.thy ===== *)
theory Recovery_Data
  imports Router Daemon_Config
begin

section \<open>The data of a recovery\<close>

text \<open>
  What \<^verbatim>\<open>cmd/worker/recover.go\<close> reads and writes: the routers' answers (\<^verbatim>\<open>acceptedOwner\<close>), the journal of a
  recovery (\<^verbatim>\<open>recoveryJournal\<close>) and the request it posts, with their JSON forms.
\<close>

record acceptedOwner =
  acc_snapshot :: routeSnapshot
  acc_recovery :: "recovery_mark option"

record recoveryJournal =
  jr_operation :: string
  jr_owner :: string
  jr_database :: string
  jr_snapshot :: "routeSnapshot option"
  jr_credential :: string
  jr_quarantined :: "(string, routeRecord) go_map"
  jr_acknowledgements :: "(string, string) go_map"
  jr_complete :: bool

record recovery_request =
  call_owner :: string
  call_operation :: string
  call_snapshot :: "routeSnapshot option"
  call_hash :: "string option"

definition zero_accepted :: acceptedOwner where
  "zero_accepted = \<lparr>acc_snapshot = zero_snapshot, acc_recovery = None\<rparr>"

definition fresh_journal :: "string \<Rightarrow> string \<Rightarrow> string \<Rightarrow> recoveryJournal" where
  "fresh_journal operation owner database = \<lparr>jr_operation = operation, jr_owner = owner, jr_database = database,
     jr_snapshot = None, jr_credential = [], jr_quarantined = [], jr_acknowledgements = [], jr_complete = False\<rparr>"

subsection \<open>Pointers\<close>

text \<open>\<^verbatim>\<open>null\<close> makes a pointer nil; any other value is stored into what it points to, a new zero value if it was nil.\<close>

definition read_pointer :: "(json \<Rightarrow> 'a \<Rightarrow> 'a result) \<Rightarrow> 'a \<Rightarrow> json \<Rightarrow> 'a option \<Rightarrow> 'a option result" where
  "read_pointer elem zero j old = (case j of JNull \<Rightarrow> Inr None
     | _ \<Rightarrow> and_then (elem j (case old of None \<Rightarrow> zero | Some x \<Rightarrow> x)) (\<lambda>x. Inr (Some x)))"

definition write_pointer :: "('a \<Rightarrow> json) \<Rightarrow> 'a option \<Rightarrow> json" where
  "write_pointer w x = (case x of None \<Rightarrow> JNull | Some v \<Rightarrow> w v)"

definition snapshot_into :: "json \<Rightarrow> routeSnapshot \<Rightarrow> routeSnapshot result" where
  "snapshot_into = read_struct (snapshot_field False)"

subsection \<open>The routers' answers\<close>

definition mark_field :: "string \<times> json \<Rightarrow> recovery_mark \<Rightarrow> recovery_mark result" where
  "mark_field kv m = (case kv of (k, j) \<Rightarrow>
     if names_field k ''operation'' then and_then (read_str j (mark_operation m)) (\<lambda>x. Inr (m\<lparr>mark_operation := x\<rparr>))
     else if names_field k ''digest'' then and_then (read_str j (mark_digest m)) (\<lambda>x. Inr (m\<lparr>mark_digest := x\<rparr>))
     else Inr m)"

definition accepted_field :: "string \<times> json \<Rightarrow> acceptedOwner \<Rightarrow> acceptedOwner result" where
  "accepted_field kv a = (case kv of (k, j) \<Rightarrow>
     if names_field k ''snapshot'' then and_then (snapshot_into j (acc_snapshot a)) (\<lambda>x. Inr (a\<lparr>acc_snapshot := x\<rparr>))
     else if names_field k ''recovery'' then
       and_then (read_pointer (read_struct mark_field) \<lparr>mark_operation = [], mark_digest = []\<rparr> j (acc_recovery a))
         (\<lambda>x. Inr (a\<lparr>acc_recovery := x\<rparr>))
     else Inr a)"

definition read_accepted :: "json \<Rightarrow> acceptedOwner result" where
  "read_accepted j = read_struct accepted_field j zero_accepted"

text \<open>The router's form of an owner, as serde writes it.\<close>

definition marshal_owner :: "owner_entry \<Rightarrow> json" where
  "marshal_owner e = JObj
     [(''snapshot'', marshal_snapshot (own_snapshot e)), (''reconciled_ms'', JNum (uint (own_reconciled e))),
      (''stale'', JBool (own_stale e)), (''frozen_by'', write_pointer JStr (own_frozen_by e)),
      (''credential_hash'', write_pointer JStr (own_credential e)),
      (''recovery'', write_pointer (\<lambda>m. JObj [(''operation'', JStr (mark_operation m)), (''digest'', JStr (mark_digest m))])
         (own_recovery e))]"

subsection \<open>The journal\<close>

definition marshal_journal :: "recoveryJournal \<Rightarrow> json" where
  "marshal_journal r = JObj
     [(''operation'', JStr (jr_operation r)), (''owner'', JStr (jr_owner r)), (''database'', JStr (jr_database r)),
      (''snapshot'', write_pointer marshal_snapshot (jr_snapshot r)), (''credential'', JStr (jr_credential r)),
      (''quarantined'', JObj (map (\<lambda>(k, x). (k, marshal_record x)) (jr_quarantined r))),
      (''acknowledgements'', JObj (map (\<lambda>(k, x). (k, JStr x)) (jr_acknowledgements r))),
      (''complete'', JBool (jr_complete r))]"

definition journal_field :: "string \<times> json \<Rightarrow> recoveryJournal \<Rightarrow> recoveryJournal result" where
  "journal_field kv r = (case kv of (k, j) \<Rightarrow>
     if names_field k ''operation'' then and_then (read_str j (jr_operation r)) (\<lambda>x. Inr (r\<lparr>jr_operation := x\<rparr>))
     else if names_field k ''owner'' then and_then (read_str j (jr_owner r)) (\<lambda>x. Inr (r\<lparr>jr_owner := x\<rparr>))
     else if names_field k ''database'' then and_then (read_str j (jr_database r)) (\<lambda>x. Inr (r\<lparr>jr_database := x\<rparr>))
     else if names_field k ''snapshot'' then
       and_then (read_pointer snapshot_into zero_snapshot j (jr_snapshot r)) (\<lambda>x. Inr (r\<lparr>jr_snapshot := x\<rparr>))
     else if names_field k ''credential'' then and_then (read_str j (jr_credential r)) (\<lambda>x. Inr (r\<lparr>jr_credential := x\<rparr>))
     else if names_field k ''quarantined'' then
       and_then (read_map (read_record False) zero_record j (jr_quarantined r)) (\<lambda>x. Inr (r\<lparr>jr_quarantined := x\<rparr>))
     else if names_field k ''acknowledgements'' then
       and_then (read_map read_str [] j (jr_acknowledgements r)) (\<lambda>x. Inr (r\<lparr>jr_acknowledgements := x\<rparr>))
     else if names_field k ''complete'' then and_then (read_bool j (jr_complete r)) (\<lambda>x. Inr (r\<lparr>jr_complete := x\<rparr>))
     else Inr r)"

definition read_journal :: "json \<Rightarrow> recoveryJournal \<Rightarrow> recoveryJournal result" where
  "read_journal = read_struct journal_field"

subsection \<open>What is written is read back\<close>

lemma recovery_names:
  "to_lower ''snapshot'' = ''snapshot''" "to_lower ''recovery'' = ''recovery''" "to_lower ''digest'' = ''digest''"
  "to_lower ''database'' = ''database''" "to_lower ''credential'' = ''credential''"
  "to_lower ''quarantined'' = ''quarantined''" "to_lower ''acknowledgements'' = ''acknowledgements''"
  "to_lower ''complete'' = ''complete''" "to_lower ''reconciled_ms'' = ''reconciled_ms''"
  "to_lower ''stale'' = ''stale''" "to_lower ''frozen_by'' = ''frozen_by''"
  "to_lower ''credential_hash'' = ''credential_hash''"
  by code_simp+

lemma snapshot_into_marshal:
  "snapshot_wf s \<Longrightarrow> snapshot_into (marshal_snapshot s) zero_snapshot = Inr s"
  using read_marshal_snapshot [of s] by (simp add: snapshot_into_def read_snapshot_def)

lemma read_write_pointer:
  assumes "\<And>v. x = Some v \<Longrightarrow> elem (w v) zero = Inr v" and "\<And>v. w v \<noteq> JNull"
  shows "read_pointer elem zero (write_pointer w x) None = Inr x"
  using assms by (cases x) (auto simp: read_pointer_def write_pointer_def split: json.splits)

lemma read_marshal_owner:
  assumes "snapshot_wf (own_snapshot e)"
  shows "read_accepted (marshal_owner e) = Inr \<lparr>acc_snapshot = own_snapshot e, acc_recovery = own_recovery e\<rparr>"
proof -
  have "read_pointer (read_struct mark_field) \<lparr>mark_operation = [], mark_digest = []\<rparr>
      (write_pointer (\<lambda>m. JObj [(''operation'', JStr (mark_operation m)), (''digest'', JStr (mark_digest m))])
        (own_recovery e)) None = Inr (own_recovery e)"
    by (rule read_write_pointer) (simp_all add: mark_field_def names_simps recovery_names)
  with assms show ?thesis
    by (simp add: read_accepted_def marshal_owner_def accepted_field_def names_simps recovery_names zero_accepted_def
        snapshot_into_marshal)
qed

lemma marshal_snapshot_not_null: "marshal_snapshot s \<noteq> JNull"
  by (simp add: marshal_snapshot_def)

definition journal_wf :: "recoveryJournal \<Rightarrow> bool" where
  "journal_wf r \<longleftrightarrow> (case jr_snapshot r of None \<Rightarrow> True | Some s \<Rightarrow> snapshot_wf s)
     \<and> gm_ok (jr_quarantined r) \<and> gm_ok (jr_acknowledgements r)"

lemma read_marshal_journal:
  assumes "journal_wf r"
  shows "read_journal (marshal_journal r) (fresh_journal op owner db) = Inr r"
proof -
  have "read_pointer snapshot_into zero_snapshot (write_pointer marshal_snapshot (jr_snapshot r)) None = Inr (jr_snapshot r)"
    using assms by (intro read_write_pointer) (auto simp: journal_wf_def snapshot_into_marshal marshal_snapshot_not_null)
  moreover have "read_map (read_record False) zero_record
      (JObj (map (\<lambda>(k, x). (k, marshal_record x)) (jr_quarantined r))) [] = Inr (jr_quarantined r)"
    using assms by (intro read_map_written) (auto simp: journal_wf_def read_marshal_record)
  moreover have "read_map read_str [] (JObj (map (\<lambda>(k, x). (k, JStr x)) (jr_acknowledgements r))) [] = Inr (jr_acknowledgements r)"
    using assms by (intro read_map_written) (auto simp: journal_wf_def)
  ultimately show ?thesis
    by (simp add: read_journal_def marshal_journal_def journal_field_def names_simps recovery_names fresh_journal_def)
qed

end
