(* ===== verification/Service.thy ===== *)
theory Service
  imports Prelude
begin

section \<open>Services that run an operation once\<close>

text \<open>
  The contract shared by the operations that carry an idempotency key: a call either fails and changes
  nothing, or leaves its operation recorded with its result; a recorded operation is answered from the
  record; and no later call loses a record. The locale draws the consequences for a whole sequence of
  calls, with any fault injected into any of them.
\<close>

fun run_calls :: "('f \<Rightarrow> 'q \<Rightarrow> 'db \<Rightarrow> 'r result \<times> 'db) \<Rightarrow> ('f \<times> 'q) list \<Rightarrow> 'db \<Rightarrow> 'db" where
  "run_calls call [] db = db"
| "run_calls call ((f, q) # cs) db = run_calls call cs (snd (call f q db))"

locale once_service =
  fixes call :: "'f \<Rightarrow> 'q \<Rightarrow> 'db \<Rightarrow> 'r result \<times> 'db"
    and inv :: "'db \<Rightarrow> bool"
    and recorded :: "'q \<Rightarrow> 'r \<Rightarrow> 'db \<Rightarrow> bool"
    and extends :: "'db \<Rightarrow> 'db \<Rightarrow> bool"
  assumes failed_call: "call f q db = (Inl e, db') \<Longrightarrow> db' = db"
    and call_inv: "inv db \<Longrightarrow> call f q db = (Inr r, db') \<Longrightarrow> inv db'"
    and call_records: "call f q db = (Inr r, db') \<Longrightarrow> recorded q r db'"
    and replay: "recorded q r db \<Longrightarrow> call f q db = (Inr r', db') \<Longrightarrow> r' = r \<and> db' = db"
    and keeps_record: "recorded q r db \<Longrightarrow> call f q' db = (Inr r', db') \<Longrightarrow> recorded q r db'"
    and call_extends: "inv db \<Longrightarrow> call f q db = (Inr r, db') \<Longrightarrow> extends db db'"
    and extends_refl: "inv db \<Longrightarrow> extends db db"
    and extends_trans: "inv db \<Longrightarrow> extends db db' \<Longrightarrow> extends db' db'' \<Longrightarrow> extends db db''"
begin

lemma call_result_inv: "inv db \<Longrightarrow> inv (snd (call f q db))"
  by (cases "call f q db"; cases "fst (call f q db)") (auto dest: failed_call call_inv)

lemma call_result_extends: "inv db \<Longrightarrow> extends db (snd (call f q db))"
  by (cases "call f q db"; cases "fst (call f q db)") (auto dest: failed_call call_extends extends_refl)

lemma call_result_recorded: "recorded q r db \<Longrightarrow> recorded q r (snd (call f q' db))"
  by (cases "call f q' db"; cases "fst (call f q' db)") (auto dest: failed_call keeps_record)

lemma runs_inv: "inv db \<Longrightarrow> inv (run_calls call cs db)"
  by (induction cs arbitrary: db) (auto simp: call_result_inv)

lemma runs_extends: "inv db \<Longrightarrow> extends db (run_calls call cs db)"
proof (induction cs arbitrary: db)
  case (Cons c cs)
  obtain f q where c: "c = (f, q)" by (cases c)
  let ?db = "snd (call f q db)"
  from Cons.prems have "inv ?db" "extends db ?db" by (auto intro: call_result_inv call_result_extends)
  with Cons.IH [of ?db] Cons.prems c show ?case by (auto intro: extends_trans)
qed (simp add: extends_refl)

lemma runs_recorded: "recorded q r db \<Longrightarrow> recorded q r (run_calls call cs db)"
  by (induction cs arbitrary: db) (auto simp: call_result_recorded)

text \<open>A repeated call after any others, whatever failed, is answered with the first result and changes nothing.\<close>

lemma exactly_once:
  assumes first: "call f q db = (Inr r, db1)"
    and again: "call f' q (run_calls call cs db1) = (Inr r', db2)"
  shows "r' = r \<and> db2 = run_calls call cs db1"
  using replay [OF runs_recorded [OF call_records [OF first]] again] .

end

end
