(* ===== verification/Registry_Inv.thy ===== *)
theory Registry_Inv
  imports Registry Router Service
begin

section \<open>The registry's invariant and history\<close>

text \<open>
  What holds of the worker's database in every state \<^verbatim>\<open>register\<close> can reach, how a later snapshot relates to an
  earlier one, and the bound on the table of operations that the deletion reserve gives.
\<close>

subsection \<open>The invariant\<close>

definition tombstones :: "routeSnapshot \<Rightarrow> nat" where
  "tombstones s = length (filter (\<lambda>(_, r). rec_deleted r) (snap_records s))"

definition record_ok :: "u64 \<Rightarrow> string \<times> routeRecord \<Rightarrow> bool" where
  "record_ok rv kr = (case kr of (k, r) \<Rightarrow> rec_id r = k \<and> 0 < rec_revision r \<and> rec_revision r \<le> rv)"

definition endpoints_unique :: "(string, routeRecord) go_map \<Rightarrow> bool" where
  "endpoints_unique m \<longleftrightarrow> (\<forall>(k, r) \<in> set m. \<forall>(k', r') \<in> set m. rec_endpoint r = rec_endpoint r' \<longrightarrow> k = k')"

definition snapshot_ok :: "string \<Rightarrow> routeSnapshot \<Rightarrow> bool" where
  "snapshot_ok owner s \<longleftrightarrow> snap_schema s = 1 \<and> snap_owner s = owner \<and> gm_ok (snap_records s)
     \<and> 0 < snap_incarnation s \<and> 0 < snap_revision s \<and> snap_revision s \<le> max_revision
     \<and> length (snap_records s) \<le> 4096
     \<and> list_all (record_ok (snap_revision s)) (snap_records s) \<and> endpoints_unique (snap_records s)"

definition operation_limit :: nat where
  "operation_limit = 16384"

definition registry_inv :: "string \<Rightarrow> routing_db \<Rightarrow> bool" where
  "registry_inv owner db = (case routing_state db of None \<Rightarrow> False
     | Some b \<Rightarrow> (case read_snapshot b of Inl _ \<Rightarrow> False
       | Inr s \<Rightarrow> snapshot_ok owner s \<and> gm_ok (routing_operations db)
           \<and> list_all (\<lambda>(_, _, rv). rv \<le> snap_revision s) (routing_operations db)
           \<and> length (routing_operations db) \<le> operation_limit + tombstones s))"

text \<open>The row \<^verbatim>\<open>serveWorker\<close> inserts into an empty database.\<close>

definition initial_snapshot :: "string \<Rightarrow> routeSnapshot" where
  "initial_snapshot owner = \<lparr>snap_schema = 1, snap_owner = owner, snap_incarnation = 1, snap_revision = 1,
     snap_records = []\<rparr>"

definition initial_db :: "string \<Rightarrow> routing_db" where
  "initial_db owner = \<lparr>routing_state = Some (marshal_snapshot (initial_snapshot owner)), routing_operations = []\<rparr>"

lemma snapshot_ok_wf: "snapshot_ok owner s \<Longrightarrow> snapshot_wf s"
  by (simp add: snapshot_ok_def snapshot_wf_def)

lemma snapshot_ok_gm_ok: "snapshot_ok owner s \<Longrightarrow> gm_ok (snap_records s)"
  by (simp add: snapshot_ok_def)

lemma registry_inv_initial: "registry_inv owner (initial_db owner)"
proof -
  have "snapshot_ok owner (initial_snapshot owner)"
    by (simp add: snapshot_ok_def initial_snapshot_def endpoints_unique_def)
  then show ?thesis
    by (simp add: registry_inv_def initial_db_def read_marshal_snapshot snapshot_ok_wf)
qed

lemma registry_invE:
  assumes "registry_inv owner db"
  obtains s b where "routing_state db = Some b" "read_snapshot b = Inr s" "snapshot_ok owner s"
    "gm_ok (routing_operations db)" "list_all (\<lambda>(_, _, rv). rv \<le> snap_revision s) (routing_operations db)"
    "length (routing_operations db) \<le> operation_limit + tombstones s"
  using assms by (auto simp: registry_inv_def split: option.splits sum.splits)

subsection \<open>One registration\<close>

text \<open>What the guards have established when a registration goes through.\<close>

lemma register_checks_ok:
  assumes "register_checks n s q = Inr ()"
  shows "snap_revision s < max_revision"
    and "\<forall>(k, r) \<in> set (snap_records s). rec_endpoint r = req_endpoint q \<longrightarrow> k = req_id q"
    and "\<And>old. gm_get (snap_records s) (req_id q) = Some old \<Longrightarrow>
      rec_app old = req_app q \<and> rec_endpoint old = req_endpoint q \<and> (rec_deleted old \<longrightarrow> req_deleted q)"
    and "gm_get (snap_records s) (req_id q) = None \<Longrightarrow>
      \<not> req_deleted q \<and> length (snap_records s) < 4096"
    and "16384 \<le> n \<Longrightarrow>
      \<exists>old. gm_get (snap_records s) (req_id q) = Some old \<and> \<not> rec_deleted old \<and> req_deleted q"
  using assms by (auto simp: register_checks_def Let_def list_ex_iff split: if_splits option.splits)

lemma next_revision:
  assumes "(v :: u64) < max_revision"
  shows "v < v + 1" and "v + 1 \<le> max_revision" and "unat (v + 1) = unat v + 1"
proof -
  have lt: "unat v < 9223372036854775807" using assms by (simp add: word_less_nat_alt)
  then show u: "unat (v + 1) = unat v + 1"
    by (simp add: unat_word_ariths)
  with lt show "v < v + 1" and "v + 1 \<le> max_revision"
    by (simp_all add: word_less_nat_alt word_le_nat_alt)
qed

lemma register_apply_simps [simp]:
  "snap_schema (register_apply s q) = snap_schema s"
  "snap_owner (register_apply s q) = snap_owner s"
  "snap_incarnation (register_apply s q) = snap_incarnation s"
  "snap_revision (register_apply s q) = snap_revision s + 1"
  "snap_records (register_apply s q) =
     gm_put (req_id q) (registered_record (snap_revision s + 1) q) (snap_records s)"
  by (simp_all add: register_apply_def Let_def)

lemma registered_record_simps [simp]:
  "rec_id (registered_record v q) = req_id q" "rec_app (registered_record v q) = req_app q"
  "rec_endpoint (registered_record v q) = req_endpoint q" "rec_revision (registered_record v q) = v"
  "rec_deleted (registered_record v q) = req_deleted q"
  by (simp_all add: registered_record_def)

lemma record_ok_mono: "record_ok v kr \<Longrightarrow> v \<le> v' \<Longrightarrow> record_ok v' kr"
  by (auto simp: record_ok_def)

lemma register_apply_ok:
  assumes ok: "snapshot_ok owner s" and checks: "register_checks n s q = Inr ()"
  shows "snapshot_ok owner (register_apply s q)"
proof -
  note guards = register_checks_ok [OF checks]
  note rv = next_revision [OF guards(1)]
  have gm: "gm_ok (snap_records s)" using ok by (rule snapshot_ok_gm_ok)
  have pos: "0 < snap_revision s + 1" by (rule le_less_trans [OF _ rv(1)]) simp
  have "list_all (record_ok (snap_revision s + 1)) (snap_records (register_apply s q))"
    using ok pos less_imp_le [OF rv(1)]
    by (auto simp: list_all_iff gm_put_set [OF gm] snapshot_ok_def record_ok_def intro: order_trans)
  moreover have "endpoints_unique (snap_records (register_apply s q))"
    using ok guards(2) by (auto simp: endpoints_unique_def gm_put_set [OF gm] snapshot_ok_def)
  moreover have "length (snap_records (register_apply s q)) \<le> 4096"
    using ok guards(4) by (auto simp: gm.size_put [OF gm] snapshot_ok_def)
  ultimately show ?thesis using ok gm pos rv(2) by (simp add: snapshot_ok_def)
qed

lemma register_apply_extends:
  assumes ok: "snapshot_ok owner s" and checks: "register_checks n s q = Inr ()"
  shows "history_extends s (register_apply s q)"
proof -
  note guards = register_checks_ok [OF checks]
  note rv = next_revision [OF guards(1)]
  have gm: "gm_ok (snap_records s)" using ok by (rule snapshot_ok_gm_ok)
  have "records_extend (snap_records s) (snap_records (register_apply s q))"
  proof (rule records_extend_getI [OF gm])
    fix k old
    assume old: "gm_get (snap_records s) k = Some old"
    then have "(k, old) \<in> set (snap_records s)" by (rule map_of_SomeD)
    with ok have "rec_id old = k" "rec_revision old \<le> snap_revision s"
      by (auto simp: snapshot_ok_def list_all_iff record_ok_def)
    show "\<exists>new. gm_get (snap_records (register_apply s q)) k = Some new \<and> record_extends old new"
    proof (cases "k = req_id q")
      case True
      have "rec_revision old < snap_revision s + 1"
        using \<open>rec_revision old \<le> snap_revision s\<close> rv(1) by (rule le_less_trans)
      with True guards(3) old \<open>rec_id old = k\<close> show ?thesis
        by (simp add: gm.get_put record_extends_def less_imp_le less_imp_neq [symmetric])
    next
      case False
      with old show ?thesis by (simp add: gm.get_put)
    qed
  qed
  then show ?thesis using rv(1) by (auto simp: history_extends_def)
qed

subsection \<open>The bound on the operations table\<close>

lemma length_filter_gm_put:
  "gm_ok m \<Longrightarrow> length (filter (\<lambda>(_, r). P r) (gm_put k v m))
     + (case gm_get m k of None \<Rightarrow> 0 | Some old \<Rightarrow> if P old then 1 else 0)
   = length (filter (\<lambda>(_, r). P r) m) + (if P v then 1 else 0)"
proof (induction m)
  case (Cons e m)
  obtain k' x where e: "e = (k', x)" by (cases e)
  have "gm_get m k = None" if "k \<le> k'"
    using Cons.prems that e by (fastforce simp: gm_ok_Cons map_of_eq_None_iff)
  with Cons e show ?case by (auto simp: gm_ok_Cons split: option.splits if_splits)
qed simp

lemma tombstones_register:
  assumes ok: "snapshot_ok owner s" and checks: "register_checks n s q = Inr ()"
  shows "tombstones s \<le> tombstones (register_apply s q)"
    and "16384 \<le> n \<Longrightarrow> tombstones (register_apply s q) = tombstones s + 1"
proof -
  note guards = register_checks_ok [OF checks]
  have "gm_ok (snap_records s)" using ok by (rule snapshot_ok_gm_ok)
  note len = length_filter_gm_put [OF this, where P = rec_deleted and k = "req_id q"
      and v = "registered_record (snap_revision s + 1) q"]
  show "tombstones s \<le> tombstones (register_apply s q)"
    using len guards(3) by (auto simp: tombstones_def split: option.splits if_splits)
  show "16384 \<le> n \<Longrightarrow> tombstones (register_apply s q) = tombstones s + 1"
    using len guards(5) by (auto simp: tombstones_def)
qed

lemma fresh_registration_inv:
  assumes inv: "registry_inv owner db" and fresh: "fresh_registration sha q db s db'"
  shows "registry_inv owner db'"
proof -
  from fresh obtain b where b: "routing_state db = Some b" "read_snapshot b = Inr s"
    and new: "gm_get (routing_operations db) (req_operation q) = None"
    and checks: "register_checks (length (routing_operations db)) s q = Inr ()"
    and db': "db' = \<lparr>routing_state = Some (marshal_snapshot (register_apply s q)),
       routing_operations = gm_put (req_operation q) (request_hash sha q, snap_revision s + 1) (routing_operations db)\<rparr>"
    by (auto simp: fresh_registration_def)
  from inv b have ok: "snapshot_ok owner s" and ops: "gm_ok (routing_operations db)"
    and le: "list_all (\<lambda>(_, _, rv). rv \<le> snap_revision s) (routing_operations db)"
    and bound: "length (routing_operations db) \<le> operation_limit + tombstones s"
    by (auto elim!: registry_invE)
  have lt: "snap_revision s < snap_revision s + 1"
    using checks by (intro next_revision register_checks_ok(1))
  have ok': "snapshot_ok owner (register_apply s q)" using ok checks by (rule register_apply_ok)
  moreover have "list_all (\<lambda>(_, _, rv). rv \<le> snap_revision s + 1) (routing_operations db')"
    using le lt by (auto simp: db' list_all_iff gm_put_set [OF ops] intro: order_trans [OF _ less_imp_le])
  moreover have "length (routing_operations db') \<le> operation_limit + tombstones (register_apply s q)"
  proof (cases "16384 \<le> length (routing_operations db)")
    case True
    with bound tombstones_register(2) [OF ok checks True] new show ?thesis
      by (simp add: db' gm.size_put [OF ops])
  next
    case False
    with new show ?thesis by (simp add: db' gm.size_put [OF ops] operation_limit_def)
  qed
  ultimately show ?thesis
    by (simp add: registry_inv_def db' ops read_marshal_snapshot [OF snapshot_ok_wf [OF ok']])
qed

end
