(* ===== verification/Recovery_Merge.thy ===== *)
theory Recovery_Merge
  imports Recovery_Data Registry_Inv
begin

section \<open>Merging accepted histories\<close>

text \<open>
  The computation at the heart of \<^verbatim>\<open>recoverWorker\<close>: the accepted histories of the routers are merged, the
  restored backup is compared with the result, and what it disagrees with is quarantined. Go visits the
  entries of a map in any order; the loops here run in key order, and lemmas show the order does not matter.
\<close>

subsection \<open>The code\<close>

text \<open>The body of the loop over one router's accepted records (lines 169 to 181).\<close>

definition merge_record :: "string \<times> routeRecord \<Rightarrow> (string, routeRecord) go_map \<Rightarrow> (string, routeRecord) go_map result" where
  "merge_record e merged = (case e of (k, r) \<Rightarrow>
     (let found = gm_get merged k; ex = (found \<noteq> None);
          old = (case found of None \<Rightarrow> zero_record | Some x \<Rightarrow> x) in
      if ex \<and> (rec_app old \<noteq> rec_app r \<or> rec_endpoint old \<noteq> rec_endpoint r) then
        Inl ''accepted identities conflict; recovery remains quarantined''
      else if \<not> ex \<or> rec_revision old < rec_revision r then
        Inr (gm_put k (r\<lparr>rec_deleted := rec_deleted r \<or> rec_deleted old\<rparr>) merged)
      else if rec_deleted r then Inr (gm_put k (old\<lparr>rec_deleted := True\<rparr>) merged)
      else Inr merged))"

text \<open>One router's answer (lines 163 to 181).\<close>

definition merge_owner :: "routeSnapshot \<Rightarrow> routeSnapshot \<Rightarrow> routeSnapshot result" where
  "merge_owner accepted merged =
     and_then (fold_result merge_record (snap_records accepted) (snap_records merged)) (\<lambda>records.
       Inr (merged\<lparr>snap_incarnation := max (snap_incarnation merged) (snap_incarnation accepted),
         snap_revision := max (snap_revision merged) (snap_revision accepted), snap_records := records\<rparr>))"

definition merge_start :: "string \<Rightarrow> routeSnapshot \<Rightarrow> routeSnapshot" where
  "merge_start owner backup = \<lparr>snap_schema = 1, snap_owner = owner, snap_incarnation = snap_incarnation backup,
     snap_revision = snap_revision backup, snap_records = []\<rparr>"

definition advance_snapshot :: "routeSnapshot \<Rightarrow> routeSnapshot result" where
  "advance_snapshot merged =
     (if max_revision \<le> snap_incarnation merged \<or> max_revision \<le> snap_revision merged then
        Inl ''recovery revision exhausted''
      else Inr (merged\<lparr>snap_incarnation := snap_incarnation merged + 1, snap_revision := snap_revision merged + 1\<rparr>))"

text \<open>The body of the loop over the backup's records (lines 188 to 200): merged records and quarantine.\<close>

definition restore_tombstone :: "routeRecord \<Rightarrow> routeRecord \<Rightarrow> routeRecord" where
  "restore_tombstone old accepted = accepted\<lparr>rec_deleted := True,
     rec_revision := (if rec_revision accepted < rec_revision old then rec_revision old else rec_revision accepted)\<rparr>"

definition restore_record :: "string \<times> routeRecord \<Rightarrow> (string, routeRecord) go_map \<times> (string, routeRecord) go_map
    \<Rightarrow> (string, routeRecord) go_map \<times> (string, routeRecord) go_map" where
  "restore_record e mq = (case e of (k, old) \<Rightarrow> case mq of (merged, quarantined) \<Rightarrow>
     (let merged' = (case gm_get merged k of
            Some accepted \<Rightarrow>
              if rec_deleted old \<and> rec_app accepted = rec_app old \<and> rec_endpoint accepted = rec_endpoint old
              then gm_put k (restore_tombstone old accepted) merged else merged
          | None \<Rightarrow> merged);
          kept = (case gm_get merged' k of
            Some accepted \<Rightarrow> rec_app old = rec_app accepted \<and> rec_endpoint old = rec_endpoint accepted
              \<and> \<not> (rec_deleted accepted \<and> \<not> rec_deleted old)
          | None \<Rightarrow> False) in
      (merged', if kept then quarantined else gm_put k old quarantined)))"

definition restore_backup :: "routeSnapshot \<Rightarrow> (string, routeRecord) go_map \<Rightarrow> routeSnapshot
    \<Rightarrow> routeSnapshot \<times> (string, routeRecord) go_map" where
  "restore_backup backup quarantined merged =
     (case fold restore_record (snap_records backup) (snap_records merged, quarantined) of
        (records, q) \<Rightarrow> (merged\<lparr>snap_records := records\<rparr>, q))"

text \<open>From the backup and the routers' second answers to the snapshot and the quarantine (lines 157 to 200).\<close>

definition prepare_recovery :: "string \<Rightarrow> routeSnapshot \<Rightarrow> routeSnapshot list
    \<Rightarrow> (routeSnapshot \<times> (string, routeRecord) go_map) result" where
  "prepare_recovery owner backup accepted =
     and_then (fold_result merge_owner accepted (merge_start owner backup)) (\<lambda>merged.
     and_then (advance_snapshot merged) (\<lambda>advanced.
       Inr (restore_backup backup [] advanced)))"

subsection \<open>The join of two records\<close>

text \<open>What the merge does to one instance: the higher revision wins, deletion is never lost.\<close>

definition same_claim :: "routeRecord \<Rightarrow> routeRecord \<Rightarrow> bool" where
  "same_claim a b \<longleftrightarrow> rec_app a = rec_app b \<and> rec_endpoint a = rec_endpoint b"

definition join_records :: "routeRecord \<Rightarrow> routeRecord \<Rightarrow> routeRecord" where
  "join_records old r = (if rec_revision old < rec_revision r then r else old)\<lparr>rec_deleted := rec_deleted old \<or> rec_deleted r\<rparr>"

definition join_options :: "routeRecord option \<Rightarrow> routeRecord option \<Rightarrow> routeRecord option" where
  "join_options x y = (case (x, y) of (None, y) \<Rightarrow> y | (x, None) \<Rightarrow> x | (Some a, Some b) \<Rightarrow> Some (join_records a b))"

lemma join_options_simps [simp]:
  "join_options None y = y" "join_options x None = x" "join_options (Some a) (Some b) = Some (join_records a b)"
  by (auto simp: join_options_def split: option.splits)

lemma same_claim_refl [simp]: "same_claim a a"
  by (simp add: same_claim_def)

lemma same_claim_trans: "same_claim a b \<Longrightarrow> same_claim b c \<Longrightarrow> same_claim a c"
  by (simp add: same_claim_def)

lemma same_claim_sym: "same_claim a b \<Longrightarrow> same_claim b a"
  by (simp add: same_claim_def)

lemma join_records_sel:
  "rec_deleted (join_records a b) \<longleftrightarrow> rec_deleted a \<or> rec_deleted b"
  "rec_revision (join_records a b) = max (rec_revision a) (rec_revision b)"
  by (auto simp: join_records_def max_def)

lemma join_records_claim: "same_claim a b \<Longrightarrow> same_claim a (join_records a b) \<and> same_claim b (join_records a b)"
  by (auto simp: join_records_def same_claim_def)

lemma record_revision_deleted_id: "r\<lparr>rec_deleted := rec_deleted r\<rparr> = r"
  by (cases r) simp

text \<open>Joining a record with one that extends it gives the extension, from either side.\<close>

lemma join_records_extends:
  "record_extends a b \<Longrightarrow> join_records a b = b"
  "record_extends a b \<Longrightarrow> join_records b a = b"
  by (cases a; cases b; auto simp: join_records_def record_extends_def)+

subsection \<open>The loops, pointwise\<close>

lemma merge_record_eq:
  "merge_record (k, r) m =
     (if (case gm_get m k of None \<Rightarrow> True | Some old \<Rightarrow> same_claim old r) then
        (case gm_get m k of
           Some old \<Rightarrow> if rec_revision old < rec_revision r \<or> rec_deleted r then Inr (gm_put k (join_records old r) m) else Inr m
         | None \<Rightarrow> Inr (gm_put k r m))
      else Inl ''accepted identities conflict; recovery remains quarantined'')"
proof (cases "gm_get m k")
  case None
  then show ?thesis by (simp add: merge_record_def Let_def zero_record_def record_revision_deleted_id)
next
  case (Some old)
  then show ?thesis
    by (auto simp: merge_record_def Let_def same_claim_def join_records_def disj_commute)
qed

lemma merge_record_ok:
  assumes "merge_record (k, r) m = Inr m'" and "gm_ok m"
  shows "gm_ok m' \<and> gm_get m' = (gm_get m)(k := join_options (gm_get m k) (Some r))
     \<and> (\<forall>old. gm_get m k = Some old \<longrightarrow> same_claim old r)"
proof -
  have "join_records old r = old" if "\<not> rec_revision old < rec_revision r" "\<not> rec_deleted r" for old
    using that by (cases old) (simp add: join_records_def)
  with assms show ?thesis
    by (auto simp: merge_record_eq gm_get_put_fun fun_eq_iff split: if_splits option.splits)
qed

lemma merge_record_possible:
  "(\<exists>m'. merge_record (k, r) m = Inr m') \<longleftrightarrow> (\<forall>old. gm_get m k = Some old \<longrightarrow> same_claim old r)"
  by (auto simp: merge_record_eq split: option.splits)

lemma merge_records_ok:
  assumes "fold_result merge_record xs m = Inr m'" and "gm_ok m" and "distinct (map fst xs)"
  shows "gm_ok m' \<and> (\<forall>k. gm_get m' k = join_options (gm_get m k) (gm_get xs k))
     \<and> (\<forall>k r old. gm_get xs k = Some r \<longrightarrow> gm_get m k = Some old \<longrightarrow> same_claim old r)"
  using assms
proof (induction xs arbitrary: m)
  case (Cons e xs)
  obtain k r where e: "e = (k, r)" by (cases e)
  from Cons.prems(1) e obtain m1 where m1: "merge_record (k, r) m = Inr m1" "fold_result merge_record xs m1 = Inr m'"
    by (auto simp: and_then_eq_Inr)
  from Cons.prems(3) e have fresh: "gm_get xs k = None" by (simp add: map_of_eq_None_iff)
  from merge_record_ok [OF m1(1) Cons.prems(2)] Cons.IH [OF m1(2)] Cons.prems(3) e fresh
  show ?case by (auto split: if_splits)
qed simp

lemma merge_records_possible:
  assumes "gm_ok m" and "distinct (map fst xs)"
    and "\<And>k r old. gm_get xs k = Some r \<Longrightarrow> gm_get m k = Some old \<Longrightarrow> same_claim old r"
  shows "\<exists>m'. fold_result merge_record xs m = Inr m'"
  using assms
proof (induction xs arbitrary: m)
  case (Cons e xs)
  obtain k r where e: "e = (k, r)" by (cases e)
  from Cons.prems(3) [of k r] e have "\<forall>old. gm_get m k = Some old \<longrightarrow> same_claim old r" by simp
  then obtain m1 where m1: "merge_record (k, r) m = Inr m1" using merge_record_possible by blast
  from Cons.prems(2) e have fresh: "gm_get xs k = None" by (simp add: map_of_eq_None_iff)
  have "\<exists>m'. fold_result merge_record xs m1 = Inr m'"
  proof (rule Cons.IH)
    show "gm_ok m1" "distinct (map fst xs)" using merge_record_ok [OF m1 Cons.prems(1)] Cons.prems(2) by auto
    fix k' r' old
    assume "gm_get xs k' = Some r'" "gm_get m1 k' = Some old"
    then show "same_claim old r'"
      using merge_record_ok [OF m1 Cons.prems(1)] Cons.prems(3) [of k' r' old] e fresh by (auto split: if_splits)
  qed
  with m1 e show ?case by simp
qed simp

text \<open>The order in which Go visits an accepted map does not matter, neither for the result nor for the error.\<close>

lemma merge_records_error:
  "fold_result merge_record xs m = Inl e \<Longrightarrow> e = ''accepted identities conflict; recovery remains quarantined''"
proof (induction xs arbitrary: m)
  case (Cons x xs)
  obtain k r where x: "x = (k, r)" by (cases x)
  with Cons show ?case
    by (cases "merge_record (k, r) m") (auto simp: merge_record_eq split: if_splits option.splits)
qed simp

lemma merge_records_perm:
  assumes ok: "gm_ok m" and dist: "distinct (map fst xs)" and perm: "mset xs = mset ys"
  shows "fold_result merge_record ys m = fold_result merge_record xs m"
proof -
  have dist': "distinct (map fst ys)" using dist perm by (metis mset_eq_imp_distinct_iff mset_map)
  have get: "gm_get ys = gm_get xs"
    using perm dist dist' by (metis map_of_inject_set mset_eq_setD)
  show ?thesis
  proof (cases "fold_result merge_record xs m")
    case (Inl e)
    have "\<nexists>m'. fold_result merge_record ys m = Inr m'"
      using merge_records_ok [OF _ ok dist'] merge_records_possible [OF ok dist] Inl get by fastforce
    then obtain e' where "fold_result merge_record ys m = Inl e'" by (meson old.sum.exhaust)
    with Inl show ?thesis using merge_records_error by metis
  next
    case (Inr m')
    note xs = merge_records_ok [OF Inr ok dist]
    then obtain m'' where ys: "fold_result merge_record ys m = Inr m''"
      using merge_records_possible [OF ok dist'] get by metis
    with merge_records_ok [OF ys ok dist'] xs get have "m'' = m'" by (intro gm.ext) auto
    with ys Inr show ?thesis by simp
  qed
qed

subsection \<open>All routers\<close>

fun join_all :: "routeSnapshot list \<Rightarrow> string \<Rightarrow> routeRecord option \<Rightarrow> routeRecord option" where
  "join_all [] k x = x"
| "join_all (a # as) k x = join_all as k (join_options x (gm_get (snap_records a) k))"

definition pairwise_claims :: "routeSnapshot list \<Rightarrow> bool" where
  "pairwise_claims as \<longleftrightarrow> (\<forall>a \<in> set as. \<forall>b \<in> set as. \<forall>k x y.
     gm_get (snap_records a) k = Some x \<longrightarrow> gm_get (snap_records b) k = Some y \<longrightarrow> same_claim x y)"

lemma merge_owner_ok:
  assumes "merge_owner a m = Inr m'" and "gm_ok (snap_records m)" and "gm_ok (snap_records a)"
  shows "gm_ok (snap_records m') \<and> snap_schema m' = snap_schema m \<and> snap_owner m' = snap_owner m
    \<and> snap_incarnation m' = max (snap_incarnation m) (snap_incarnation a)
    \<and> snap_revision m' = max (snap_revision m) (snap_revision a)
    \<and> (\<forall>k. gm_get (snap_records m') k = join_options (gm_get (snap_records m) k) (gm_get (snap_records a) k))
    \<and> (\<forall>k r old. gm_get (snap_records a) k = Some r \<longrightarrow> gm_get (snap_records m) k = Some old \<longrightarrow> same_claim old r)"
  using assms merge_records_ok [OF _ assms(2) gm_ok_distinct [OF assms(3)]]
  by (auto simp: merge_owner_def and_then_eq_Inr)

text \<open>A record of the result covers an accepted one: the same claim, no older, no deletion lost.\<close>

definition covers :: "routeRecord \<Rightarrow> routeRecord option \<Rightarrow> bool" where
  "covers r x \<longleftrightarrow> (case x of None \<Rightarrow> False
     | Some y \<Rightarrow> same_claim r y \<and> rec_revision r \<le> rec_revision y \<and> (rec_deleted r \<longrightarrow> rec_deleted y))"

lemma covers_join:
  assumes "\<And>a b. x = Some a \<Longrightarrow> y = Some b \<Longrightarrow> same_claim a b"
  shows "covers r x \<Longrightarrow> covers r (join_options x y)" "y = Some b \<Longrightarrow> covers b (join_options x y)"
  using assms
  by (cases x; cases y; auto simp: covers_def join_records_sel max_def
      dest: join_records_claim intro: same_claim_trans same_claim_sym order_trans)+

text \<open>Where a record of the result comes from: its identity and revision from one record, its deletion from one.\<close>

definition stems_from :: "routeRecord set \<Rightarrow> routeRecord \<Rightarrow> bool" where
  "stems_from R y \<longleftrightarrow> (\<exists>r \<in> R. rec_id y = rec_id r \<and> rec_app y = rec_app r \<and> rec_endpoint y = rec_endpoint r
      \<and> rec_revision y = rec_revision r)
    \<and> (rec_deleted y \<longrightarrow> (\<exists>r \<in> R. rec_deleted r))"

lemma stems_from_join: "stems_from R a \<Longrightarrow> b \<in> R \<Longrightarrow> stems_from R (join_records a b)"
  by (auto simp: stems_from_def join_records_def)

lemma stems_from_self: "r \<in> R \<Longrightarrow> stems_from R r"
  by (auto simp: stems_from_def)

definition accepted_at :: "routeSnapshot list \<Rightarrow> string \<Rightarrow> routeRecord set" where
  "accepted_at as k = {r. \<exists>a \<in> set as. gm_get (snap_records a) k = Some r}"

lemma join_all_stems:
  "join_all as k x = Some y \<Longrightarrow> (\<And>z. x = Some z \<Longrightarrow> stems_from R z) \<Longrightarrow> accepted_at as k \<subseteq> R \<Longrightarrow> stems_from R y"
proof (induction as arbitrary: x)
  case (Cons a as)
  have "stems_from R z" if "join_options x (gm_get (snap_records a) k) = Some z" for z
    using that Cons.prems
    by (cases x; cases "gm_get (snap_records a) k") (auto simp: accepted_at_def stems_from_self stems_from_join)
  moreover have "accepted_at as k \<subseteq> R" using Cons.prems(3) by (auto simp: accepted_at_def)
  ultimately show ?case using Cons.IH Cons.prems(1) by simp
qed simp

lemma join_all_None: "join_all as k x = None \<longleftrightarrow> x = None \<and> accepted_at as k = {}"
proof (induction as arbitrary: x)
  case (Cons a as)
  then show ?case
    by (cases x; cases "gm_get (snap_records a) k") (auto simp: accepted_at_def)
qed (simp add: accepted_at_def)

lemma merge_owners_ok:
  assumes "fold_result merge_owner as m = Inr m'" and "gm_ok (snap_records m)"
    and "\<forall>a \<in> set as. gm_ok (snap_records a)"
  shows "gm_ok (snap_records m') \<and> snap_schema m' = snap_schema m \<and> snap_owner m' = snap_owner m
    \<and> snap_incarnation m \<le> snap_incarnation m' \<and> snap_revision m \<le> snap_revision m'
    \<and> (\<forall>a \<in> set as. snap_incarnation a \<le> snap_incarnation m' \<and> snap_revision a \<le> snap_revision m')
    \<and> (\<forall>k. gm_get (snap_records m') k = join_all as k (gm_get (snap_records m) k))
    \<and> (\<forall>k r. r \<in> accepted_at as k \<or> covers r (gm_get (snap_records m) k) \<longrightarrow> covers r (gm_get (snap_records m') k))"
  using assms
proof (induction as arbitrary: m)
  case (Cons a as)
  from Cons.prems(1) obtain m1 where m1: "merge_owner a m = Inr m1" "fold_result merge_owner as m1 = Inr m'"
    by (auto simp: and_then_eq_Inr)
  from Cons.prems have "gm_ok (snap_records a)" by simp
  note step = merge_owner_ok [OF m1(1) Cons.prems(2) this]
  have "covers r (gm_get (snap_records m1) k)"
    if "gm_get (snap_records a) k = Some r \<or> covers r (gm_get (snap_records m) k)" for k r
    using that step covers_join [of "gm_get (snap_records m) k" "gm_get (snap_records a) k"] by metis
  note cover = this
  have "\<forall>b \<in> set as. gm_ok (snap_records b)" using Cons.prems(3) by simp
  note ih = Cons.IH [OF m1(2) conjunct1 [OF step] this]
  then have rest:
    "gm_ok (snap_records m')" "snap_schema m' = snap_schema m1" "snap_owner m' = snap_owner m1"
    "snap_incarnation m1 \<le> snap_incarnation m'" "snap_revision m1 \<le> snap_revision m'"
    "\<forall>b \<in> set as. snap_incarnation b \<le> snap_incarnation m' \<and> snap_revision b \<le> snap_revision m'"
    "\<forall>k. gm_get (snap_records m') k = join_all as k (gm_get (snap_records m1) k)"
    "\<And>k r. r \<in> accepted_at as k \<or> covers r (gm_get (snap_records m1) k) \<Longrightarrow> covers r (gm_get (snap_records m') k)"
    by blast+
  have later: "covers r (gm_get (snap_records m') k)"
    if "r \<in> accepted_at (a # as) k \<or> covers r (gm_get (snap_records m) k)" for k r
    using that cover [of k r] rest(8) [of r k] by (auto simp: accepted_at_def)
  have "snap_incarnation m \<le> snap_incarnation m'" "snap_incarnation a \<le> snap_incarnation m'"
    "snap_revision m \<le> snap_revision m'" "snap_revision a \<le> snap_revision m'"
    using step rest(4,5) by (simp_all add: max_def split: if_splits)
  with step rest later show ?case by simp
qed (simp add: accepted_at_def)

subsection \<open>The backup\<close>

text \<open>What the loop over the backup makes of one merged record, and what it keeps out of the quarantine.\<close>

definition restored :: "routeRecord option \<Rightarrow> routeRecord option \<Rightarrow> routeRecord option" where
  "restored old x = (case (old, x) of
     (Some b, Some y) \<Rightarrow> Some (if rec_deleted b \<and> same_claim y b then restore_tombstone b y else y)
   | _ \<Rightarrow> x)"

definition agrees :: "routeRecord \<Rightarrow> routeRecord option \<Rightarrow> bool" where
  "agrees old x \<longleftrightarrow> (\<exists>y. x = Some y \<and> same_claim old y \<and> (rec_deleted y \<longrightarrow> rec_deleted old))"

lemma restore_record_eq:
  "restore_record (k, old) (m, q) =
     (let m' = (case gm_get m k of
            Some y \<Rightarrow> if rec_deleted old \<and> same_claim y old then gm_put k (restore_tombstone old y) m else m
          | None \<Rightarrow> m) in
      (m', if agrees old (restored (Some old) (gm_get m k)) then q else gm_put k old q))"
proof (cases "gm_get m k")
  case None
  then show ?thesis by (simp add: restore_record_def Let_def agrees_def restored_def)
next
  case (Some y)
  show ?thesis
  proof (cases "rec_deleted old \<and> same_claim y old")
    case True
    with Some show ?thesis
      by (simp add: restore_record_def Let_def agrees_def restored_def same_claim_def gm.get_put restore_tombstone_def)
  next
    case False
    with Some show ?thesis
      by (auto simp: restore_record_def Let_def agrees_def restored_def same_claim_def)
  qed
qed

lemma restore_record_sel:
  assumes "restore_record (k, old) (m, q) = (m', q')" and "gm_ok m" and "gm_ok q"
  shows "gm_ok m' \<and> gm_ok q' \<and> gm_get m' = (gm_get m)(k := restored (Some old) (gm_get m k))
    \<and> gm_get q' = (if agrees old (restored (Some old) (gm_get m k)) then gm_get q else (gm_get q)(k \<mapsto> old))"
proof (cases "gm_get m k")
  case None
  with assms show ?thesis
    by (auto simp: restore_record_eq Let_def restored_def agrees_def gm_get_put_fun)
next
  case (Some y)
  define z where "z = restored (Some old) (Some y)"
  define m1 where "m1 = (if rec_deleted old \<and> same_claim y old then gm_put k (restore_tombstone old y) m else m)"
  from assms(1) Some have "m' = m1" "q' = (if agrees old z then q else gm_put k old q)"
    by (auto simp: restore_record_eq m1_def z_def Let_def)
  moreover have "gm_ok m1" "gm_get m1 = (gm_get m)(k := z)"
    using assms(2) Some by (auto simp: m1_def z_def restored_def gm_get_put_fun)
  ultimately show ?thesis using Some assms(3) by (simp add: z_def gm_get_put_fun)
qed

lemma restore_records_ok:
  assumes "fold restore_record xs (m, q) = (m', q')" and "gm_ok m" and "gm_ok q" and "distinct (map fst xs)"
  shows "gm_ok m' \<and> gm_ok q' \<and> (\<forall>k. gm_get m' k = restored (gm_get xs k) (gm_get m k))
    \<and> (\<forall>k. gm_get q' k = (case gm_get xs k of None \<Rightarrow> gm_get q k
        | Some old \<Rightarrow> if agrees old (restored (Some old) (gm_get m k)) then gm_get q k else Some old))"
  using assms
proof (induction xs arbitrary: m q)
  case Nil
  then show ?case by (auto simp: restored_def)
next
  case (Cons e xs)
  obtain k old where e: "e = (k, old)" by (cases e)
  obtain m1 q1 where one: "restore_record (k, old) (m, q) = (m1, q1)" by (metis prod.exhaust)
  with Cons.prems(1) e have rest: "fold restore_record xs (m1, q1) = (m', q')" by simp
  from Cons.prems(4) e have fresh: "gm_get xs k = None" and dist: "distinct (map fst xs)"
    by (simp_all add: map_of_eq_None_iff)
  have none: "restored None x = x" for x by (simp add: restored_def)
  note step = restore_record_sel [OF one Cons.prems(2,3)]
  with Cons.IH [OF rest] dist e fresh none show ?case by (auto split: option.splits)
qed

lemma restore_tombstone_sel [simp]:
  "rec_deleted (restore_tombstone b y)" "rec_app (restore_tombstone b y) = rec_app y"
  "rec_endpoint (restore_tombstone b y) = rec_endpoint y" "rec_id (restore_tombstone b y) = rec_id y"
  "rec_revision (restore_tombstone b y) = max (rec_revision y) (rec_revision b)"
  by (auto simp: restore_tombstone_def max_def)

lemma restored_sel:
  assumes "restored old x = Some z"
  obtains y where "x = Some y" "same_claim y z" "rec_id z = rec_id y" "rec_revision y \<le> rec_revision z"
    "rec_deleted y \<Longrightarrow> rec_deleted z" "z = y \<or> (\<exists>b. old = Some b \<and> rec_deleted b \<and> same_claim y b \<and> z = restore_tombstone b y)"
  using assms
  by (auto simp: restored_def same_claim_def split: option.splits if_splits)

lemma restored_None [simp]: "restored old None = None"
  by (auto simp: restored_def split: option.splits)

lemma covers_restored: "covers r x \<Longrightarrow> covers r (restored old x)"
  by (auto simp: covers_def restored_def same_claim_def max.coboundedI1 split: option.splits)

text \<open>The whole preparation: everything the properties of a recovery rest on.\<close>

lemma prepare_recovery_ok:
  assumes prep: "prepare_recovery owner backup as = Inr (s, q)"
    and ok: "gm_ok (snap_records backup)" "\<forall>a \<in> set as. gm_ok (snap_records a)"
  shows "gm_ok (snap_records s)" "gm_ok q" "snap_schema s = 1" "snap_owner s = owner"
    and "\<forall>a \<in> set (backup # as). snap_incarnation a < snap_incarnation s \<and> snap_revision a < snap_revision s"
    and "snap_incarnation s \<le> max_revision \<and> snap_revision s \<le> max_revision"
    and "gm_get (snap_records s) k = restored (gm_get (snap_records backup) k) (join_all as k None)"
    and "r \<in> accepted_at as k \<Longrightarrow> covers r (gm_get (snap_records s) k)"
    and "gm_get q k = (case gm_get (snap_records backup) k of None \<Rightarrow> None
        | Some old \<Rightarrow> if agrees old (gm_get (snap_records s) k) then None else Some old)"
proof -
  from prep obtain m where m: "fold_result merge_owner as (merge_start owner backup) = Inr m"
    and room: "snap_incarnation m < max_revision" "snap_revision m < max_revision"
    and s: "restore_backup backup [] (m\<lparr>snap_incarnation := snap_incarnation m + 1, snap_revision := snap_revision m + 1\<rparr>) = (s, q)"
    by (auto simp: prepare_recovery_def and_then_eq_Inr advance_snapshot_def not_le split: if_splits)
  have start: "gm_ok (snap_records (merge_start owner backup))" by (simp add: merge_start_def)
  note merged = merge_owners_ok [OF m start ok(2)]
  from s obtain rs where visit: "fold restore_record (snap_records backup) (snap_records m, []) = (rs, q)"
    and s_eq: "s = m\<lparr>snap_incarnation := snap_incarnation m + 1, snap_revision := snap_revision m + 1, snap_records := rs\<rparr>"
    by (auto simp: restore_backup_def split: prod.splits)
  from merged have gm: "gm_ok (snap_records m)" by simp
  note restore = restore_records_ok [OF visit gm gm_ok_Nil gm_ok_distinct [OF ok(1)]]
  from restore show "gm_ok (snap_records s)" "gm_ok q" by (simp_all add: s_eq)
  from merged show "snap_schema s = 1" "snap_owner s = owner" by (simp_all add: s_eq merge_start_def)
  have up: "x < x + 1 \<and> x + 1 \<le> max_revision" if "x < max_revision" for x :: u64
  proof -
    from that have "unat x < 9223372036854775807" by (simp add: word_less_nat_alt)
    moreover from this have "unat (x + 1) = unat x + 1" by (simp add: unat_word_ariths)
    ultimately show ?thesis by (simp add: word_less_nat_alt word_le_nat_alt)
  qed
  show "\<forall>a \<in> set (backup # as). snap_incarnation a < snap_incarnation s \<and> snap_revision a < snap_revision s"
    using merged up [OF room(1)] up [OF room(2)] by (auto simp: s_eq merge_start_def intro: le_less_trans)
  show "snap_incarnation s \<le> max_revision \<and> snap_revision s \<le> max_revision"
    using up [OF room(1)] up [OF room(2)] by (simp add: s_eq)
  show get: "gm_get (snap_records s) k = restored (gm_get (snap_records backup) k) (join_all as k None)"
    using restore merged by (simp add: s_eq merge_start_def)
  have merged_get: "gm_get (snap_records s) k = restored (gm_get (snap_records backup) k) (gm_get (snap_records m) k)"
    using restore by (simp add: s_eq)
  show "covers r (gm_get (snap_records s) k)" if "r \<in> accepted_at as k"
    unfolding merged_get using that merged by (intro covers_restored) blast
  show "gm_get q k = (case gm_get (snap_records backup) k of None \<Rightarrow> None
        | Some old \<Rightarrow> if agrees old (gm_get (snap_records s) k) then None else Some old)"
    using restore merged_get by (simp split: option.splits)
qed

end
