(* ===== verification/Effects.thy ===== *)
theory Effects
  imports Prelude
begin

section \<open>Programs that touch the outside world\<close>

text \<open>
  A command of the repository runs a sequence of external calls (files, SQLite, HTTP, external tools)
  and returns at the first error. An action takes the outside world and a script with the outcome of
  each external call to come: it works, it is refused with an error and has no effect, or it has its
  effect and still reports an error (the answer is lost, or the process is killed right after it). An
  exhausted script means that every further call works. Since an error ends the process, a crash
  between two external calls is the script that refuses the second one.
\<close>

datatype outcome = Works | Refused string | Lost string

type_synonym ('w, 'a) action = "'w \<times> outcome list \<Rightarrow> 'a result \<times> ('w \<times> outcome list)"

definition ret :: "'a \<Rightarrow> ('w, 'a) action" where
  "ret x s = (Inr x, s)"

definition lift_result :: "'a result \<Rightarrow> ('w, 'a) action" where
  "lift_result r s = (r, s)"

definition act_then :: "('w, 'a) action \<Rightarrow> ('a \<Rightarrow> ('w, 'b) action) \<Rightarrow> ('w, 'b) action" where
  "act_then a f s = (case a s of (Inl e, s') \<Rightarrow> (Inl e, s') | (Inr x, s') \<Rightarrow> f x s')"

fun perform :: "('w \<Rightarrow> 'a result \<times> 'w) \<Rightarrow> ('w, 'a) action" where
  "perform f (w, []) = (fst (f w), (snd (f w), []))"
| "perform f (w, Works # os) = (fst (f w), (snd (f w), os))"
| "perform f (w, Refused e # os) = (Inl e, (w, os))"
| "perform f (w, Lost e # os) = (Inl e, (snd (f w), os))"

definition read_world :: "('w \<Rightarrow> 'a result) \<Rightarrow> ('w, 'a) action" where
  "read_world f = perform (\<lambda>w. (f w, w))"

definition write_world :: "('w \<Rightarrow> 'w) \<Rightarrow> ('w, unit) action" where
  "write_world g = perform (\<lambda>w. (Inr (), g w))"

text \<open>A step whose every outcome is its own answer, so that no fault is added to it.\<close>

definition direct :: "('w \<Rightarrow> 'a \<times> 'w) \<Rightarrow> ('w, 'a) action" where
  "direct f s = (case s of (w, os) \<Rightarrow> case f w of (x, w') \<Rightarrow> (Inr x, (w', os)))"

text \<open>A call whose error the code keeps as a value and looks at later.\<close>

definition try_act :: "('w, 'a) action \<Rightarrow> ('w, 'a result) action" where
  "try_act a s = (case a s of (r, s') \<Rightarrow> (Inr r, s'))"

text \<open>A loop over a list with a loop state that returns at the first error.\<close>

fun fold_act :: "('x \<Rightarrow> 's \<Rightarrow> ('w, 's) action) \<Rightarrow> 'x list \<Rightarrow> 's \<Rightarrow> ('w, 's) action" where
  "fold_act step [] s = ret s"
| "fold_act step (x # xs) s = act_then (step x s) (fold_act step xs)"

subsection \<open>Running without faults\<close>

definition run_clean :: "('w, 'a) action \<Rightarrow> 'w \<Rightarrow> 'a result \<times> 'w" where
  "run_clean a w = (case a (w, []) of (r, (w', _)) \<Rightarrow> (r, w'))"

lemma act_then_Inr: "a s = (Inr x, s') \<Longrightarrow> act_then a f s = f x s'"
  by (simp add: act_then_def)

lemma act_then_Inl: "a s = (Inl e, s') \<Longrightarrow> act_then a f s = (Inl e, s')"
  by (simp add: act_then_def)

lemma action_simps [simp]:
  "ret x s = (Inr x, s)"
  "lift_result r s = (r, s)"
  "read_world f (w, []) = (f w, (w, []))"
  "write_world g (w, []) = (Inr (), (g w, []))"
  by (simp_all add: ret_def lift_result_def read_world_def write_world_def)

subsection \<open>Interruption anywhere\<close>

text \<open>
  \<open>interrupted P a Q I\<close>: from a world in \<open>P\<close>, whatever the script does, the action ends in \<open>Q\<close> if it
  returns a value and in \<open>I\<close> if it stops with an error. As every prefix of the external calls is the run
  of some script, \<open>I\<close> holds at every point at which the process can die.
\<close>

definition interrupted :: "('w \<Rightarrow> bool) \<Rightarrow> ('w, 'a) action \<Rightarrow> ('a \<Rightarrow> 'w \<Rightarrow> bool) \<Rightarrow> ('w \<Rightarrow> bool) \<Rightarrow> bool" where
  "interrupted P a Q I \<longleftrightarrow> (\<forall>w os r w' os'. P w \<longrightarrow> a (w, os) = (r, (w', os')) \<longrightarrow>
     (case r of Inl _ \<Rightarrow> I w' | Inr x \<Rightarrow> Q x w'))"

named_theorems interrupt_intros \<open>rules for actions that can be interrupted\<close>

lemma interruptedI:
  "(\<And>w os r w' os'. P w \<Longrightarrow> a (w, os) = (r, (w', os')) \<Longrightarrow> case r of Inl _ \<Rightarrow> I w' | Inr x \<Rightarrow> Q x w')
    \<Longrightarrow> interrupted P a Q I"
  unfolding interrupted_def by blast

lemma interruptedD:
  assumes "interrupted P a Q I" "P w" "a (w, os) = (r, (w', os'))"
  shows "case r of Inl _ \<Rightarrow> I w' | Inr x \<Rightarrow> Q x w'"
  using assms unfolding interrupted_def by blast

lemma interrupted_ret: "(\<And>w. P w \<Longrightarrow> Q x w) \<Longrightarrow> interrupted P (ret x) Q I"
  by (auto intro!: interruptedI)

lemma interrupted_lift:
  "(\<And>w. P w \<Longrightarrow> case r of Inl _ \<Rightarrow> I w | Inr x \<Rightarrow> Q x w) \<Longrightarrow> interrupted P (lift_result r) Q I"
  by (auto intro!: interruptedI)

lemma interrupted_then:
  assumes "interrupted P a R I" and "\<And>x. interrupted (R x) (f x) Q I"
  shows "interrupted P (act_then a f) Q I"
proof (rule interruptedI)
  fix w os r w' os'
  assume "P w" and run: "act_then a f (w, os) = (r, (w', os'))"
  obtain r1 w1 os1 where a: "a (w, os) = (r1, (w1, os1))" by (metis prod.exhaust)
  from interruptedD [OF assms(1) \<open>P w\<close> a] run a interruptedD [OF assms(2)]
  show "case r of Inl _ \<Rightarrow> I w' | Inr x \<Rightarrow> Q x w'"
    by (cases r1) (auto simp: act_then_def)
qed

lemma interrupted_perform:
  assumes "\<And>w. P w \<Longrightarrow> I w" and "\<And>w. P w \<Longrightarrow> I (snd (f w))"
    and "\<And>w x. P w \<Longrightarrow> fst (f w) = Inr x \<Longrightarrow> Q x (snd (f w))"
  shows "interrupted P (perform f) Q I"
proof (rule interruptedI)
  fix w os r w' os'
  assume "P w" and run: "perform f (w, os) = (r, (w', os'))"
  then show "case r of Inl _ \<Rightarrow> I w' | Inr x \<Rightarrow> Q x w'"
    using assms [of w] by (cases r; cases "(f, (w, os))" rule: perform.cases) auto
qed

lemma interrupted_read:
  "(\<And>w. P w \<Longrightarrow> I w) \<Longrightarrow> (\<And>w x. P w \<Longrightarrow> f w = Inr x \<Longrightarrow> Q x w) \<Longrightarrow> interrupted P (read_world f) Q I"
  unfolding read_world_def by (rule interrupted_perform) auto

lemma interrupted_write:
  "(\<And>w. P w \<Longrightarrow> I w) \<Longrightarrow> (\<And>w. P w \<Longrightarrow> I (g w)) \<Longrightarrow> (\<And>w. P w \<Longrightarrow> Q () (g w)) \<Longrightarrow> interrupted P (write_world g) Q I"
  unfolding write_world_def by (rule interrupted_perform) auto

lemma interrupted_if:
  "(b \<Longrightarrow> interrupted P a Q I) \<Longrightarrow> (\<not> b \<Longrightarrow> interrupted P a' Q I) \<Longrightarrow> interrupted P (if b then a else a') Q I"
  by simp

lemma interrupted_option:
  "(x = None \<Longrightarrow> interrupted P a Q I) \<Longrightarrow> (\<And>y. x = Some y \<Longrightarrow> interrupted P (f y) Q I)
    \<Longrightarrow> interrupted P (case x of None \<Rightarrow> a | Some y \<Rightarrow> f y) Q I"
  by (cases x) auto

lemma interrupted_fold:
  assumes "\<And>x s. x \<in> set xs \<Longrightarrow> interrupted (R s) (step x s) R I"
  shows "interrupted (R s) (fold_act step xs s) R I"
  using assms
proof (induction xs arbitrary: s)
  case Nil
  show ?case unfolding fold_act.simps by (rule interrupted_ret)
next
  case (Cons x xs)
  have "interrupted (R s) (step x s) R I" by (rule Cons.prems) simp
  moreover have "interrupted (R t) (fold_act step xs t) R I" for t
    by (rule Cons.IH) (rule Cons.prems, simp)
  ultimately show ?case unfolding fold_act.simps by (rule interrupted_then)
qed

lemma interrupted_fold_visited:
  assumes "\<And>before x after s. xs = before @ x # after \<Longrightarrow> interrupted (R before s) (step x s) (R (before @ [x])) I"
  shows "interrupted (R [] s) (fold_act step xs s) (R xs) I"
proof -
  have "interrupted (R before s) (fold_act step after s) (R xs) I" if "xs = before @ after" for before after s
    using that
  proof (induction after arbitrary: before s)
    case Nil
    then show ?case unfolding fold_act.simps by (intro interrupted_ret) simp
  next
    case (Cons x after)
    show ?case
      unfolding fold_act.simps
      by (rule interrupted_then [OF assms [OF Cons.prems]]) (rule Cons.IH, simp add: Cons.prems)
  qed
  from this [of "[]" xs] show ?thesis by simp
qed

lemma interrupted_weaken:
  assumes "interrupted P a Q I" and "\<And>w. P' w \<Longrightarrow> P w" and "\<And>x w. Q x w \<Longrightarrow> Q' x w" and "\<And>w. I w \<Longrightarrow> I' w"
  shows "interrupted P' a Q' I'"
  using assms unfolding interrupted_def by (fastforce split: sum.splits)

lemma interrupted_try:
  assumes "interrupted P a Q I"
  shows "interrupted P (try_act a) (\<lambda>r w. case r of Inl _ \<Rightarrow> I w | Inr x \<Rightarrow> Q x w) J"
  by (rule interruptedI) (use interruptedD [OF assms] in \<open>auto simp: try_act_def split: prod.splits\<close>)

text \<open>Forward rules, for one external call at a time.\<close>

lemma interrupted_pre: "interrupted P a Q I \<Longrightarrow> (\<And>w. P' w \<Longrightarrow> P w) \<Longrightarrow> interrupted P' a Q I"
  by (rule interrupted_weaken)

lemma interrupted_then_lift:
  "(\<And>w. P w \<Longrightarrow> I w) \<Longrightarrow> (\<And>x. r = Inr x \<Longrightarrow> interrupted P (k x) Q I) \<Longrightarrow> interrupted P (act_then (lift_result r) k) Q I"
  by (cases r) (auto intro!: interruptedI simp: act_then_def dest: interruptedD)

lemma interrupted_then_ret: "interrupted P (k x) Q I \<Longrightarrow> interrupted P (act_then (ret x) k) Q I"
  by (auto intro!: interruptedI simp: act_then_def dest: interruptedD)

lemma interrupted_then_read:
  "(\<And>w. P w \<Longrightarrow> I w) \<Longrightarrow> (\<And>x. interrupted (\<lambda>w. P w \<and> f w = Inr x) (k x) Q I)
    \<Longrightarrow> interrupted P (act_then (read_world f) k) Q I"
  by (rule interrupted_then [where R = "\<lambda>x w. P w \<and> f w = Inr x"]) (auto intro: interrupted_read)

lemma interrupted_then_try_read:
  "(\<And>x. interrupted P (k x) Q I) \<Longrightarrow> interrupted P (act_then (try_act (read_world f)) k) Q I"
  by (rule interrupted_then [where R = "\<lambda>_. P"])
    (auto intro!: interrupted_weaken [OF interrupted_try [OF interrupted_read [where I = P and Q = "\<lambda>_. P"]]]
      split: sum.splits)

lemma interrupted_direct:
  "(\<And>w. P w \<Longrightarrow> Q (fst (f w)) (snd (f w))) \<Longrightarrow> interrupted P (direct f) Q I"
  by (force intro!: interruptedI simp: direct_def split: prod.splits)

lemma interrupted_then_direct:
  "(\<And>x. interrupted (\<lambda>w'. \<exists>w. P w \<and> f w = (x, w')) (k x) Q I) \<Longrightarrow> interrupted P (act_then (direct f) k) Q I"
  by (rule interrupted_then [where R = "\<lambda>x w'. \<exists>w. P w \<and> f w = (x, w')"]) (auto intro!: interrupted_direct exI)

lemma interrupted_then_write:
  assumes "\<And>w. P w \<Longrightarrow> I w" "\<And>w. P w \<Longrightarrow> I (g w)" "\<And>w. P w \<Longrightarrow> R (g w)" "interrupted R (k ()) Q I"
  shows "interrupted P (act_then (write_world g) k) Q I"
  by (rule interrupted_then [where R = "\<lambda>_. R"]) (use assms in \<open>auto intro: interrupted_write\<close>)

lemma interrupted_False: "(\<And>w. P w \<Longrightarrow> False) \<Longrightarrow> interrupted P a Q I"
  unfolding interrupted_def by blast

lemma interrupted_pure: "(\<phi> \<Longrightarrow> interrupted P a Q I) \<Longrightarrow> interrupted (\<lambda>w. P w \<and> \<phi>) a Q I"
  unfolding interrupted_def by blast

lemma interrupted_ex: "(\<And>x. interrupted (P x) a Q I) \<Longrightarrow> interrupted (\<lambda>w. \<exists>x. P x w) a Q I"
  unfolding interrupted_def by blast

lemma interrupted_assume: "(\<And>w. P w \<Longrightarrow> interrupted ((=) w) a Q I) \<Longrightarrow> interrupted P a Q I"
  unfolding interrupted_def by blast

lemmas [interrupt_intros] = interrupted_ret interrupted_lift interrupted_then interrupted_perform
  interrupted_read interrupted_write interrupted_if interrupted_option

text \<open>A sequence of attempts, each with its own action and script, all but the last of which may die.\<close>

fun run_attempts :: "('i \<Rightarrow> ('w, 'a) action) \<Rightarrow> ('i \<times> outcome list) list \<Rightarrow> 'w \<Rightarrow> 'w" where
  "run_attempts prog [] w = w"
| "run_attempts prog ((i, os) # as) w = run_attempts prog as (fst (snd (prog i (w, os))))"

lemma run_attempts_inv:
  assumes "\<And>i. interrupted I (prog i) (\<lambda>_. I) I" and "I w"
  shows "I (run_attempts prog as w)"
  using assms(2)
proof (induction as arbitrary: w)
  case (Cons a as)
  obtain i os where a: "a = (i, os)" by (cases a)
  obtain r w' os' where run: "prog i (w, os) = (r, (w', os'))" by (metis prod.exhaust)
  from interruptedD [OF assms(1) Cons.prems run] have "I w'" by (cases r) auto
  then show ?case by (simp add: a run Cons.IH)
qed simp

end
