(* ===== verification/Recovery_Run.thy ===== *)
theory Recovery_Run
  imports Registry Recovery_Merge Effects
begin

section \<open>The recovery command: recoverWorker\<close>

text \<open>
  \<^verbatim>\<open>recoverWorker\<close> of \<^verbatim>\<open>cmd/worker/recover.go\<close> as an action on the world it sees: the configuration and journal
  files, the restore guard, the restored database and the two routers. A file written with \<^verbatim>\<open>durableFile\<close> is
  replaced as a whole. What a router does with a request is the parameter \<open>peer\<close>; SHA-256 is \<open>sha\<close>. The
  phases follow the source; each external call takes one outcome from the script.
\<close>

subsection \<open>The world\<close>

record 'p recovery_world =
  rw_config :: "json result"
  rw_guard :: "string option"
  rw_journal :: "json result option"
  rw_db :: routing_db
  rw_peers :: 'p

record recovery_args =
  arg_config :: string
  arg_state :: string
  arg_journal :: string
  arg_operation :: string
  arg_crash :: bool

text \<open>What the process reads of SQLite's settings and of the random source.\<close>

record recovery_io =
  io_mode :: string
  io_sync :: int
  io_random :: string

record router_reply =
  rep_status :: nat
  rep_length :: nat
  rep_body :: "json result"

type_synonym 'p router_peer = "string \<Rightarrow> string \<Rightarrow> recovery_request \<Rightarrow> 'p \<Rightarrow> router_reply \<times> 'p"

type_synonym ('p, 'a) recovery_action = "('p recovery_world, 'a) action"

text \<open>A call whose effect is outside the model, such as taking the lock.\<close>

definition external :: "('p, unit) recovery_action" where
  "external = write_world (\<lambda>w. w)"

definition save_journal :: "recoveryJournal \<Rightarrow> ('p, unit) recovery_action" where
  "save_journal r = write_world (\<lambda>w. w\<lparr>rw_journal := Some (Inr (marshal_journal r))\<rparr>)"

subsection \<open>Calling a router\<close>

definition decode_reply :: "router_reply \<Rightarrow> acceptedOwner result" where
  "decode_reply reply =
     (if 16 * 1024 * 1024 < rep_length reply \<or> rep_status reply \<noteq> 200 then
        Inl (''recovery blocked: router status '' @ itoa (rep_status reply))
      else and_then (rep_body reply) read_accepted)"

definition call_router :: "'p router_peer \<Rightarrow> daemonConfig \<Rightarrow> string \<Rightarrow> string \<Rightarrow> routeSnapshot option \<Rightarrow> string option
    \<Rightarrow> ('p, acceptedOwner) recovery_action" where
  "call_router peer config operation router snapshot hash = perform (\<lambda>w.
     (case peer (trim_right router CHR ''/'' @ ''/recovery'') (''Bearer '' @ cfg_router_admin_token config)
        \<lparr>call_owner = cfg_owner config, call_operation = operation, call_snapshot = snapshot, call_hash = hash\<rparr>
        (rw_peers w) of (reply, p) \<Rightarrow> (decode_reply reply, w\<lparr>rw_peers := p\<rparr>)))"

subsection \<open>The phases\<close>

definition recover_arguments :: "recovery_args \<Rightarrow> unit result" where
  "recover_arguments a =
     (if \<not> routeName (arg_operation a) \<or> arg_state a = [] \<or> arg_journal a = [] \<or> arg_config a = []
         \<or> arg_state a = arg_journal a then Inl ''invalid recovery arguments'' else Inr ())"

definition recover_config :: "json \<Rightarrow> daemonConfig result" where
  "recover_config j = and_then (read_config False j) (\<lambda>config.
     if length (cfg_routers config) \<noteq> 2 \<or> cfg_routers config ! 0 = cfg_routers config ! 1
        \<or> length (cfg_router_admin_token config) < 32 \<or> cfg_restore_guard config = [] then
       Inl ''recovery requires both distinct routers and an external guard''
     else Inr config)"

definition resume_journal :: "recovery_args \<Rightarrow> daemonConfig \<Rightarrow> json result option \<Rightarrow> recoveryJournal result" where
  "resume_journal a config file =
     (let fresh = fresh_journal (arg_operation a) (cfg_owner config) (arg_state a) in
      case file of None \<Rightarrow> Inr fresh
      | Some doc \<Rightarrow> and_then doc (\<lambda>j. and_then (read_journal j fresh) (\<lambda>journal.
          if jr_operation journal \<noteq> arg_operation a \<or> jr_owner journal \<noteq> cfg_owner config
             \<or> jr_database journal \<noteq> arg_state a then Inl ''recovery journal identity mismatch''
          else Inr journal)))"

text \<open>Lines 50 to 95: arguments, configuration, lock, guard, journal.\<close>

definition recover_begin :: "recovery_args \<Rightarrow> ('p, daemonConfig \<times> recoveryJournal) recovery_action" where
  "recover_begin a =
     act_then (lift_result (recover_arguments a)) (\<lambda>_.
     act_then (read_world rw_config) (\<lambda>j.
     act_then (lift_result (recover_config j)) (\<lambda>config.
     act_then external (\<lambda>_.
     act_then external (\<lambda>_.
     act_then (write_world (\<lambda>w. w\<lparr>rw_guard := Some (arg_operation a)\<rparr>)) (\<lambda>_.
     act_then (read_world (\<lambda>w. Inr (rw_journal w))) (\<lambda>file.
     act_then (lift_result (resume_journal a config file)) (\<lambda>journal.
     act_then (save_journal journal) (\<lambda>_. ret (config, journal))))))))))"

text \<open>Lines 96 to 112: the database and its durability settings.\<close>

definition recover_open :: "recovery_io \<Rightarrow> ('p, unit) recovery_action" where
  "recover_open io =
     act_then external (\<lambda>_.
     act_then (read_world (\<lambda>_. Inr (io_mode io))) (\<lambda>mode.
     act_then (read_world (\<lambda>_. Inr (io_sync io))) (\<lambda>sync.
     lift_result (guard (mode = ''wal'' \<and> sync = 2) ''SQLite durability mismatch''))))"

text \<open>Lines 140 to 209: backup, fences, histories, merge, quarantine, credential, journal.\<close>

definition freeze_router :: "'p router_peer \<Rightarrow> daemonConfig \<Rightarrow> string \<Rightarrow> string \<Rightarrow> unit \<Rightarrow> ('p, unit) recovery_action" where
  "freeze_router peer config operation router u =
     act_then (call_router peer config operation router None None) (\<lambda>_. ret ())"

definition collect_router :: "'p router_peer \<Rightarrow> daemonConfig \<Rightarrow> string \<Rightarrow> string \<Rightarrow> routeSnapshot
    \<Rightarrow> ('p, routeSnapshot) recovery_action" where
  "collect_router peer config operation router merged =
     act_then (call_router peer config operation router None None) (\<lambda>owner.
       lift_result (merge_owner (acc_snapshot owner) merged))"

definition load_backup :: "daemonConfig \<Rightarrow> ('p, routeSnapshot) recovery_action" where
  "load_backup config =
     act_then (read_world (\<lambda>w. select_body (rw_db w))) (\<lambda>blob.
     act_then (lift_result (read_snapshot blob)) (\<lambda>backup.
     act_then (lift_result (guard (snap_owner backup = cfg_owner config) ''restored database belongs to another owner''))
       (\<lambda>_. ret backup)))"

definition recover_prepare :: "'p router_peer \<Rightarrow> daemonConfig \<Rightarrow> string \<Rightarrow> recovery_io \<Rightarrow> recoveryJournal
    \<Rightarrow> ('p, recoveryJournal) recovery_action" where
  "recover_prepare peer config operation io journal =
     act_then (load_backup config) (\<lambda>backup.
     act_then (fold_act (freeze_router peer config operation) (cfg_routers config) ()) (\<lambda>_.
     act_then (fold_act (collect_router peer config operation) (cfg_routers config) (merge_start (cfg_owner config) backup))
       (\<lambda>merged.
     act_then (lift_result (advance_snapshot merged)) (\<lambda>advanced.
     case restore_backup backup (jr_quarantined journal) advanced of (s, quarantined) \<Rightarrow>
       act_then (read_world (\<lambda>_. Inr (io_random io))) (\<lambda>credential.
       let journal' = journal\<lparr>jr_quarantined := quarantined, jr_credential := hex_encode credential, jr_snapshot := Some s\<rparr> in
       act_then (save_journal journal') (\<lambda>_. ret journal'))))))"

text \<open>Lines 211 to 216: what a journal must hold before anything is sent.\<close>

definition prepared_snapshot :: "daemonConfig \<Rightarrow> recoveryJournal \<Rightarrow> routeSnapshot result" where
  "prepared_snapshot config journal =
     (case jr_snapshot journal of None \<Rightarrow> Inl ''invalid prepared recovery journal''
      | Some s \<Rightarrow> if length (jr_credential journal) \<noteq> 64 \<or> snap_owner s \<noteq> cfg_owner config then
            Inl ''invalid prepared recovery journal''
          else if hex_decode (jr_credential journal) = None then Inl ''encoding/hex: invalid byte'' else Inr s)"

text \<open>Lines 220 to 240: one router's acknowledgement.\<close>

definition acknowledge_router :: "(string \<Rightarrow> string) \<Rightarrow> 'p router_peer \<Rightarrow> daemonConfig \<Rightarrow> recovery_args
    \<Rightarrow> nat \<times> string \<Rightarrow> recoveryJournal \<times> string \<Rightarrow> ('p, recoveryJournal \<times> string) recovery_action" where
  "acknowledge_router sha peer config a ir jd = (case ir of (i, router) \<Rightarrow> case jd of (journal, resultDigest) \<Rightarrow>
     act_then (call_router peer config (arg_operation a) router (jr_snapshot journal)
       (Some (hex_encode (sha (jr_credential journal))))) (\<lambda>owner.
     case acc_recovery owner of
       None \<Rightarrow> lift_result (Inl ''router did not acknowledge recovery identity'')
     | Some m \<Rightarrow>
       if mark_operation m \<noteq> arg_operation a then lift_result (Inl ''router did not acknowledge recovery identity'')
       else if i \<noteq> 0 \<and> mark_digest m \<noteq> resultDigest then lift_result (Inl ''routers acknowledged different recovery results'')
       else (let resultDigest' = (if i = 0 then mark_digest m else resultDigest);
                 journal' = journal\<lparr>jr_acknowledgements := gm_put router (mark_digest m) (jr_acknowledgements journal)\<rparr> in
         act_then (save_journal journal') (\<lambda>_.
           if i = 0 \<and> arg_crash a then lift_result (Inl ''exit status 77'') else ret (journal', resultDigest')))))"

definition recover_acknowledge :: "(string \<Rightarrow> string) \<Rightarrow> 'p router_peer \<Rightarrow> daemonConfig \<Rightarrow> recovery_args \<Rightarrow> recoveryJournal
    \<Rightarrow> ('p, recoveryJournal) recovery_action" where
  "recover_acknowledge sha peer config a journal =
     act_then (fold_act (acknowledge_router sha peer config a) (enumerate 0 (cfg_routers config)) (journal, []))
       (\<lambda>(journal', _). ret journal')"

text \<open>Lines 241 to 274: database, credential, journal, guard.\<close>

definition update_state :: "json \<Rightarrow> routing_db \<Rightarrow> nat \<times> routing_db" where
  "update_state blob db = (case routing_state db of None \<Rightarrow> (0, db) | Some _ \<Rightarrow> (1, db\<lparr>routing_state := Some blob\<rparr>))"

definition recover_install :: "daemonConfig \<Rightarrow> recoveryJournal \<Rightarrow> routeSnapshot \<Rightarrow> ('p, nat \<times> nat) recovery_action" where
  "recover_install config journal s =
     act_then (perform (\<lambda>w. case update_state (marshal_snapshot s) (rw_db w) of (n, db) \<Rightarrow> (Inr n, w\<lparr>rw_db := db\<rparr>)))
       (\<lambda>affected.
     act_then (read_world (\<lambda>_. Inr affected)) (\<lambda>n.
     act_then (lift_result (guard (n = 1) ''restored owner row missing'')) (\<lambda>_.
     act_then (write_world (\<lambda>w. w\<lparr>rw_config := Inr (marshal_config (config\<lparr>cfg_token := jr_credential journal\<rparr>))\<rparr>)) (\<lambda>_.
     act_then (save_journal (journal\<lparr>jr_complete := True\<rparr>)) (\<lambda>_.
     act_then (write_world (\<lambda>w. w\<lparr>rw_guard := None\<rparr>)) (\<lambda>_.
     act_then external (\<lambda>_.
     act_then external (\<lambda>_. ret (length (jr_quarantined journal), length (jr_acknowledgements journal))))))))))"

text \<open>Lines 211 to 274: a prepared journal is sent and installed.\<close>

definition recover_send :: "(string \<Rightarrow> string) \<Rightarrow> 'p router_peer \<Rightarrow> recovery_args \<Rightarrow> daemonConfig \<Rightarrow> recoveryJournal
    \<Rightarrow> ('p, nat \<times> nat) recovery_action" where
  "recover_send sha peer a config journal =
     act_then (lift_result (prepared_snapshot config journal)) (\<lambda>s.
     act_then (recover_acknowledge sha peer config a journal) (\<lambda>journal'. recover_install config journal' s))"

text \<open>Lines 96 to 274: everything after the fence.\<close>

definition recover_fenced :: "(string \<Rightarrow> string) \<Rightarrow> 'p router_peer \<Rightarrow> recovery_args \<Rightarrow> recovery_io \<Rightarrow> daemonConfig \<times> recoveryJournal
    \<Rightarrow> ('p, nat \<times> nat) recovery_action" where
  "recover_fenced sha peer a io cj = (case cj of (config, journal) \<Rightarrow>
     act_then (recover_open io) (\<lambda>_.
     act_then (if jr_snapshot journal = None then recover_prepare peer config (arg_operation a) io journal else ret journal)
       (recover_send sha peer a config)))"

text \<open>The command; the result is what it prints of the quarantine and the acknowledgements.\<close>

definition recoverWorker :: "(string \<Rightarrow> string) \<Rightarrow> 'p router_peer \<Rightarrow> recovery_args \<Rightarrow> recovery_io
    \<Rightarrow> ('p, nat \<times> nat) recovery_action" where
  "recoverWorker sha peer a io = act_then (recover_begin a) (recover_fenced sha peer a io)"

end
