(* ===== verification/Recovery_Crash.thy ===== *)
theory Recovery_Crash
  imports Recovery_Run
begin

section \<open>Interrupted recoveries\<close>

text \<open>
  The states a recovery can be left in by any number of attempts, each of which may die at any external
  call: not begun, begun but not prepared, or prepared. A prepared recovery is fixed: every later attempt
  works on the same snapshot, credential and quarantine.
\<close>

subsection \<open>The stages\<close>

text \<open>Where a recovery starts: a readable configuration and no journal.\<close>

definition recovery_site :: "daemonConfig \<Rightarrow> 'p recovery_world \<Rightarrow> bool" where
  "recovery_site c w \<longleftrightarrow> gm_ok (cfg_workloads c) \<and> rw_config w = Inr (marshal_config c) \<and> rw_journal w = None"

definition not_begun :: "recovery_args \<Rightarrow> 'p recovery_world \<Rightarrow> 'p recovery_world \<Rightarrow> bool" where
  "not_begun a w0 w \<longleftrightarrow> w = w0 \<or> w = w0\<lparr>rw_guard := Some (arg_operation a)\<rparr>"

definition begun :: "daemonConfig \<Rightarrow> recovery_args \<Rightarrow> 'p recovery_world \<Rightarrow> 'p recovery_world \<Rightarrow> bool" where
  "begun c a w0 w \<longleftrightarrow> rw_guard w = Some (arg_operation a) \<and> rw_config w = rw_config w0 \<and> rw_db w = rw_db w0
     \<and> rw_journal w = Some (Inr (marshal_journal (fresh_journal (arg_operation a) (cfg_owner c) (arg_state a))))"

record recovery_plan =
  plan_snapshot :: routeSnapshot
  plan_credential :: string
  plan_quarantined :: "(string, routeRecord) go_map"

text \<open>What the routers' state shows of an acknowledged plan.\<close>

type_synonym 'p ack_evidence = "recovery_plan \<Rightarrow> string \<Rightarrow> 'p \<Rightarrow> bool"

text \<open>A plan is the merge of the backup in the database with the two histories the routers answered.\<close>

definition plan_stems :: "daemonConfig \<Rightarrow> routing_db \<Rightarrow> recovery_plan \<Rightarrow> bool" where
  "plan_stems c db p \<longleftrightarrow> (\<exists>backup x y. daemon_snapshot no_faults db = Inr backup
     \<and> gm_ok (snap_records x) \<and> gm_ok (snap_records y)
     \<and> prepare_recovery (cfg_owner c) backup [x, y] = Inr (plan_snapshot p, plan_quarantined p))"

definition journal_plan :: "daemonConfig \<Rightarrow> recovery_args \<Rightarrow> recovery_plan \<Rightarrow> recoveryJournal \<Rightarrow> bool" where
  "journal_plan c a p r \<longleftrightarrow> journal_wf r \<and> jr_operation r = arg_operation a \<and> jr_owner r = cfg_owner c
     \<and> jr_database r = arg_state a \<and> jr_snapshot r = Some (plan_snapshot p) \<and> jr_credential r = plan_credential p
     \<and> jr_quarantined r = plan_quarantined p"

definition with_token :: "daemonConfig \<Rightarrow> recovery_plan \<Rightarrow> daemonConfig" where
  "with_token c p = c\<lparr>cfg_token := plan_credential p\<rparr>"

definition installed :: "daemonConfig \<Rightarrow> recovery_plan \<Rightarrow> recoveryJournal \<Rightarrow> 'p recovery_world \<Rightarrow> bool" where
  "installed c p r w \<longleftrightarrow> routing_state (rw_db w) = Some (marshal_snapshot (plan_snapshot p))
     \<and> rw_config w = Inr (marshal_config (with_token c p))
     \<and> (\<forall>router \<in> set (cfg_routers c). gm_get (jr_acknowledgements r) router \<noteq> None)"

definition prepared :: "'p ack_evidence \<Rightarrow> daemonConfig \<Rightarrow> recovery_args \<Rightarrow> 'p recovery_world \<Rightarrow> recovery_plan \<Rightarrow> recoveryJournal
    \<Rightarrow> 'p recovery_world \<Rightarrow> bool" where
  "prepared ev c a w0 p r w \<longleftrightarrow> journal_plan c a p r \<and> plan_stems c (rw_db w0) p
     \<and> rw_journal w = Some (Inr (marshal_journal r))
     \<and> (\<forall>router. gm_get (jr_acknowledgements r) router \<noteq> None \<longrightarrow> ev p router (rw_peers w))
     \<and> (rw_config w = Inr (marshal_config c) \<or> rw_config w = Inr (marshal_config (with_token c p)))
     \<and> routing_operations (rw_db w) = routing_operations (rw_db w0)
     \<and> (routing_state (rw_db w) = routing_state (rw_db w0)
        \<or> routing_state (rw_db w) = Some (marshal_snapshot (plan_snapshot p)))
     \<and> (rw_guard w = None \<longrightarrow> jr_complete r) \<and> (jr_complete r \<longrightarrow> installed c p r w)"

definition planned :: "'p ack_evidence \<Rightarrow> daemonConfig \<Rightarrow> recovery_args \<Rightarrow> 'p recovery_world \<Rightarrow> recovery_plan \<Rightarrow> 'p recovery_world \<Rightarrow> bool" where
  "planned ev c a w0 p w \<longleftrightarrow> (\<exists>r. prepared ev c a w0 p r w)"

definition recovery_inv :: "'p ack_evidence \<Rightarrow> daemonConfig \<Rightarrow> recovery_args \<Rightarrow> 'p recovery_world \<Rightarrow> 'p recovery_world \<Rightarrow> bool" where
  "recovery_inv ev c a w0 w \<longleftrightarrow> not_begun a w0 w \<or> begun c a w0 w \<or> (\<exists>p. planned ev c a w0 p w)"

subsection \<open>Reading what an attempt left\<close>

lemma fresh_journal_wf: "journal_wf (fresh_journal op owner db)"
  by (simp add: journal_wf_def fresh_journal_def)

lemma resume_fresh: "resume_journal a c None = Inr (fresh_journal (arg_operation a) (cfg_owner c) (arg_state a))"
  by (simp add: resume_journal_def Let_def)

lemma resume_written:
  assumes "journal_wf r" "jr_operation r = arg_operation a" "jr_owner r = cfg_owner c" "jr_database r = arg_state a"
  shows "resume_journal a c (Some (Inr (marshal_journal r))) = Inr r"
  using assms by (simp add: resume_journal_def Let_def read_marshal_journal)

lemma recover_config_written:
  assumes "gm_ok (cfg_workloads c)" and "recover_config (marshal_config c) = Inr c'"
  shows "c' = c" "\<exists>x y. cfg_routers c = [x, y] \<and> x \<noteq> y"
proof -
  from assms have "c' = c" and len: "length (cfg_routers c) = 2" "cfg_routers c ! 0 \<noteq> cfg_routers c ! 1"
    by (auto simp: recover_config_def read_marshal_config split: if_splits)
  from len show "c' = c" "\<exists>x y. cfg_routers c = [x, y] \<and> x \<noteq> y"
    using \<open>c' = c\<close> by (auto simp: numeral_2_eq_2 length_Suc_conv)
qed

lemma recover_config_same:
  "recover_config (marshal_config (with_token c p)) = Inr c' \<Longrightarrow> gm_ok (cfg_workloads c) \<Longrightarrow>
     c' = with_token c p \<and> (\<exists>x y. cfg_routers c = [x, y] \<and> x \<noteq> y)"
  using recover_config_written [of "with_token c p" c'] by (simp add: with_token_def)

lemma with_token_sel [simp]:
  "cfg_owner (with_token c p) = cfg_owner c" "cfg_routers (with_token c p) = cfg_routers c"
  "cfg_router_admin_token (with_token c p) = cfg_router_admin_token c"
  "with_token (with_token c p) p = with_token c p"
  by (simp_all add: with_token_def)

definition two_routers :: "daemonConfig \<Rightarrow> bool" where
  "two_routers c \<longleftrightarrow> (\<exists>x y. cfg_routers c = [x, y] \<and> x \<noteq> y)"

text \<open>A prepared recovery under its fence, with the journal in memory saved.\<close>

definition fenced :: "'p ack_evidence \<Rightarrow> daemonConfig \<Rightarrow> recovery_args \<Rightarrow> 'p recovery_world \<Rightarrow> recovery_plan \<Rightarrow> recoveryJournal
    \<Rightarrow> 'p recovery_world \<Rightarrow> bool" where
  "fenced ev c a w0 p r w \<longleftrightarrow> prepared ev c a w0 p r w \<and> rw_guard w = Some (arg_operation a)"

definition recovered :: "'p ack_evidence \<Rightarrow> daemonConfig \<Rightarrow> recovery_args \<Rightarrow> 'p recovery_world \<Rightarrow> recovery_plan \<Rightarrow> 'p recovery_world \<Rightarrow> bool" where
  "recovered ev c a w0 p w \<longleftrightarrow> planned ev c a w0 p w \<and> rw_guard w = None"

subsection \<open>One phase at a time\<close>

lemma snapshot_into_gm_ok: "snapshot_into j s = Inr s' \<Longrightarrow> gm_ok (snap_records s) \<Longrightarrow> gm_ok (snap_records s')"
proof (cases j)
  case (JObj ms)
  assume "snapshot_into j s = Inr s'" "gm_ok (snap_records s)"
  with JObj show ?thesis
    by (elim fold_result_invariant [where P = "\<lambda>s. gm_ok (snap_records s)" and f = "snapshot_field False" and xs = ms and s = s,
        rotated])
      (auto simp: snapshot_into_def snapshot_field_def unknown_field_def and_then_eq_Inr
        split: if_splits prod.splits dest: read_map_gm_ok)
qed (auto simp: snapshot_into_def read_struct_def)

lemma read_accepted_gm_ok: "read_accepted j = Inr owner \<Longrightarrow> gm_ok (snap_records (acc_snapshot owner))"
proof (cases j)
  case (JObj ms)
  assume "read_accepted j = Inr owner"
  with JObj have "fold_result accepted_field ms zero_accepted = Inr owner" by (simp add: read_accepted_def)
  then show ?thesis
    by (rule fold_result_invariant [where P = "\<lambda>a. gm_ok (snap_records (acc_snapshot a))"])
      (auto simp: zero_accepted_def zero_snapshot_def accepted_field_def and_then_eq_Inr
        split: if_splits prod.splits dest: snapshot_into_gm_ok)
qed (auto simp: read_accepted_def read_struct_def zero_accepted_def zero_snapshot_def)

lemma interrupted_call_router:
  assumes "\<And>w url auth q. P w \<Longrightarrow> call_operation q = operation \<Longrightarrow> P (w\<lparr>rw_peers := snd (peer url auth q (rw_peers w))\<rparr>)" and "\<And>w. P w \<Longrightarrow> I w"
  shows "interrupted P (call_router peer config operation router snapshot hash)
    (\<lambda>owner w. (P w \<and> (\<exists>ps reply. peer (trim_right router CHR ''/'' @ ''/recovery'') (''Bearer '' @ cfg_router_admin_token config)
        \<lparr>call_owner = cfg_owner config, call_operation = operation, call_snapshot = snapshot, call_hash = hash\<rparr> ps
          = (reply, rw_peers w) \<and> decode_reply reply = Inr owner))
      \<and> gm_ok (snap_records (acc_snapshot owner))) I"
  unfolding call_router_def
proof (rule interrupted_perform)
  fix w assume w: "P w"
  let ?url = "trim_right router CHR ''/'' @ ''/recovery''" and ?auth = "''Bearer '' @ cfg_router_admin_token config"
    and ?q = "\<lparr>call_owner = cfg_owner config, call_operation = operation, call_snapshot = snapshot, call_hash = hash\<rparr>"
  obtain reply ps where call: "peer ?url ?auth ?q (rw_peers w) = (reply, ps)" by (metis prod.exhaust)
  have sel: "rw_peers (w\<lparr>rw_peers := ps\<rparr>) = ps" by simp
  have "P (w\<lparr>rw_peers := ps\<rparr>)" using assms(1) [OF w, of ?q ?url ?auth] unfolding call snd_conv by simp
  then show "I (snd (case peer ?url ?auth ?q (rw_peers w) of (reply, p) \<Rightarrow> (decode_reply reply, w\<lparr>rw_peers := p\<rparr>)))"
    unfolding call prod.case snd_conv by (rule assms(2))
  fix owner assume "fst (case peer ?url ?auth ?q (rw_peers w) of (reply, p) \<Rightarrow> (decode_reply reply, w\<lparr>rw_peers := p\<rparr>)) = Inr owner"
  then have "decode_reply reply = Inr owner" unfolding call prod.case fst_conv .
  moreover from this have "gm_ok (snap_records (acc_snapshot owner))"
    by (auto simp: decode_reply_def and_then_eq_Inr dest!: read_accepted_gm_ok split: if_splits)
  ultimately show "(P (snd (case peer ?url ?auth ?q (rw_peers w) of (reply, p) \<Rightarrow> (decode_reply reply, w\<lparr>rw_peers := p\<rparr>)))
      \<and> (\<exists>ps reply. peer ?url ?auth ?q ps = (reply, rw_peers (snd (case peer ?url ?auth ?q (rw_peers w) of (reply, p) \<Rightarrow>
          (decode_reply reply, w\<lparr>rw_peers := p\<rparr>)))) \<and> decode_reply reply = Inr owner))
    \<and> gm_ok (snap_records (acc_snapshot owner))"
    unfolding call prod.case snd_conv sel using \<open>P (w\<lparr>rw_peers := ps\<rparr>)\<close> call by blast
qed (use assms(2) in auto)

lemma interrupted_call_plain:
  assumes "\<And>w x. P w \<Longrightarrow> P (w\<lparr>rw_peers := x\<rparr>)" and "\<And>w. P w \<Longrightarrow> I w"
  shows "interrupted P (call_router peer config operation router snapshot hash)
    (\<lambda>owner w. P w \<and> gm_ok (snap_records (acc_snapshot owner))) I"
  by (rule interrupted_weaken [OF interrupted_call_router [where P = P and I = I]]) (use assms in blast)+

lemma interrupted_external: "(\<And>w. P w \<Longrightarrow> I w) \<Longrightarrow> interrupted P (k ()) Q I \<Longrightarrow> interrupted P (act_then external k) Q I"
  unfolding external_def by (rule interrupted_then_write [where R = P]) auto

lemma recover_open_interrupted: "(\<And>w. P w \<Longrightarrow> I w) \<Longrightarrow> interrupted P (recover_open io) (\<lambda>_. P) I"
  unfolding recover_open_def
  by (intro interrupted_external interrupted_then_read interrupted_lift) (auto split: sum.splits)

subsection \<open>The interface of the routers\<close>

text \<open>
  What the command relies on: evidence of an acknowledgement is never lost by a later request of the same
  operation, and an answer that carries the operation of a plan leaves its evidence behind.
\<close>

locale recovery_peers =
  fixes peer :: "'p router_peer"
    and sha :: "string \<Rightarrow> string"
    and operation :: string
    and ev :: "'p ack_evidence"
  assumes evidence_kept: "ev p router ps \<Longrightarrow> call_operation q = operation \<Longrightarrow> ev p router (snd (peer url auth q ps))"
    and acknowledgement: "peer (trim_right router CHR ''/'' @ ''/recovery'') auth
        \<lparr>call_owner = snap_owner (plan_snapshot p), call_operation = operation, call_snapshot = Some (plan_snapshot p),
         call_hash = Some (hex_encode (sha (plan_credential p)))\<rparr> ps = (reply, ps')
      \<Longrightarrow> decode_reply reply = Inr owner \<Longrightarrow> acc_recovery owner = Some m \<Longrightarrow> mark_operation m = operation
      \<Longrightarrow> ev p router ps'"
begin

lemma begun_saved:
  assumes "not_begun a w0 w \<or> begun c a w0 w" and "rw_guard w = Some (arg_operation a)"
  shows "begun c a w0 (w\<lparr>rw_journal := Some (Inr (marshal_journal (fresh_journal (arg_operation a) (cfg_owner c) (arg_state a))))\<rparr>)"
  using assms by (elim disjE) (simp_all add: not_begun_def begun_def, auto)

lemma begin_fresh:
  assumes site: "recovery_site c w0"
  shows "interrupted (\<lambda>w. not_begun a w0 w \<or> begun c a w0 w) (recover_begin a)
    (\<lambda>cr w. fst cr = c \<and> two_routers c \<and> snd cr = fresh_journal (arg_operation a) (cfg_owner c) (arg_state a) \<and> begun c a w0 w)
    (\<lambda>w. not_begun a w0 w \<or> begun c a w0 w)"
proof -
  let ?fresh = "fresh_journal (arg_operation a) (cfg_owner c) (arg_state a)"
  let ?I = "\<lambda>w. not_begun a w0 w \<or> begun c a w0 w"
  let ?Q = "\<lambda>cr w. fst cr = c \<and> two_routers c \<and> snd cr = ?fresh \<and> begun c a w0 w"
  have rest: "interrupted (\<lambda>w. ?I w \<and> rw_guard w = Some (arg_operation a))
      (act_then (read_world (\<lambda>w. Inr (rw_journal w))) (\<lambda>doc.
       act_then (lift_result (resume_journal a c doc)) (\<lambda>journal.
       act_then (save_journal journal) (\<lambda>_. ret (c, journal))))) ?Q ?I" if two: "two_routers c"
  proof (intro interrupted_then_read interrupted_then_lift)
    fix doc journal assume run: "resume_journal a c doc = Inr journal"
    show "interrupted (\<lambda>w. (?I w \<and> rw_guard w = Some (arg_operation a)) \<and> Inr (rw_journal w) = Inr doc)
      (act_then (save_journal journal) (\<lambda>_. ret (c, journal))) ?Q ?I"
    proof (cases "doc = None \<or> doc = Some (Inr (marshal_journal ?fresh))")
      case True
      then have "journal = ?fresh"
        using run resume_fresh resume_written [OF fresh_journal_wf, of "arg_operation a" "cfg_owner c" "arg_state a" a c]
        by (auto simp: fresh_journal_def)
      then show ?thesis unfolding save_journal_def
      proof (intro interrupted_then_write [where R = "begun c a w0"] interrupted_ret)
        fix w assume w: "(?I w \<and> rw_guard w = Some (arg_operation a)) \<and> Inr (rw_journal w) = Inr doc"
        show saved: "begun c a w0 (w\<lparr>rw_journal := Some (Inr (marshal_journal journal))\<rparr>)"
          unfolding \<open>journal = ?fresh\<close> by (rule begun_saved) (use w in blast)+
        then show "?I (w\<lparr>rw_journal := Some (Inr (marshal_journal journal))\<rparr>)" by blast
      qed (use two \<open>journal = ?fresh\<close> in auto)
    next
      case False
      then show ?thesis
        by (intro interrupted_False)
          (use site in \<open>auto simp: not_begun_def begun_def recovery_site_def\<close>)
    qed
  qed auto
  have body: "interrupted (\<lambda>w. ?I w \<and> rw_config w = Inr j)
      (act_then (lift_result (recover_config j)) (\<lambda>config.
       act_then external (\<lambda>_.
       act_then external (\<lambda>_.
       act_then (write_world (\<lambda>w. w\<lparr>rw_guard := Some (arg_operation a)\<rparr>)) (\<lambda>_.
       act_then (read_world (\<lambda>w. Inr (rw_journal w))) (\<lambda>doc.
       act_then (lift_result (resume_journal a config doc)) (\<lambda>journal.
       act_then (save_journal journal) (\<lambda>_. ret (config, journal)))))))))  ?Q ?I" for j
  proof (cases "j = marshal_config c")
    case True
    show ?thesis
    proof (intro interrupted_then_lift interrupted_external)
      fix config assume "recover_config j = Inr config"
      with True site have cfg: "config = c" and two: "two_routers c"
        using recover_config_written by (auto simp: recovery_site_def two_routers_def)
      show "interrupted (\<lambda>w. ?I w \<and> rw_config w = Inr j)
          (act_then (write_world (\<lambda>w. w\<lparr>rw_guard := Some (arg_operation a)\<rparr>)) (\<lambda>_.
           act_then (read_world (\<lambda>w. Inr (rw_journal w))) (\<lambda>doc.
           act_then (lift_result (resume_journal a config doc)) (\<lambda>journal.
           act_then (save_journal journal) (\<lambda>_. ret (config, journal)))))) ?Q ?I"
        unfolding cfg by (rule interrupted_then_write [OF _ _ _ rest [OF two]]) (auto simp: not_begun_def begun_def)
    qed auto
  next
    case False
    then show ?thesis
      by (intro interrupted_False)
        (use site in \<open>auto simp: not_begun_def begun_def recovery_site_def\<close>)
  qed
  show ?thesis unfolding recover_begin_def
    by (intro interrupted_then_lift interrupted_then_read body) auto
qed

lemma begin_planned:
  assumes site: "recovery_site c w0"
  shows "interrupted (planned ev c a w0 p) (recover_begin a)
    (\<lambda>cr w. (fst cr = c \<or> fst cr = with_token c p) \<and> two_routers c \<and> prepared ev c a w0 p (snd cr) w
      \<and> rw_guard w = Some (arg_operation a))
    (planned ev c a w0 p)"
proof -
  let ?I = "planned ev c a w0 p"
  let ?Q = "\<lambda>cr w. (fst cr = c \<or> fst cr = with_token c p) \<and> two_routers c \<and> prepared ev c a w0 p (snd cr) w
      \<and> rw_guard w = Some (arg_operation a)"
  have rest: "interrupted (\<lambda>w. ?I w \<and> rw_guard w = Some (arg_operation a))
      (act_then (read_world (\<lambda>w. Inr (rw_journal w))) (\<lambda>doc.
       act_then (lift_result (resume_journal a config doc)) (\<lambda>journal.
       act_then (save_journal journal) (\<lambda>_. ret (config, journal))))) ?Q ?I"
    if two: "two_routers c" and cfgs: "config = c \<or> config = with_token c p" for config
  proof (intro interrupted_then_read interrupted_then_lift)
    fix doc journal assume run: "resume_journal a config doc = Inr journal"
    have same: "prepared ev c a w0 p journal w \<and> w\<lparr>rw_journal := Some (Inr (marshal_journal journal))\<rparr> = w"
      if "planned ev c a w0 p w" "rw_journal w = doc" for w
    proof -
      from that(1) obtain r where r: "prepared ev c a w0 p r w" unfolding planned_def by blast
      with that(2) have "doc = Some (Inr (marshal_journal r))" by (simp add: prepared_def)
      with r have "resume_journal a config doc = Inr r"
        using cfgs by (auto simp: prepared_def journal_plan_def intro!: resume_written)
      with run r \<open>doc = Some (Inr (marshal_journal r))\<close> that show ?thesis by (auto simp: prepared_def)
    qed
    show "interrupted (\<lambda>w. (?I w \<and> rw_guard w = Some (arg_operation a)) \<and> Inr (rw_journal w) = Inr doc)
      (act_then (save_journal journal) (\<lambda>_. ret (config, journal))) ?Q ?I"
      unfolding save_journal_def
      by (intro interrupted_then_write [where R = "\<lambda>w. prepared ev c a w0 p journal w \<and> rw_guard w = Some (arg_operation a)"]
          interrupted_ret)
        (use same two cfgs in \<open>auto simp: planned_def\<close>)
  qed auto
  have guard: "?I (w\<lparr>rw_guard := Some x\<rparr>)" if "?I w" for w x
    using that by (auto simp: planned_def prepared_def installed_def)
  show ?thesis unfolding recover_begin_def
  proof (intro interrupted_then_lift interrupted_then_read interrupted_external)
    fix j config assume cfg: "recover_config j = Inr config"
    show "interrupted (\<lambda>w. ?I w \<and> rw_config w = Inr j)
          (act_then (write_world (\<lambda>w. w\<lparr>rw_guard := Some (arg_operation a)\<rparr>)) (\<lambda>_.
           act_then (read_world (\<lambda>w. Inr (rw_journal w))) (\<lambda>doc.
           act_then (lift_result (resume_journal a config doc)) (\<lambda>journal.
           act_then (save_journal journal) (\<lambda>_. ret (config, journal)))))) ?Q ?I"
    proof (cases "j = marshal_config c \<or> j = marshal_config (with_token c p)")
      case True
      with cfg site have cfgs: "config = c \<or> config = with_token c p" and two: "two_routers c"
        using recover_config_written [of c] recover_config_same [of c p] by (auto simp: recovery_site_def two_routers_def)
      show ?thesis
        by (rule interrupted_then_write [OF _ _ _ rest [OF two cfgs]]) (auto intro: guard)
    next
      case False
      then show ?thesis
        by (intro interrupted_False)
          (auto simp: planned_def prepared_def)
    qed
  qed auto
qed

lemma plan_stems_owner: "plan_stems c db p \<Longrightarrow> snap_owner (plan_snapshot p) = cfg_owner c"
proof -
  assume "plan_stems c db p"
  then obtain backup x y where snap: "daemon_snapshot no_faults db = Inr backup"
    and xy: "gm_ok (snap_records x)" "gm_ok (snap_records y)"
    and prep: "prepare_recovery (cfg_owner c) backup [x, y] = Inr (plan_snapshot p, plan_quarantined p)"
    by (auto simp: plan_stems_def)
  from snap have "gm_ok (snap_records backup)"
    by (auto simp: daemon_snapshot_def and_then_eq_Inr intro: read_snapshot_gm_ok)
  from prepare_recovery_ok(4) [OF prep this] xy show ?thesis by simp
qed

lemma begun_peers: "begun c a w0 w \<Longrightarrow> begun c a w0 (w\<lparr>rw_peers := p\<rparr>)"
  by (simp add: begun_def)

lemma collect_begun:
  assumes "\<And>w. begun c a w0 w \<Longrightarrow> I w"
  shows "interrupted (begun c a w0) (collect_router peer config op router m)
    (\<lambda>m' w. begun c a w0 w \<and> (\<exists>x. gm_ok (snap_records x) \<and> merge_owner x m = Inr m')) I"
  unfolding collect_router_def
proof (rule interrupted_then [OF interrupted_call_plain])
  fix owner
  show "interrupted (\<lambda>w. begun c a w0 w \<and> gm_ok (snap_records (acc_snapshot owner)))
    (lift_result (merge_owner (acc_snapshot owner) m))
    (\<lambda>m' w. begun c a w0 w \<and> (\<exists>x. gm_ok (snap_records x) \<and> merge_owner x m = Inr m')) I"
    by (rule interrupted_lift) (use assms in \<open>auto split: sum.splits\<close>)
qed (use assms begun_peers in auto)

lemma load_backup_begun:
  assumes "\<And>w. begun c a w0 w \<Longrightarrow> I w"
  shows "interrupted (begun c a w0) (load_backup config)
    (\<lambda>backup w. begun c a w0 w \<and> daemon_snapshot no_faults (rw_db w0) = Inr backup) I"
  unfolding load_backup_def
  by (intro interrupted_then_read interrupted_then_lift interrupted_ret)
    (use assms in \<open>auto simp: begun_def daemon_snapshot_def\<close>)

lemma prepare_begun:
  assumes site: "recovery_site c w0" and two: "two_routers c"
  shows "interrupted (begun c a w0) (recover_prepare peer c (arg_operation a) io
      (fresh_journal (arg_operation a) (cfg_owner c) (arg_state a)))
    (\<lambda>r w. \<exists>p. prepared ev c a w0 p r w \<and> rw_guard w = Some (arg_operation a))
    (\<lambda>w. begun c a w0 w \<or> (\<exists>p. planned ev c a w0 p w))"
proof -
  let ?fresh = "fresh_journal (arg_operation a) (cfg_owner c) (arg_state a)"
  let ?I = "\<lambda>w. begun c a w0 w \<or> (\<exists>p. planned ev c a w0 p w)"
  let ?Q = "\<lambda>r w. \<exists>p. prepared ev c a w0 p r w \<and> rw_guard w = Some (arg_operation a)"
  obtain x y where xy: "cfg_routers c = [x, y]" using two by (auto simp: two_routers_def)
  have freeze: "interrupted (begun c a w0) (fold_act (freeze_router peer c (arg_operation a)) (cfg_routers c) ())
      (\<lambda>_. begun c a w0) ?I"
    unfolding freeze_router_def
    by (intro interrupted_fold [where R = "\<lambda>_. begun c a w0"] interrupted_then [OF interrupted_call_plain] interrupted_ret)
      (auto intro: begun_peers)
  have last: "interrupted (begun c a w0)
      (act_then (lift_result (advance_snapshot merged)) (\<lambda>advanced.
       case restore_backup backup (jr_quarantined ?fresh) advanced of (s, quarantined) \<Rightarrow>
         act_then (read_world (\<lambda>_. Inr (io_random io))) (\<lambda>credential.
         let journal' = ?fresh\<lparr>jr_quarantined := quarantined, jr_credential := hex_encode credential, jr_snapshot := Some s\<rparr> in
         act_then (save_journal journal') (\<lambda>_. ret journal')))) ?Q ?I"
    if snap: "daemon_snapshot no_faults (rw_db w0) = Inr backup"
      and m: "gm_ok (snap_records u)" "gm_ok (snap_records v)" "merge_owner u (merge_start (cfg_owner c) backup) = Inr m1"
        "merge_owner v m1 = Inr merged" for backup u v m1 merged
  proof (rule interrupted_then_lift)
    fix advanced assume adv: "advance_snapshot merged = Inr advanced"
    obtain s q where sq: "restore_backup backup [] advanced = (s, q)" by (metis prod.exhaust)
    from m(3,4) adv sq have prep: "prepare_recovery (cfg_owner c) backup [u, v] = Inr (s, q)"
      by (simp add: prepare_recovery_def)
    have "gm_ok (snap_records backup)"
      using snap by (auto simp: daemon_snapshot_def and_then_eq_Inr intro: read_snapshot_gm_ok)
    with prepare_recovery_ok(1-3) [OF prep] m(1,2) have wf: "snapshot_wf s" "gm_ok q" by (auto simp: snapshot_wf_def)
    have saved: "prepared ev c a w0 \<lparr>plan_snapshot = s, plan_credential = cred, plan_quarantined = q\<rparr>
        (?fresh\<lparr>jr_quarantined := q, jr_credential := cred, jr_snapshot := Some s\<rparr>)
        (w\<lparr>rw_journal := Some (Inr (marshal_journal (?fresh\<lparr>jr_quarantined := q, jr_credential := cred, jr_snapshot := Some s\<rparr>)))\<rparr>)
      \<and> rw_guard w = Some (arg_operation a)" if "begun c a w0 w" for w cred
      using site that wf prep snap m(1,2)
      by (auto simp: prepared_def journal_plan_def journal_wf_def fresh_journal_def begun_def plan_stems_def recovery_site_def)
    show "interrupted (begun c a w0) (case restore_backup backup (jr_quarantined ?fresh) advanced of (s, quarantined) \<Rightarrow>
         act_then (read_world (\<lambda>_. Inr (io_random io))) (\<lambda>credential.
         let journal' = ?fresh\<lparr>jr_quarantined := quarantined, jr_credential := hex_encode credential, jr_snapshot := Some s\<rparr> in
         act_then (save_journal journal') (\<lambda>_. ret journal'))) ?Q ?I"
    proof -
      have "interrupted (begun c a w0) (act_then (read_world (\<lambda>_. Inr (io_random io))) (\<lambda>credential.
         let journal' = ?fresh\<lparr>jr_quarantined := q, jr_credential := hex_encode credential, jr_snapshot := Some s\<rparr> in
         act_then (save_journal journal') (\<lambda>_. ret journal'))) ?Q ?I"
        unfolding Let_def save_journal_def
      proof (intro interrupted_then_read)
        fix cred
        let ?r = "?fresh\<lparr>jr_quarantined := q, jr_credential := hex_encode cred, jr_snapshot := Some s\<rparr>"
        show "interrupted (\<lambda>w. begun c a w0 w \<and> Inr (io_random io) = Inr cred)
            (act_then (write_world (\<lambda>w. w\<lparr>rw_journal := Some (Inr (marshal_journal ?r))\<rparr>)) (\<lambda>_. ret ?r)) ?Q ?I"
          by (rule interrupted_then_write [where R = "?Q ?r"], blast)
            (use saved in \<open>fastforce simp: planned_def intro!: interrupted_ret\<close>)+
      qed auto
      then show ?thesis by (simp add: sq fresh_journal_def)
    qed
  qed auto
  have collect: "interrupted (\<lambda>w. begun c a w0 w \<and> daemon_snapshot no_faults (rw_db w0) = Inr backup)
      (act_then (fold_act (collect_router peer c (arg_operation a)) (cfg_routers c) (merge_start (cfg_owner c) backup))
       (\<lambda>merged. act_then (lift_result (advance_snapshot merged)) (\<lambda>advanced.
       case restore_backup backup (jr_quarantined ?fresh) advanced of (s, quarantined) \<Rightarrow>
         act_then (read_world (\<lambda>_. Inr (io_random io))) (\<lambda>credential.
         let journal' = ?fresh\<lparr>jr_quarantined := quarantined, jr_credential := hex_encode credential, jr_snapshot := Some s\<rparr> in
         act_then (save_journal journal') (\<lambda>_. ret journal'))))) ?Q ?I" for backup
  proof (rule interrupted_pure, rule interrupted_then)
    assume snap: "daemon_snapshot no_faults (rw_db w0) = Inr backup"
    let ?R = "\<lambda>merged. \<exists>u v m1. gm_ok (snap_records u) \<and> gm_ok (snap_records v)
        \<and> merge_owner u (merge_start (cfg_owner c) backup) = Inr m1 \<and> merge_owner v m1 = Inr merged"
    show "interrupted (begun c a w0)
        (fold_act (collect_router peer c (arg_operation a)) (cfg_routers c) (merge_start (cfg_owner c) backup))
        (\<lambda>merged w. begun c a w0 w \<and> ?R merged) ?I"
      unfolding xy fold_act.simps
    proof (rule interrupted_then)
      show "interrupted (begun c a w0) (collect_router peer c (arg_operation a) x (merge_start (cfg_owner c) backup))
          (\<lambda>m w. begun c a w0 w \<and> (\<exists>x. gm_ok (snap_records x) \<and> merge_owner x (merge_start (cfg_owner c) backup) = Inr m)) ?I"
        by (rule collect_begun) simp
      fix m1
      show "interrupted (\<lambda>w. begun c a w0 w \<and> (\<exists>x. gm_ok (snap_records x) \<and> merge_owner x (merge_start (cfg_owner c) backup) = Inr m1))
          (act_then (collect_router peer c (arg_operation a) y m1) (\<lambda>a. ret a))
          (\<lambda>merged w. begun c a w0 w \<and> ?R merged) ?I"
        by (rule interrupted_pure, rule interrupted_then [OF collect_begun], blast, rule interrupted_ret, blast)
    qed
    fix merged
    show "interrupted (\<lambda>w. begun c a w0 w \<and> ?R merged)
      (act_then (lift_result (advance_snapshot merged)) (\<lambda>advanced.
       case restore_backup backup (jr_quarantined ?fresh) advanced of (s, quarantined) \<Rightarrow>
         act_then (read_world (\<lambda>_. Inr (io_random io))) (\<lambda>credential.
         let journal' = ?fresh\<lparr>jr_quarantined := quarantined, jr_credential := hex_encode credential, jr_snapshot := Some s\<rparr> in
         act_then (save_journal journal') (\<lambda>_. ret journal')))) ?Q ?I"
      by (rule interrupted_pure) (use last [OF snap] in blast)
  qed
  show ?thesis unfolding recover_prepare_def
    by (rule interrupted_then [OF load_backup_begun], blast,
        rule interrupted_then [where R = "\<lambda>_ w. begun c a w0 w \<and> daemon_snapshot no_faults (rw_db w0) = Inr backup" for backup],
        rule interrupted_pure) (use freeze collect in auto)
qed

lemma fenced_peers:
  "fenced ev c a w0 p r w \<Longrightarrow> call_operation q = operation \<Longrightarrow> fenced ev c a w0 p r (w\<lparr>rw_peers := snd (peer url auth q (rw_peers w))\<rparr>)"
  by (auto simp: fenced_def prepared_def installed_def intro: evidence_kept)

lemma fenced_planned: "fenced ev c a w0 p r w \<Longrightarrow> planned ev c a w0 p w"
  by (auto simp: fenced_def planned_def)

lemma fenced_acknowledge:
  assumes "fenced ev c a w0 p r w" and "ev p router (rw_peers w)"
    and r': "r' = r\<lparr>jr_acknowledgements := gm_put router d (jr_acknowledgements r)\<rparr>"
  shows "fenced ev c a w0 p r' (w\<lparr>rw_journal := Some (Inr (marshal_journal r'))\<rparr>)"
proof -
  have "prepared ev c a w0 p r w" using assms(1) by (simp add: fenced_def)
  then have "journal_plan c a p r'" "\<forall>k. gm_get (jr_acknowledgements r') k \<noteq> None \<longrightarrow> ev p k (rw_peers w)"
    and "installed c p r w \<Longrightarrow> installed c p r' w"
    using assms(2) by (auto simp: prepared_def r' journal_plan_def journal_wf_def installed_def gm.get_put)
  with assms(1) show ?thesis by (simp add: fenced_def prepared_def installed_def r')
qed

text \<open>What the answer of a router shows, in a journal that carries the plan.\<close>

lemma answered:
  assumes "fenced ev c a w0 p r w" and op: "arg_operation a = operation" and owner: "cfg_owner config = cfg_owner c"
    and call: "peer (trim_right router CHR ''/'' @ ''/recovery'') auth
      \<lparr>call_owner = cfg_owner config, call_operation = arg_operation a, call_snapshot = jr_snapshot r,
       call_hash = Some (hex_encode (sha (jr_credential r)))\<rparr> ps = (reply, rw_peers w)"
    and reply: "decode_reply reply = Inr answer" "acc_recovery answer = Some m" "mark_operation m = arg_operation a"
  shows "ev p router (rw_peers w)"
proof -
  from assms(1) have plan: "journal_plan c a p r" and stems: "plan_stems c (rw_db w0) p"
    by (auto simp: fenced_def prepared_def)
  from plan_stems_owner [OF stems] plan owner op call show ?thesis
    by (intro acknowledgement [OF _ reply [unfolded op]]) (simp add: journal_plan_def)
qed

lemma acknowledge_fenced:
  assumes op: "arg_operation a = operation" and owner: "cfg_owner config = cfg_owner c"
  shows "interrupted (fenced ev c a w0 p r) (acknowledge_router sha peer config a (i, router) (r, d))
     (\<lambda>rd w. fenced ev c a w0 p (fst rd) w
       \<and> (\<forall>k. k = router \<or> gm_get (jr_acknowledgements r) k \<noteq> None \<longrightarrow> gm_get (jr_acknowledgements (fst rd)) k \<noteq> None))
     (planned ev c a w0 p)"
  unfolding acknowledge_router_def prod.case
proof (rule interrupted_then)
  let ?P = "\<lambda>answer w. fenced ev c a w0 p r w
      \<and> (\<forall>m. acc_recovery answer = Some m \<longrightarrow> mark_operation m = arg_operation a \<longrightarrow> ev p router (rw_peers w))"
  show "interrupted (fenced ev c a w0 p r) (call_router peer config (arg_operation a) router (jr_snapshot r)
      (Some (hex_encode (sha (jr_credential r))))) ?P (planned ev c a w0 p)"
    by (rule interrupted_weaken [OF interrupted_call_router [where P = "fenced ev c a w0 p r" and I = "planned ev c a w0 p"]])
      (erule fenced_peers, simp add: op, erule fenced_planned, assumption, simp only:, intro allI impI conjI,
        blast, use answered [OF _ op owner] in blast, assumption)
  fix answer
  let ?P = "?P answer"
  let ?Q = "\<lambda>rd w. fenced ev c a w0 p (fst rd) w
       \<and> (\<forall>k. k = router \<or> gm_get (jr_acknowledgements r) k \<noteq> None \<longrightarrow> gm_get (jr_acknowledgements (fst rd)) k \<noteq> None)"
  have fail: "interrupted ?P (lift_result (Inl e)) ?Q (planned ev c a w0 p)" for e
    by (rule interrupted_lift) (auto intro: fenced_planned)
  show "interrupted ?P (case acc_recovery answer of
       None \<Rightarrow> lift_result (Inl ''router did not acknowledge recovery identity'')
     | Some m \<Rightarrow>
       if mark_operation m \<noteq> arg_operation a then lift_result (Inl ''router did not acknowledge recovery identity'')
       else if i \<noteq> 0 \<and> mark_digest m \<noteq> d then lift_result (Inl ''routers acknowledged different recovery results'')
       else (let resultDigest' = (if i = 0 then mark_digest m else d);
                 journal' = r\<lparr>jr_acknowledgements := gm_put router (mark_digest m) (jr_acknowledgements r)\<rparr> in
         act_then (save_journal journal') (\<lambda>_.
           if i = 0 \<and> arg_crash a then lift_result (Inl ''exit status 77'') else ret (journal', resultDigest')))) ?Q
     (planned ev c a w0 p)"
    unfolding Let_def save_journal_def
  proof (intro interrupted_option interrupted_if fail)
    fix m :: recovery_mark
    let ?r = "r\<lparr>jr_acknowledgements := gm_put router (mark_digest m) (jr_acknowledgements r)\<rparr>"
    assume "acc_recovery answer = Some m" "\<not> mark_operation m \<noteq> arg_operation a"
    then show "interrupted ?P (act_then (write_world (\<lambda>w. w\<lparr>rw_journal := Some (Inr (marshal_journal ?r))\<rparr>)) (\<lambda>_.
           if i = 0 \<and> arg_crash a then lift_result (Inl ''exit status 77'') else ret (?r, if i = 0 then mark_digest m else d)))
         ?Q (planned ev c a w0 p)"
      by (intro interrupted_then_write [where R = "fenced ev c a w0 p ?r"])
        (auto intro!: interrupted_if interrupted_lift interrupted_ret intro: fenced_planned fenced_acknowledge [OF _ _ refl]
          simp: gm.get_put)
  qed
qed

lemma recover_acknowledge_fenced:
  assumes op: "arg_operation a = operation" and owner: "cfg_owner config = cfg_owner c"
    and two: "two_routers c" and routers: "cfg_routers config = cfg_routers c"
  shows "interrupted (fenced ev c a w0 p r) (recover_acknowledge sha peer config a r)
    (\<lambda>r' w. fenced ev c a w0 p r' w \<and> (\<forall>k \<in> set (cfg_routers c). gm_get (jr_acknowledgements r') k \<noteq> None)) (planned ev c a w0 p)"
proof -
  obtain x y where xy: "cfg_routers c = [x, y]" using two by (auto simp: two_routers_def)
  let ?done = "\<lambda>rd w. fenced ev c a w0 p (fst rd) w \<and> (\<forall>k \<in> {x, y}. gm_get (jr_acknowledgements (fst rd)) k \<noteq> None)"
  have second: "interrupted (\<lambda>w. fenced ev c a w0 p (fst rd) w \<and> gm_get (jr_acknowledgements (fst rd)) x \<noteq> None)
      (act_then (acknowledge_router sha peer config a (Suc 0, y) rd) (\<lambda>rd. ret rd)) ?done (planned ev c a w0 p)" for rd
    by (rule interrupted_pure, cases rd, simp only: fst_conv,
        rule interrupted_then [OF acknowledge_fenced [OF op owner] interrupted_ret]) auto
  have both: "interrupted (fenced ev c a w0 p r)
      (fold_act (acknowledge_router sha peer config a) (enumerate 0 [x, y]) (r, [])) ?done (planned ev c a w0 p)"
    unfolding enumerate_simps fold_act.simps
    by (rule interrupted_then [OF interrupted_weaken [OF acknowledge_fenced [OF op owner]] second]) auto
  show ?thesis unfolding recover_acknowledge_def routers xy
    by (rule interrupted_then [OF both]) (auto intro!: interrupted_ret split: prod.splits)
qed

lemma install_database:
  "interrupted (fenced ev c a w0 p r)
    (perform (\<lambda>w. case update_state (marshal_snapshot (plan_snapshot p)) (rw_db w) of (n, db) \<Rightarrow> (Inr n, w\<lparr>rw_db := db\<rparr>)))
    (\<lambda>n w. fenced ev c a w0 p r w \<and> (n = 1 \<longrightarrow> routing_state (rw_db w) = Some (marshal_snapshot (plan_snapshot p))))
    (planned ev c a w0 p)"
proof (rule interrupted_perform)
  fix w assume w: "fenced ev c a w0 p r w"
  let ?db = "snd (update_state (marshal_snapshot (plan_snapshot p)) (rw_db w))"
  let ?w = "w\<lparr>rw_db := ?db\<rparr>"
  have "fenced ev c a w0 p r ?w"
    using w by (auto simp: update_state_def fenced_def prepared_def installed_def split: option.splits)
  then show "planned ev c a w0 p (snd (case update_state (marshal_snapshot (plan_snapshot p)) (rw_db w) of
      (n, db) \<Rightarrow> (Inr n, w\<lparr>rw_db := db\<rparr>)))"
    by (auto simp: split_beta intro: fenced_planned)
  fix n assume "fst (case update_state (marshal_snapshot (plan_snapshot p)) (rw_db w) of
      (n, db) \<Rightarrow> (Inr n, w\<lparr>rw_db := db\<rparr>)) = Inr n"
  with \<open>fenced ev c a w0 p r ?w\<close> show "fenced ev c a w0 p r (snd (case update_state (marshal_snapshot (plan_snapshot p)) (rw_db w) of
      (n, db) \<Rightarrow> (Inr n, w\<lparr>rw_db := db\<rparr>)))
    \<and> (n = 1 \<longrightarrow> routing_state (rw_db (snd (case update_state (marshal_snapshot (plan_snapshot p)) (rw_db w) of
      (n, db) \<Rightarrow> (Inr n, w\<lparr>rw_db := db\<rparr>)))) = Some (marshal_snapshot (plan_snapshot p)))"
    by (auto simp: split_beta update_state_def split: option.splits)
qed (auto intro: fenced_planned)

lemma recover_install_fenced:
  assumes cfg: "config = c \<or> config = with_token c p"
    and acks: "\<forall>k \<in> set (cfg_routers c). gm_get (jr_acknowledgements r) k \<noteq> None"
    and cred: "jr_credential r = plan_credential p"
  shows "interrupted (fenced ev c a w0 p r) (recover_install config r (plan_snapshot p)) (\<lambda>_. recovered ev c a w0 p) (planned ev c a w0 p)"
proof -
  let ?state = "\<lambda>w. routing_state (rw_db w) = Some (marshal_snapshot (plan_snapshot p))"
  let ?R = "\<lambda>w. fenced ev c a w0 p r w \<and> ?state w"
  let ?config = "\<lambda>w. w\<lparr>rw_config := Inr (marshal_config (config\<lparr>cfg_token := jr_credential r\<rparr>))\<rparr>"
  let ?last = "r\<lparr>jr_complete := True\<rparr>"
  have token: "config\<lparr>cfg_token := jr_credential r\<rparr> = with_token c p"
    using cfg cred by (auto simp: with_token_def)
  have wr: "?R (?config w) \<and> rw_config (?config w) = Inr (marshal_config (with_token c p))" if "?R w" for w
    using that token by (auto simp: fenced_def prepared_def installed_def)
  have fin: "fenced ev c a w0 p ?last (w\<lparr>rw_journal := Some (Inr (marshal_journal ?last))\<rparr>)"
    if "?R w" "rw_config w = Inr (marshal_config (with_token c p))" for w
    using that acks by (auto simp: fenced_def prepared_def installed_def journal_plan_def journal_wf_def)
  have gone: "recovered ev c a w0 p (w\<lparr>rw_guard := None\<rparr>)" if "fenced ev c a w0 p ?last w" for w
    using that by (auto simp: recovered_def planned_def fenced_def prepared_def installed_def intro!: exI [of _ ?last])
  have tail: "interrupted (fenced ev c a w0 p ?last)
      (act_then (write_world (\<lambda>w. w\<lparr>rw_guard := None\<rparr>)) (\<lambda>_. act_then external (\<lambda>_. act_then external (\<lambda>_. ret x))))
      (\<lambda>_. recovered ev c a w0 p) (planned ev c a w0 p)" for x
    by (rule interrupted_then_write [where R = "recovered ev c a w0 p"])
      (auto intro!: interrupted_external interrupted_ret dest: gone fenced_planned simp: recovered_def)
  show ?thesis unfolding recover_install_def
  proof (rule interrupted_then [OF install_database], rule interrupted_then_read, blast intro: fenced_planned,
      rule interrupted_then_lift, blast intro: fenced_planned)
    fix n m u assume "guard (m = 1) ''restored owner row missing'' = Inr u"
    then have "m = 1" by simp
    show "interrupted (\<lambda>w. (fenced ev c a w0 p r w \<and> (n = 1 \<longrightarrow> ?state w)) \<and> Inr n = Inr m)
       (act_then (write_world ?config) (\<lambda>_. act_then (save_journal ?last) (\<lambda>_.
        act_then (write_world (\<lambda>w. w\<lparr>rw_guard := None\<rparr>)) (\<lambda>_. act_then external (\<lambda>_. act_then external (\<lambda>_.
        ret (length (jr_quarantined r), length (jr_acknowledgements r)))))))) (\<lambda>_. recovered ev c a w0 p) (planned ev c a w0 p)"
      unfolding save_journal_def
    proof (rule interrupted_then_write [where R = "\<lambda>w. ?R w \<and> rw_config w = Inr (marshal_config (with_token c p))"],
        goal_cases)
      case (1 w) then show ?case by (blast intro: fenced_planned)
    next
      case (2 w) then show ?case using wr \<open>m = 1\<close> by (blast intro: fenced_planned)
    next
      case (3 w) then show ?case using wr \<open>m = 1\<close> by blast
    next
      case 4
      show ?case
        by (rule interrupted_then_write [OF _ _ _ tail]) (use fin in \<open>blast intro: fenced_planned\<close>)+
    qed
  qed
qed

subsection \<open>The whole command\<close>

lemma recover_send_fenced:
  assumes op: "arg_operation a = operation" and two: "two_routers c" and cfg: "config = c \<or> config = with_token c p"
  shows "interrupted (fenced ev c a w0 p r) (recover_send sha peer a config r) (\<lambda>_. recovered ev c a w0 p) (planned ev c a w0 p)"
  unfolding recover_send_def
proof (rule interrupted_then_lift, blast intro: fenced_planned)
  fix s assume s: "prepared_snapshot config r = Inr s"
  have owner: "cfg_owner config = cfg_owner c" and routers: "cfg_routers config = cfg_routers c" using cfg by auto
  have inst: "interrupted (\<lambda>w. fenced ev c a w0 p r' w \<and> (\<forall>k \<in> set (cfg_routers c). gm_get (jr_acknowledgements r') k \<noteq> None))
      (recover_install config r' s) (\<lambda>_. recovered ev c a w0 p) (planned ev c a w0 p)" if "s = plan_snapshot p" for r'
  proof (rule interrupted_pure)
    assume acks: "\<forall>k \<in> set (cfg_routers c). gm_get (jr_acknowledgements r') k \<noteq> None"
    show "interrupted (fenced ev c a w0 p r') (recover_install config r' s) (\<lambda>_. recovered ev c a w0 p) (planned ev c a w0 p)"
    proof (cases "jr_credential r' = plan_credential p")
      case True
      from recover_install_fenced [OF cfg acks True] show ?thesis unfolding \<open>s = plan_snapshot p\<close> .
    next
      case False
      then show ?thesis by (intro interrupted_False) (auto simp: fenced_def prepared_def journal_plan_def)
    qed
  qed
  show "interrupted (fenced ev c a w0 p r)
    (act_then (recover_acknowledge sha peer config a r) (\<lambda>r'. recover_install config r' s))
    (\<lambda>_. recovered ev c a w0 p) (planned ev c a w0 p)"
  proof (cases "jr_snapshot r = Some (plan_snapshot p)")
    case True
    with s have "s = plan_snapshot p" by (auto simp: prepared_snapshot_def split: if_splits option.splits)
    from inst [OF this] show ?thesis by (rule interrupted_then [OF recover_acknowledge_fenced [OF op owner two routers]])
  next
    case False
    then show ?thesis by (intro interrupted_False) (auto simp: fenced_def prepared_def journal_plan_def)
  qed
qed

lemma recoverWorker_planned:
  assumes op: "arg_operation a = operation" and site: "recovery_site c w0"
  shows "interrupted (planned ev c a w0 p) (recoverWorker sha peer a io) (\<lambda>_. recovered ev c a w0 p) (planned ev c a w0 p)"
  unfolding recoverWorker_def
proof (rule interrupted_then [OF begin_planned [OF site]])
  fix cr :: "daemonConfig \<times> recoveryJournal"
  obtain config r where cr: "cr = (config, r)" by (cases cr)
  have "interrupted (\<lambda>w. fenced ev c a w0 p r w \<and> ((config = c \<or> config = with_token c p) \<and> two_routers c))
      (recover_fenced sha peer a io cr) (\<lambda>_. recovered ev c a w0 p) (planned ev c a w0 p)"
  proof (rule interrupted_pure, elim conjE)
    assume cfg: "config = c \<or> config = with_token c p" and two: "two_routers c"
    show "interrupted (fenced ev c a w0 p r) (recover_fenced sha peer a io cr) (\<lambda>_. recovered ev c a w0 p) (planned ev c a w0 p)"
    proof (cases "jr_snapshot r = None")
      case True
      then show ?thesis by (intro interrupted_False) (auto simp: fenced_def prepared_def journal_plan_def)
    next
      case False
      then have eq: "recover_fenced sha peer a io cr = act_then (recover_open io) (\<lambda>_. act_then (ret r) (recover_send sha peer a config))"
        unfolding recover_fenced_def cr prod.case by (simp only: if_False)
      show ?thesis unfolding eq
        by (rule interrupted_then [OF recover_open_interrupted], erule fenced_planned,
            rule interrupted_then_ret, rule recover_send_fenced [OF op two cfg])
    qed
  qed
  then show "interrupted (\<lambda>w. (fst cr = c \<or> fst cr = with_token c p) \<and> two_routers c \<and> prepared ev c a w0 p (snd cr) w
      \<and> rw_guard w = Some (arg_operation a))
    (recover_fenced sha peer a io cr) (\<lambda>_. recovered ev c a w0 p) (planned ev c a w0 p)"
    by (rule interrupted_weaken) (simp_all add: cr fenced_def)
qed

lemma recoverWorker_fresh:
  assumes op: "arg_operation a = operation" and site: "recovery_site c w0"
  shows "interrupted (\<lambda>w. not_begun a w0 w \<or> begun c a w0 w) (recoverWorker sha peer a io)
    (\<lambda>_ w. \<exists>p. recovered ev c a w0 p w) (recovery_inv ev c a w0)"
  unfolding recoverWorker_def
proof (rule interrupted_then [OF interrupted_weaken [OF begin_fresh [OF site]]], assumption, assumption)
  fix cr :: "daemonConfig \<times> recoveryJournal"
  let ?fresh = "fresh_journal (arg_operation a) (cfg_owner c) (arg_state a)"
  let ?I = "recovery_inv ev c a w0" and ?Q = "\<lambda>_ w. \<exists>p. recovered ev c a w0 p w"
  have "interrupted (\<lambda>w. begun c a w0 w \<and> (cr = (c, ?fresh) \<and> two_routers c)) (recover_fenced sha peer a io cr) ?Q ?I"
  proof (rule interrupted_pure, elim conjE)
    assume cr: "cr = (c, ?fresh)" and two: "two_routers c"
    have eq: "recover_fenced sha peer a io cr = act_then (recover_open io) (\<lambda>_.
        act_then (recover_prepare peer c (arg_operation a) io ?fresh) (recover_send sha peer a c))"
      by (simp add: recover_fenced_def cr) (simp add: fresh_journal_def)
    have send: "interrupted (\<lambda>w. \<exists>p. prepared ev c a w0 p r w \<and> rw_guard w = Some (arg_operation a))
        (recover_send sha peer a c r) ?Q ?I" for r
      by (rule interrupted_ex, rule interrupted_weaken [OF recover_send_fenced [OF op two disjI1 [OF refl]]])
        (auto simp: fenced_def recovery_inv_def)
    have prep: "interrupted (begun c a w0) (recover_prepare peer c (arg_operation a) io ?fresh)
        (\<lambda>r w. \<exists>p. prepared ev c a w0 p r w \<and> rw_guard w = Some (arg_operation a)) ?I"
      by (rule interrupted_weaken [OF prepare_begun [OF site two]]) (auto simp: recovery_inv_def)
    show "interrupted (begun c a w0) (recover_fenced sha peer a io cr) ?Q ?I"
      unfolding eq
      by (rule interrupted_then [OF recover_open_interrupted interrupted_then [OF prep send]]) (simp add: recovery_inv_def)
  qed
  then show "interrupted (\<lambda>w. fst cr = c \<and> two_routers c \<and> snd cr = ?fresh \<and> begun c a w0 w)
    (recover_fenced sha peer a io cr) ?Q ?I"
    by (rule interrupted_weaken) (auto simp: prod_eq_iff)
qed (auto simp: recovery_inv_def)

end

end
