(* ===== verification/Recovery_Peers.thy ===== *)
theory Recovery_Peers
  imports Recovery_Crash
begin

section \<open>The routers as peers of a recovery\<close>

text \<open>
  The handler \<^verbatim>\<open>recover\<close> of \<^verbatim>\<open>routing/src/main.rs\<close> on the routing state, and a network of routers by URL: an
  implementation of the interface the recovery command relies on. A busy writer or a failed save is an
  outcome of the call, not of the handler.
\<close>

record router_server =
  srv_admin :: string
  srv_owners :: "(string, string list) go_map"
  srv_state :: router_state

text \<open>The parameters: the bytes of a state and of an owner in JSON, and the digest of a recovery result.\<close>

record router_sizes =
  size_state :: "router_state \<Rightarrow> nat"
  size_owner :: "owner_entry \<Rightarrow> nat"
  digest_result :: "string \<times> routeSnapshot \<times> string \<Rightarrow> string"

definition refuse :: "nat \<Rightarrow> router_reply" where
  "refuse status = \<lparr>rep_status = status, rep_length = 64, rep_body = Inl ''refused''\<rparr>"

definition recovery_result :: "router_sizes \<Rightarrow> recovery_request \<Rightarrow> string list \<Rightarrow> router_state \<Rightarrow> router_state result" where
  "recovery_result z q applications st =
     (case (call_snapshot q, call_hash q) of
        (None, None) \<Rightarrow> freeze st (call_owner q) (call_operation q)
      | (Some s, Some hash) \<Rightarrow>
          if snap_owner s = call_owner q then
            router_recover (size_state z) (digest_result z) st (call_operation q) s hash
              \<lparr>pol_applications = applications, pol_record_limit = 4096, pol_view_limit = 16 * 1024 * 1024\<rparr>
          else Inl ''incomplete recovery result''
      | _ \<Rightarrow> Inl ''incomplete recovery result'')"

definition recovery_handler :: "router_sizes \<Rightarrow> string \<Rightarrow> recovery_request \<Rightarrow> router_server \<Rightarrow> router_reply \<times> router_server" where
  "recovery_handler z authorization q srv =
     (if length (srv_admin srv) < 32 \<or> authorization \<noteq> ''Bearer '' @ srv_admin srv then (refuse 401, srv)
      else case gm_get (srv_owners srv) (call_owner q) of
        None \<Rightarrow> (refuse 404, srv)
      | Some applications \<Rightarrow>
        (case recovery_result z q applications (srv_state srv) of
          Inl e \<Rightarrow> (refuse 409, srv)
        | Inr candidate \<Rightarrow>
          (case gm_get (rt_owners candidate) (call_owner q) of
            None \<Rightarrow> (refuse 500, srv)
          | Some e \<Rightarrow> (\<lparr>rep_status = 200, rep_length = size_owner z e, rep_body = Inr (marshal_owner e)\<rparr>,
              srv\<lparr>srv_state := candidate\<rparr>))))"

type_synonym router_network = "(string, router_server) go_map"

definition network_peer :: "router_sizes \<Rightarrow> router_network router_peer" where
  "network_peer z url authorization q net =
     (case gm_get net url of None \<Rightarrow> (refuse 404, net)
      | Some srv \<Rightarrow> (case recovery_handler z authorization q srv of (reply, srv') \<Rightarrow> (reply, gm_put url srv' net)))"

text \<open>The recovery mark of an owner on a router.\<close>

definition router_mark :: "router_state \<Rightarrow> string \<Rightarrow> recovery_mark option" where
  "router_mark st owner = Option.bind (gm_get (rt_owners st) owner) own_recovery"

definition marked :: "router_sizes \<Rightarrow> (string \<Rightarrow> string) \<Rightarrow> string \<Rightarrow> recovery_plan \<Rightarrow> string \<Rightarrow> router_network \<Rightarrow> bool" where
  "marked z sha operation p router net \<longleftrightarrow>
     (case gm_get net (trim_right router CHR ''/'' @ ''/recovery'') of None \<Rightarrow> False
      | Some srv \<Rightarrow> router_mark (srv_state srv) (snap_owner (plan_snapshot p)) = Some \<lparr>mark_operation = operation,
          mark_digest = digest_result z (operation, plan_snapshot p, hex_encode (sha (plan_credential p)))\<rparr>)"

subsection \<open>A mark stays\<close>

lemma freeze_keeps_mark:
  assumes "freeze st owner operation = Inr st'" and "router_mark st o' = Some m"
  shows "router_mark st' o' = Some m"
  using assms
  by (auto simp: freeze_def router_mark_def and_then_eq_Inr gm.get_put split: if_splits option.splits)

lemma router_accept_other:
  "router_accept json_bytes st owner s policy now = Inr st' \<Longrightarrow> o' \<noteq> snap_owner s \<Longrightarrow>
     gm_get (rt_owners st') o' = gm_get (rt_owners st) o'"
  by (auto simp: router_accept_def Let_def and_then_eq_Inr gm.get_put split: if_splits)

lemma recover_keeps_mark:
  assumes "router_recover json_bytes digest_of st operation s credential policy = Inr st'"
    and "router_mark st o' = Some m" and "mark_operation m = operation"
  shows "router_mark st' o' = Some m"
proof (cases "o' = snap_owner s")
  case True
  with assms show ?thesis
    by (auto simp: router_recover_def router_mark_def split: if_splits option.splits)
next
  case False
  with assms(1) have "gm_get (rt_owners st') o' = gm_get (rt_owners st) o'"
    by (auto simp: router_recover_def Let_def and_then_eq_Inr gm.get_put dest!: router_accept_other
        split: if_splits option.splits)
  with assms(2) show ?thesis by (simp add: router_mark_def)
qed

text \<open>Success leaves the mark of the operation with the digest of this result.\<close>

lemma recover_marks:
  assumes "router_recover json_bytes digest_of st operation s credential policy = Inr st'"
  shows "router_mark st' (snap_owner s) = Some \<lparr>mark_operation = operation, mark_digest = digest_of (operation, s, credential)\<rparr>"
  using assms
  by (auto simp: router_recover_def router_mark_def Let_def and_then_eq_Inr gm.get_put split: if_splits option.splits)

lemma recovery_result_keeps_mark:
  "recovery_result z q apps st = Inr st' \<Longrightarrow> router_mark st o' = Some m \<Longrightarrow> mark_operation m = call_operation q
    \<Longrightarrow> router_mark st' o' = Some m"
  by (auto simp: recovery_result_def split: option.splits if_splits intro: freeze_keeps_mark recover_keeps_mark)

lemma recovery_handler_keeps_mark:
  "recovery_handler z authorization q srv = (reply, srv') \<Longrightarrow> router_mark (srv_state srv) o' = Some m
    \<Longrightarrow> mark_operation m = call_operation q \<Longrightarrow> router_mark (srv_state srv') o' = Some m"
  by (auto simp: recovery_handler_def split: if_splits option.splits sum.splits intro: recovery_result_keeps_mark)

lemma refuse_not_decoded: "status \<noteq> 200 \<Longrightarrow> decode_reply (refuse status) \<noteq> Inr x"
  by (simp add: decode_reply_def refuse_def)

lemma recovery_handler_marks:
  assumes "recovery_handler z authorization q srv = (reply, srv')" and "decode_reply reply = Inr x"
    and "call_snapshot q = Some s" "call_hash q = Some hash"
  shows "router_mark (srv_state srv') (snap_owner s) = Some \<lparr>mark_operation = call_operation q,
     mark_digest = digest_result z (call_operation q, s, hash)\<rparr>"
  using assms
  by (auto simp: recovery_handler_def refuse_not_decoded recovery_result_def
      split: if_splits option.splits sum.splits dest!: recover_marks)

interpretation routers: recovery_peers "network_peer z" sha operation "marked z sha operation" for z sha operation
proof
  fix p router net url auth and q :: recovery_request
  assume ev: "marked z sha operation p router net" and op: "call_operation q = operation"
  obtain srv where srv: "gm_get net (trim_right router CHR ''/'' @ ''/recovery'') = Some srv"
    and mark: "router_mark (srv_state srv) (snap_owner (plan_snapshot p)) = Some \<lparr>mark_operation = operation,
      mark_digest = digest_result z (operation, plan_snapshot p, hex_encode (sha (plan_credential p)))\<rparr>"
    using ev by (auto simp: marked_def split: option.splits)
  show "marked z sha operation p router (snd (network_peer z url auth q net))"
  proof (cases "url = trim_right router CHR ''/'' @ ''/recovery''")
    case False
    then show ?thesis using ev by (auto simp: marked_def network_peer_def gm.get_put split: option.splits prod.splits)
  next
    case True
    obtain reply srv' where run: "recovery_handler z auth q srv = (reply, srv')" by (metis prod.exhaust)
    from recovery_handler_keeps_mark [OF run mark] op True srv run show ?thesis
      by (simp add: marked_def network_peer_def gm.get_put)
  qed
next
  fix router auth net reply net' answer and p :: recovery_plan and m :: recovery_mark
  assume call: "network_peer z (trim_right router CHR ''/'' @ ''/recovery'') auth
        \<lparr>call_owner = snap_owner (plan_snapshot p), call_operation = operation, call_snapshot = Some (plan_snapshot p),
         call_hash = Some (hex_encode (sha (plan_credential p)))\<rparr> net = (reply, net')"
    and dec: "decode_reply reply = Inr answer"
  from call dec obtain srv srv' where srv: "gm_get net (trim_right router CHR ''/'' @ ''/recovery'') = Some srv"
    and run: "recovery_handler z auth \<lparr>call_owner = snap_owner (plan_snapshot p), call_operation = operation,
        call_snapshot = Some (plan_snapshot p), call_hash = Some (hex_encode (sha (plan_credential p)))\<rparr> srv = (reply, srv')"
    and net': "net' = gm_put (trim_right router CHR ''/'' @ ''/recovery'') srv' net"
    by (auto simp: network_peer_def refuse_not_decoded split: option.splits prod.splits)
  from recovery_handler_marks [OF run dec] net' show "marked z sha operation p router net'"
    by (simp add: marked_def gm.get_put)
qed

subsection \<open>Routers that will acknowledge\<close>

text \<open>A recovery that succeeded is acknowledged again, without a change.\<close>

lemma recover_again:
  assumes "router_recover json_bytes digest_of st operation s credential policy = Inr st'"
  shows "router_recover json_bytes digest_of st' operation s credential policy = Inr st'"
proof -
  from assms have names: "router_name operation" "router_hex credential"
    by (auto simp: router_recover_def split: if_splits)
  from recover_marks [OF assms] obtain e where "gm_get (rt_owners st') (snap_owner s) = Some e"
    "own_recovery e = Some \<lparr>mark_operation = operation, mark_digest = digest_of (operation, s, credential)\<rparr>"
    by (auto simp: router_mark_def bind_eq_Some_conv)
  with names show ?thesis by (simp add: router_recover_def)
qed

definition plan_request :: "string \<Rightarrow> (string \<Rightarrow> string) \<Rightarrow> recovery_plan \<Rightarrow> recovery_request" where
  "plan_request operation sha p = \<lparr>call_owner = snap_owner (plan_snapshot p), call_operation = operation,
     call_snapshot = Some (plan_snapshot p), call_hash = Some (hex_encode (sha (plan_credential p)))\<rparr>"

definition plan_digest :: "router_sizes \<Rightarrow> string \<Rightarrow> (string \<Rightarrow> string) \<Rightarrow> recovery_plan \<Rightarrow> string" where
  "plan_digest z operation sha p = digest_result z (operation, plan_snapshot p, hex_encode (sha (plan_credential p)))"

definition willing_server :: "router_sizes \<Rightarrow> string \<Rightarrow> recovery_request \<Rightarrow> router_server \<Rightarrow> bool" where
  "willing_server z admin q srv \<longleftrightarrow> srv_admin srv = admin \<and> 32 \<le> length admin
     \<and> (case gm_get (srv_owners srv) (call_owner q) of None \<Rightarrow> False
        | Some apps \<Rightarrow> (case recovery_result z q apps (srv_state srv) of Inl _ \<Rightarrow> False
          | Inr st \<Rightarrow> (case gm_get (rt_owners st) (call_owner q) of None \<Rightarrow> False
            | Some e \<Rightarrow> snapshot_wf (own_snapshot e) \<and> size_owner z e \<le> 16 * 1024 * 1024)))"

definition willing :: "router_sizes \<Rightarrow> (string \<Rightarrow> string) \<Rightarrow> string \<Rightarrow> daemonConfig \<Rightarrow> recovery_plan \<Rightarrow> router_network \<Rightarrow> bool" where
  "willing z sha operation c p net \<longleftrightarrow> (\<forall>router \<in> set (cfg_routers c).
     (case gm_get net (trim_right router CHR ''/'' @ ''/recovery'') of None \<Rightarrow> False
      | Some srv \<Rightarrow> willing_server z (cfg_router_admin_token c) (plan_request operation sha p) srv))"

lemma willing_server_answers:
  assumes "willing_server z admin (plan_request operation sha p) srv"
  obtains reply srv' answer where
    "recovery_handler z (''Bearer '' @ admin) (plan_request operation sha p) srv = (reply, srv')"
    "willing_server z admin (plan_request operation sha p) srv'" "decode_reply reply = Inr answer"
    "acc_recovery answer = Some \<lparr>mark_operation = operation, mark_digest = plan_digest z operation sha p\<rparr>"
proof -
  let ?q = "plan_request operation sha p"
  let ?s = "plan_snapshot p" and ?hash = "hex_encode (sha (plan_credential p))"
  from assms obtain apps st e where admin: "srv_admin srv = admin" "32 \<le> length admin"
    and apps: "gm_get (srv_owners srv) (call_owner ?q) = Some apps"
    and run: "recovery_result z ?q apps (srv_state srv) = Inr st"
    and e: "gm_get (rt_owners st) (call_owner ?q) = Some e" "snapshot_wf (own_snapshot e)" "size_owner z e \<le> 16 * 1024 * 1024"
    by (auto simp: willing_server_def split: option.splits sum.splits)
  define pol where "pol = \<lparr>pol_applications = apps, pol_record_limit = 4096, pol_view_limit = 16 * 1024 * 1024\<rparr>"
  from run have rec: "router_recover (size_state z) (digest_result z) (srv_state srv) operation ?s ?hash pol = Inr st"
    by (simp add: recovery_result_def plan_request_def pol_def)
  from recover_again [OF rec] have again: "recovery_result z ?q apps st = Inr st"
    by (simp add: recovery_result_def plan_request_def pol_def)
  from recover_marks [OF rec] e(1) have mark: "own_recovery e = Some \<lparr>mark_operation = operation, mark_digest = plan_digest z operation sha p\<rparr>"
    by (simp add: router_mark_def plan_digest_def plan_request_def)
  let ?reply = "\<lparr>rep_status = 200, rep_length = size_owner z e, rep_body = Inr (marshal_owner e)\<rparr>"
  let ?srv = "srv\<lparr>srv_state := st\<rparr>"
  have "recovery_handler z (''Bearer '' @ admin) ?q srv = (?reply, ?srv)"
    using admin apps run e(1) by (simp add: recovery_handler_def)
  moreover have "willing_server z admin ?q ?srv"
    using admin apps again e by (auto simp: willing_server_def)
  moreover have "decode_reply ?reply = Inr \<lparr>acc_snapshot = own_snapshot e, acc_recovery = own_recovery e\<rparr>"
    using e by (simp add: decode_reply_def read_marshal_owner)
  ultimately show thesis by (rule that) (simp add: mark)
qed

lemma willing_answers:
  assumes w: "willing z sha operation c p net" and router: "router \<in> set (cfg_routers c)"
  shows "\<exists>reply net' answer. network_peer z (trim_right router CHR ''/'' @ ''/recovery'') (''Bearer '' @ cfg_router_admin_token c)
      (plan_request operation sha p) net = (reply, net') \<and> willing z sha operation c p net'
    \<and> decode_reply reply = Inr answer
    \<and> acc_recovery answer = Some \<lparr>mark_operation = operation, mark_digest = plan_digest z operation sha p\<rparr>"
proof -
  let ?url = "trim_right router CHR ''/'' @ ''/recovery''"
  from w router obtain srv where srv: "gm_get net ?url = Some srv"
    and ws: "willing_server z (cfg_router_admin_token c) (plan_request operation sha p) srv"
    by (auto simp: willing_def split: option.splits)
  from willing_server_answers [OF ws] obtain reply srv' answer where
    run: "recovery_handler z (''Bearer '' @ cfg_router_admin_token c) (plan_request operation sha p) srv = (reply, srv')"
    and ws': "willing_server z (cfg_router_admin_token c) (plan_request operation sha p) srv'"
    and dec: "decode_reply reply = Inr answer"
      "acc_recovery answer = Some \<lparr>mark_operation = operation, mark_digest = plan_digest z operation sha p\<rparr>" .
  have "network_peer z ?url (''Bearer '' @ cfg_router_admin_token c) (plan_request operation sha p) net
      = (reply, gm_put ?url srv' net)"
    using srv run by (simp add: network_peer_def)
  moreover have "willing z sha operation c p (gm_put ?url srv' net)"
    using w ws' by (auto simp: willing_def gm.get_put)
  ultimately show ?thesis using dec by blast
qed

end
