(* ===== verification/Recovery_Props.thy ===== *)
theory Recovery_Props
  imports Recovery_Merge
begin

section \<open>Properties of the merged history\<close>

text \<open>
  What \<open>prepare_recovery\<close> promises about the snapshot it computes, relative to the histories the routers
  accepted and the restored backup, and when the routers take it.
\<close>

subsection \<open>A common history\<close>

text \<open>Two record maps one of which is a later state of the other.\<close>

definition comparable :: "(string, routeRecord) go_map \<Rightarrow> (string, routeRecord) go_map \<Rightarrow> bool" where
  "comparable m n \<longleftrightarrow> records_extend m n \<or> records_extend n m"

lemma record_extends_claim: "record_extends a b \<Longrightarrow> same_claim a b"
  by (simp add: record_extends_def same_claim_def)

lemma join_options_extends:
  assumes "records_extend m n"
  shows "join_options (gm_get m k) (gm_get n k) = gm_get n k" "join_options (gm_get n k) (gm_get m k) = gm_get n k"
  by (cases "gm_get m k"; auto elim!: records_extend_get [OF assms] simp: join_records_extends)+

lemma join_all_two:
  "join_all [a, b] k None = join_options (gm_get (snap_records a) k) (gm_get (snap_records b) k)"
  by simp

text \<open>Restoring the tombstones of a backup of the same history leads to a later state of it.\<close>

lemma record_extends_restored:
  assumes "old = None \<or> (\<exists>b. old = Some b \<and> (record_extends b y \<or> record_extends y b))"
  shows "\<exists>z. restored old (Some y) = Some z \<and> record_extends y z"
proof (cases "\<exists>b. old = Some b \<and> rec_deleted b \<and> same_claim y b")
  case False
  then show ?thesis by (auto simp: restored_def split: option.splits)
next
  case True
  then obtain b where b: "old = Some b" "rec_deleted b" "same_claim y b" by blast
  have "record_extends y (restore_tombstone b y)"
  proof (cases "record_extends b y")
    case True
    with b have "restore_tombstone b y = y"
      by (cases b; cases y) (auto simp: restore_tombstone_def record_extends_def)
    then show ?thesis by simp
  next
    case False
    with assms b have "record_extends y b" by auto
    with b have "restore_tombstone b y = b"
      by (cases b; cases y) (auto simp: restore_tombstone_def record_extends_def)
    with \<open>record_extends y b\<close> show ?thesis by simp
  qed
  with b show ?thesis by (simp add: restored_def)
qed

lemma comparable_records:
  assumes "comparable m n" and "gm_get m k = Some x" and "gm_get n k = Some y"
  shows "record_extends x y \<or> record_extends y x"
  using assms by (auto simp: comparable_def elim: records_extend_get)

lemma prepared_extends:
  assumes prep: "prepare_recovery owner backup [a, b] = Inr (s, q)"
    and ok: "gm_ok (snap_records backup)" "gm_ok (snap_records a)" "gm_ok (snap_records b)"
    and cmp: "comparable (snap_records a) (snap_records b)" "comparable (snap_records backup) (snap_records a)"
      "comparable (snap_records backup) (snap_records b)"
    and c: "c \<in> {a, b}"
  shows "records_extend (snap_records c) (snap_records s)"
proof (rule records_extend_getI)
  show "gm_ok (snap_records c)" using c ok by auto
  fix k x assume x: "gm_get (snap_records c) k = Some x"
  have top: "\<exists>d \<in> {a, b}. join_all [a, b] k None = gm_get (snap_records d) k \<and> records_extend (snap_records c) (snap_records d)"
    using cmp(1) c ok unfolding comparable_def join_all_two
    by (auto simp: join_options_extends records_extend_refl)
  then obtain d y where d: "d \<in> {a, b}" "join_all [a, b] k None = Some y" "gm_get (snap_records d) k = Some y"
    and xy: "record_extends x y"
    using x by (metis records_extend_get)
  have "gm_get (snap_records backup) k = None \<or> (\<exists>z. gm_get (snap_records backup) k = Some z
      \<and> (record_extends z y \<or> record_extends y z))"
    using d(1,3) cmp(2,3) comparable_records by (cases "gm_get (snap_records backup) k") blast+
  from record_extends_restored [OF this] obtain z where
    "restored (gm_get (snap_records backup) k) (Some y) = Some z" "record_extends y z" by blast
  with xy d(2) prepare_recovery_ok(7) [OF prep] ok show "\<exists>z. gm_get (snap_records s) k = Some z \<and> record_extends x z"
    by (auto intro: record_extends_trans)
qed

subsection \<open>Instances\<close>

definition sample_record :: "string \<Rightarrow> u64 \<Rightarrow> bool \<Rightarrow> routeRecord" where
  "sample_record k rv deleted = \<lparr>rec_id = k, rec_app = ''echo'', rec_endpoint = ''127.0.0.1:90'' @ k,
     rec_revision = rv, rec_deleted = deleted\<rparr>"

definition sample_history :: "u64 \<Rightarrow> (string \<times> u64 \<times> bool) list \<Rightarrow> routeSnapshot" where
  "sample_history rv entries = \<lparr>snap_schema = 1, snap_owner = ''worker-1'', snap_incarnation = 1, snap_revision = rv,
     snap_records = map (\<lambda>(k, v, d). (k, sample_record k v d)) entries\<rparr>"

text \<open>A backup of revision 3; one router has the deletion of \<open>01\<close> from revision 4, the other also \<open>03\<close> from revision 5.\<close>

definition sample_backup :: routeSnapshot where
  "sample_backup = sample_history 3 [(''01'', 2, False), (''02'', 3, False)]"

definition sample_accepted :: "routeSnapshot list" where
  "sample_accepted = [sample_history 4 [(''01'', 4, True), (''02'', 3, False)],
     sample_history 5 [(''01'', 4, True), (''02'', 3, False), (''03'', 5, False)]]"

definition sample_merged :: routeSnapshot where
  "sample_merged = (sample_history 6 [(''01'', 4, True), (''02'', 3, False), (''03'', 5, False)])\<lparr>snap_incarnation := 2\<rparr>"

lemma sample_prepared:
  "prepare_recovery ''worker-1'' sample_backup sample_accepted
     = Inr (sample_merged, [(''01'', sample_record ''01'' 2 False)])"
  by code_simp

lemma sample_histories_ok:
  "gm_ok (snap_records sample_backup)" "\<forall>a \<in> set sample_accepted. gm_ok (snap_records a)"
  by code_simp+

subsection \<open>Properties\<close>

text \<open>C15. A recovery never loses what a router accepted: every accepted record is in the merged snapshot with the same
application and endpoint, at no lower revision and with its deletion, and the snapshot's incarnation and
revision are above those of the backup and of every router, within 63 bits.\<close>

theorem recovery_keeps_accepted:
  assumes "prepare_recovery owner backup as = Inr (s, q)"
    and "gm_ok (snap_records backup)" and "\<forall>a \<in> set as. gm_ok (snap_records a)"
  shows "snap_owner s = owner \<and> snap_schema s = 1
    \<and> (\<forall>a \<in> set (backup # as). snap_incarnation a < snap_incarnation s \<and> snap_revision a < snap_revision s)
    \<and> snap_incarnation s \<le> max_revision \<and> snap_revision s \<le> max_revision
    \<and> (\<forall>a \<in> set as. \<forall>(k, r) \<in> set (snap_records a). \<exists>y. gm_get (snap_records s) k = Some y
        \<and> rec_app y = rec_app r \<and> rec_endpoint y = rec_endpoint r
        \<and> rec_revision r \<le> rec_revision y \<and> (rec_deleted r \<longrightarrow> rec_deleted y))"
proof -
  note all = prepare_recovery_ok [OF assms]
  have "\<exists>y. gm_get (snap_records s) k = Some y \<and> rec_app y = rec_app r \<and> rec_endpoint y = rec_endpoint r
      \<and> rec_revision r \<le> rec_revision y \<and> (rec_deleted r \<longrightarrow> rec_deleted y)"
    if "a \<in> set as" "(k, r) \<in> set (snap_records a)" for a k r
  proof -
    from that assms(3) have "r \<in> accepted_at as k" by (auto simp: accepted_at_def gm_in_set_iff)
    from all(8) [OF this] show ?thesis by (auto simp: covers_def same_claim_def split: option.splits)
  qed
  with all(3-6) show ?thesis by fastforce
qed

theorem recovery_keeps_accepted_witness:
  "snap_revision sample_backup < snap_revision sample_merged \<and> rec_deleted (sample_record ''01'' 4 True)"
  using recovery_keeps_accepted [OF sample_prepared sample_histories_ok]
  by (simp add: sample_record_def)

text \<open>C16. A recovery invents nothing: every record of the merged snapshot is one a router accepted, with its
instance id, application and endpoint; an instance only the backup knows does not come back; and a
record is deleted only if a router or the backup deleted that claim.\<close>

theorem recovery_invents_nothing:
  assumes "prepare_recovery owner backup as = Inr (s, q)"
    and "gm_ok (snap_records backup)" and "\<forall>a \<in> set as. gm_ok (snap_records a)"
    and y: "gm_get (snap_records s) k = Some y"
  shows "(\<exists>r \<in> accepted_at as k. rec_id y = rec_id r \<and> rec_app y = rec_app r \<and> rec_endpoint y = rec_endpoint r)
    \<and> (rec_deleted y \<longrightarrow> (\<exists>r \<in> accepted_at as k. rec_deleted r)
        \<or> (\<exists>b. gm_get (snap_records backup) k = Some b \<and> rec_deleted b \<and> same_claim y b))"
proof -
  from prepare_recovery_ok(7) [OF assms(1-3)] y
  have "restored (gm_get (snap_records backup) k) (join_all as k None) = Some y" by simp
  then obtain x where x: "join_all as k None = Some x" "same_claim x y" "rec_id y = rec_id x"
    and alt: "y = x \<or> (\<exists>b. gm_get (snap_records backup) k = Some b \<and> rec_deleted b \<and> same_claim x b
        \<and> y = restore_tombstone b x)"
    by (rule restored_sel) blast
  from join_all_stems [OF x(1), of "accepted_at as k"] have "stems_from (accepted_at as k) x" by simp
  with x(2,3) alt show ?thesis
    by (auto simp: stems_from_def same_claim_def)
qed

theorem recovery_invents_nothing_witness:
  "\<exists>r \<in> accepted_at sample_accepted ''01''. rec_deleted r"
proof -
  have "gm_get (snap_records sample_merged) ''01'' = Some (sample_record ''01'' 4 True)"
    "gm_get (snap_records sample_backup) ''01'' = Some (sample_record ''01'' 2 False)" by code_simp+
  with recovery_invents_nothing [OF sample_prepared sample_histories_ok this(1)] show ?thesis
    by (simp add: sample_record_def)
qed

text \<open>C17. The quarantine is exact: a backup record is quarantined if and only if no router accepted its instance, or
the merged record claims another application or endpoint, or it was deleted while the backup has it live;
nothing else is in the quarantine.\<close>

theorem quarantine_is_exact:
  assumes "prepare_recovery owner backup as = Inr (s, q)"
    and "gm_ok (snap_records backup)" and "\<forall>a \<in> set as. gm_ok (snap_records a)"
  shows "gm_get q k = Some old \<longleftrightarrow> gm_get (snap_records backup) k = Some old
    \<and> (accepted_at as k = {} \<or> (\<exists>y. gm_get (snap_records s) k = Some y
        \<and> (\<not> same_claim old y \<or> rec_deleted y \<and> \<not> rec_deleted old)))"
proof -
  note get = prepare_recovery_ok(7) [OF assms, of k] and quar = prepare_recovery_ok(9) [OF assms, of k]
  have none: "gm_get (snap_records s) k = None \<longleftrightarrow> accepted_at as k = {}"
    unfolding get using join_all_None [of as k None]
    by (cases "join_all as k None") (auto simp: restored_def split: option.splits)
  then show ?thesis
    unfolding quar by (auto simp: agrees_def split: option.splits)
qed

theorem quarantine_is_exact_witness:
  "accepted_at sample_accepted ''02'' \<noteq> {} \<and> gm_get [(''01'', sample_record ''01'' 2 False)] ''02'' = None"
proof -
  have b: "gm_get (snap_records sample_backup) ''02'' = Some (sample_record ''02'' 3 False)" by code_simp
  have "gm_get [(''01'', sample_record ''01'' 2 False)] ''02'' \<noteq> Some (sample_record ''02'' 3 False)" by simp
  with quarantine_is_exact [OF sample_prepared sample_histories_ok, where k = "''02''" and old = "sample_record ''02'' 3 False"] b
  show ?thesis by simp
qed

text \<open>C18. Go visits maps in an unspecified order, and a recovery does not depend on it: whatever the order in which a
router's records are merged and the backup's records are compared, the result, or the error, is the same.\<close>

theorem recovery_ignores_map_order:
  assumes "gm_ok (snap_records a)" "gm_ok (snap_records merged)" "gm_ok q" "mset ys = mset (snap_records a)"
  shows "merge_owner (a\<lparr>snap_records := ys\<rparr>) merged = merge_owner a merged
    \<and> restore_backup (a\<lparr>snap_records := ys\<rparr>) q merged = restore_backup a q merged"
proof
  have dist: "distinct (map fst (snap_records a))" using assms(1) by (rule gm_ok_distinct)
  then have dist': "distinct (map fst ys)" using assms(4) by (metis mset_eq_imp_distinct_iff mset_map)
  from merge_records_perm [OF assms(2) dist assms(4) [symmetric]]
  show "merge_owner (a\<lparr>snap_records := ys\<rparr>) merged = merge_owner a merged" by (simp add: merge_owner_def)
  have get: "gm_get ys = gm_get (snap_records a)"
    using assms(4) dist dist' by (metis map_of_inject_set mset_eq_setD)
  obtain m1 q1 where one: "fold restore_record ys (snap_records merged, q) = (m1, q1)" by (metis prod.exhaust)
  obtain m2 q2 where two: "fold restore_record (snap_records a) (snap_records merged, q) = (m2, q2)" by (metis prod.exhaust)
  note ok1 = restore_records_ok [OF one assms(2,3) dist'] and ok2 = restore_records_ok [OF two assms(2,3) dist]
  have "m1 = m2" using ok1 ok2 get by (intro gm.ext) auto
  moreover have "q1 = q2" using ok1 ok2 get by (intro gm.ext) auto
  ultimately show "restore_backup (a\<lparr>snap_records := ys\<rparr>) q merged = restore_backup a q merged"
    using one two by (simp add: restore_backup_def)
qed

theorem recovery_ignores_map_order_witness:
  "merge_owner (sample_backup\<lparr>snap_records := rev (snap_records sample_backup)\<rparr>) sample_merged
     = merge_owner sample_backup sample_merged"
proof -
  have "gm_ok (snap_records sample_merged)" by code_simp
  from recovery_ignores_map_order [OF sample_histories_ok(1) this gm_ok_Nil, of "rev (snap_records sample_backup)"]
  show ?thesis by simp
qed

subsection \<open>The routers' verdict\<close>

definition unfence :: "owner_entry \<Rightarrow> routeSnapshot \<Rightarrow> owner_entry" where
  "unfence e s = e\<lparr>own_frozen_by := None, own_snapshot := (own_snapshot e)\<lparr>snap_incarnation := snap_incarnation s\<rparr>\<rparr>"

lemma history_check_unfence:
  assumes "snap_revision (own_snapshot e) < snap_revision s"
    and "records_extend (snap_records (own_snapshot e)) (snap_records s)"
  shows "history_check (unfence e s) s = Inr ()"
  using assms by (auto simp: history_check_iff unfence_def history_extends_def)

text \<open>What is left to refuse a snapshot that passes the comparison with the history.\<close>

lemma record_check_error:
  "fold_result (record_check policy st s) xs seen = Inl e \<Longrightarrow>
     e \<in> {''endpoint aliases require a canonical unscoped address'', ''invalid record or application ownership'',
       ''endpoint reserved by another instance''}"
proof (induction xs arbitrary: seen)
  case (Cons x xs)
  then show ?case
    by (cases "record_check policy st s x seen") (auto simp: record_check_def split: if_splits prod.splits)
qed simp

lemma router_accept_error:
  assumes "router_accept json_bytes st owner s policy now = Inl e"
    and "snap_schema s = 1" "snap_owner s = owner" "router_name owner" "snap_incarnation s \<noteq> 0" "snap_revision s \<noteq> 0"
    and "gm_get (rt_owners st) owner = Some p" "history_check p s = Inr ()"
  shows "e \<in> {''lifetime record capacity exceeded'', ''endpoint aliases require a canonical unscoped address'',
      ''invalid record or application ownership'', ''endpoint reserved by another instance'', ''generation exhausted'',
      ''complete view capacity exceeded''}"
proof (cases "fold_result (record_check policy st s) (snap_records s) []")
  case (Inl e')
  with assms have "e = ''lifetime record capacity exceeded'' \<or> e = e'"
    by (auto simp: router_accept_def Let_def split: if_splits)
  with record_check_error [OF Inl] show ?thesis by auto
next
  case (Inr seen)
  with assms show ?thesis by (auto simp: router_accept_def Let_def guard_def split: if_splits)
qed

text \<open>When the backup and the two accepted histories are states of one history, in whatever order of age, a router
fenced by the operation has no objection to the merged snapshot as a continuation of what it accepted: only
the capacities, the address rules, the application list or another owner's endpoint can make it refuse.\<close>

theorem common_history_is_recoverable:
  assumes prep: "prepare_recovery owner backup [a, b] = Inr (s, q)"
    and ok: "gm_ok (snap_records backup)" "gm_ok (snap_records a)" "gm_ok (snap_records b)"
    and cmp: "comparable (snap_records a) (snap_records b)" "comparable (snap_records backup) (snap_records a)"
      "comparable (snap_records backup) (snap_records b)"
    and entry: "gm_get (rt_owners st) owner = Some entry" "own_snapshot entry \<in> {a, b}"
      "own_frozen_by entry = Some operation"
      "case own_recovery entry of None \<Rightarrow> True | Some m \<Rightarrow> mark_operation m \<noteq> operation"
    and names: "router_name operation" "router_name owner" "router_hex credential"
    and refused: "router_recover json_bytes digest_of st operation s credential policy = Inl e"
  shows "e \<in> {''lifetime record capacity exceeded'', ''endpoint aliases require a canonical unscoped address'',
      ''invalid record or application ownership'', ''endpoint reserved by another instance'', ''generation exhausted'',
      ''complete view capacity exceeded''}"
proof -
  have oks: "\<forall>c \<in> set [a, b]. gm_ok (snap_records c)" using ok by simp
  note all = prepare_recovery_ok [OF prep ok(1) oks]
  from all(5) entry(2) have above: "snap_incarnation (own_snapshot entry) < snap_incarnation s"
    "snap_revision (own_snapshot entry) < snap_revision s" by auto
  let ?base = "st\<lparr>rt_owners := gm_put owner (unfence entry s) (rt_owners st)\<rparr>"
  have check: "history_check (unfence entry s) s = Inr ()"
    by (rule history_check_unfence [OF above(2) prepared_extends [OF prep ok cmp entry(2)]])
  have "router_accept json_bytes ?base owner s policy (own_reconciled entry) = Inl e"
  proof (cases "router_accept json_bytes ?base owner s policy (own_reconciled entry)")
    case (Inl e')
    with refused all(4) entry names above(1) show ?thesis
      by (auto simp: router_recover_def Let_def unfence_def not_le split: if_splits option.splits)
  next
    case (Inr st')
    then have "gm_get (rt_owners st') owner \<noteq> None"
      using all(4) by (auto simp: router_accept_def Let_def and_then_eq_Inr gm.get_put split: if_splits)
    with Inr refused all(4) entry names above(1) show ?thesis
      by (auto simp: router_recover_def Let_def unfence_def not_le split: if_splits option.splits)
  qed
  moreover have "snap_incarnation s \<noteq> 0" "snap_revision s \<noteq> 0" using above by (auto simp: word_neq_0_conv intro: le_less_trans)
  ultimately show ?thesis
    using all(3,4) names(2) check by (intro router_accept_error [where st = ?base]) (auto simp: gm.get_put)
qed

definition sample_router :: "routeSnapshot \<Rightarrow> router_state" where
  "sample_router accepted = \<lparr>rt_generation = 7, rt_owners = [(''worker-1'',
     \<lparr>own_snapshot = accepted, own_reconciled = 0, own_stale = True, own_frozen_by = Some ''restore-1'',
      own_credential = None, own_recovery = None\<rparr>)]\<rparr>"

definition sample_policy :: "nat \<Rightarrow> router_policy" where
  "sample_policy view = \<lparr>pol_applications = [''echo''], pol_record_limit = 4096, pol_view_limit = view\<rparr>"

theorem common_history_is_recoverable_witness:
  "router_recover (\<lambda>_. 900) (\<lambda>_. ''d'') (sample_router (hd sample_accepted)) ''restore-1'' sample_merged
      (replicate 64 CHR ''a'') (sample_policy 800) = Inl ''complete view capacity exceeded''
    \<and> is_ok (router_recover (\<lambda>_. 900) (\<lambda>_. ''d'') (sample_router (hd sample_accepted)) ''restore-1'' sample_merged
      (replicate 64 CHR ''a'') (sample_policy 1000))"
proof -
  let ?a = "sample_accepted ! 0" and ?b = "sample_accepted ! 1"
  let ?e = "\<lparr>own_snapshot = ?a, own_reconciled = 0, own_stale = True, own_frozen_by = Some ''restore-1'',
      own_credential = None, own_recovery = None\<rparr>"
  have prep: "prepare_recovery ''worker-1'' sample_backup [?a, ?b] = Inr (sample_merged, [(''01'', sample_record ''01'' 2 False)])"
    using sample_prepared by (simp add: sample_accepted_def)
  have ok: "gm_ok (snap_records sample_backup)" "gm_ok (snap_records ?a)" "gm_ok (snap_records ?b)"
    and cmp: "comparable (snap_records ?a) (snap_records ?b)" "comparable (snap_records sample_backup) (snap_records ?a)"
      "comparable (snap_records sample_backup) (snap_records ?b)"
    by code_simp+
  have entry: "gm_get (rt_owners (sample_router ?a)) ''worker-1'' = Some ?e" "own_snapshot ?e \<in> {?a, ?b}"
    "own_frozen_by ?e = Some ''restore-1''"
    "case own_recovery ?e of None \<Rightarrow> True | Some m \<Rightarrow> mark_operation m \<noteq> ''restore-1''"
    by (simp_all add: sample_router_def)
  have names: "router_name ''restore-1''" "router_name ''worker-1''" "router_hex (replicate 64 CHR ''a'')"
    by code_simp+
  have small: "router_recover (\<lambda>_. 900) (\<lambda>_. ''d'') (sample_router ?a) ''restore-1'' sample_merged
      (replicate 64 CHR ''a'') (sample_policy 800) = Inl ''complete view capacity exceeded''"
    and large: "is_ok (router_recover (\<lambda>_. 900) (\<lambda>_. ''d'') (sample_router ?a) ''restore-1'' sample_merged
      (replicate 64 CHR ''a'') (sample_policy 1000))"
    by code_simp+
  have "''complete view capacity exceeded'' \<in> {''lifetime record capacity exceeded'',
      ''endpoint aliases require a canonical unscoped address'', ''invalid record or application ownership'',
      ''endpoint reserved by another instance'', ''generation exhausted'', ''complete view capacity exceeded''}"
    by (rule common_history_is_recoverable [OF prep ok cmp entry names small])
  with small large show ?thesis by (simp add: sample_accepted_def)
qed

text \<open>C19. When one router accepted the deletion of an instance and another accepted it live at no lower revision (a
database restored without a recovery can do that), the merge deletes the record without raising its
revision. The router that has it live then refuses the result as a conflict with its history, at every
attempt and whatever else it holds: the prepared recovery cannot be completed.\<close>

theorem late_tombstone_blocks_recovery:
  assumes prep: "prepare_recovery owner backup [a, b] = Inr (s, q)"
    and ok: "gm_ok (snap_records backup)" "gm_ok (snap_records a)" "gm_ok (snap_records b)"
    and forks: "c \<in> {a, b}" "d \<in> {a, b}"
      "gm_get (snap_records c) k = Some live" "\<not> rec_deleted live"
      "gm_get (snap_records d) k = Some dead" "rec_deleted dead" "rec_revision dead \<le> rec_revision live"
    and older: "case gm_get (snap_records backup) k of None \<Rightarrow> True | Some z \<Rightarrow> rec_revision z \<le> rec_revision live"
    and entry: "gm_get (rt_owners st) owner = Some entry" "own_snapshot entry = c"
      "case own_recovery entry of None \<Rightarrow> True | Some m \<Rightarrow> mark_operation m \<noteq> operation"
  shows "\<exists>e. router_recover json_bytes digest_of st operation s credential policy = Inl e"
proof -
  have oks: "\<forall>x \<in> set [a, b]. gm_ok (snap_records x)" using ok by simp
  note all = prepare_recovery_ok [OF prep ok(1) oks]
  have "c \<noteq> d" using forks by auto
  with forks(1,2) have cd: "c = a \<and> d = b \<or> c = b \<and> d = a" by auto
  with forks(3,5) obtain y where y: "join_all [a, b] k None = Some y" "rec_deleted y" "rec_revision y = rec_revision live"
    using forks(6,7) unfolding join_all_two by (auto simp: join_records_sel max_def)
  with all(7) [of k] older have "\<exists>z. gm_get (snap_records s) k = Some z \<and> rec_deleted z \<and> rec_revision z = rec_revision live"
    by (auto simp: restored_def max_def split: option.splits)
  then have "\<not> records_extend (snap_records c) (snap_records s)"
    using forks(3,4) by (auto simp: record_extends_def elim!: records_extend_get)
  then have no: "history_check (unfence entry s) s \<noteq> Inr ()"
    using entry(2) by (auto simp: history_check_iff unfence_def history_extends_def)
  have "router_accept json_bytes (st\<lparr>rt_owners := gm_put owner (unfence entry s) (rt_owners st)\<rparr>) owner s policy
      (own_reconciled entry) \<noteq> Inr x" for x
    using no all(4) by (auto simp: router_accept_def Let_def and_then_eq_Inr gm.get_put)
  then show ?thesis
    using entry all(4)
    by (cases "router_accept json_bytes (st\<lparr>rt_owners := gm_put owner (unfence entry s) (rt_owners st)\<rparr>) owner s policy
        (own_reconciled entry)") (auto simp: router_recover_def Let_def unfence_def split: option.splits)
qed

theorem late_tombstone_blocks_recovery_witness:
  "\<exists>s q e. prepare_recovery ''worker-1'' (sample_history 2 [(''01'', 2, False)])
      [sample_history 3 [(''01'', 3, True)], sample_history 3 [(''01'', 3, False)]] = Inr (s, q)
    \<and> router_recover (\<lambda>_. 900) (\<lambda>_. ''d'') (sample_router (sample_history 3 [(''01'', 3, False)])) ''restore-1'' s
      (replicate 64 CHR ''a'') (sample_policy 1000) = Inl e"
proof -
  let ?a = "sample_history 3 [(''01'', 3, True)]" and ?b = "sample_history 3 [(''01'', 3, False)]"
  let ?s = "(sample_history 4 [(''01'', 3, True)])\<lparr>snap_incarnation := 2\<rparr>"
  have prep: "prepare_recovery ''worker-1'' (sample_history 2 [(''01'', 2, False)]) [?a, ?b]
      = Inr (?s, [(''01'', sample_record ''01'' 2 False)])"
    and ok: "gm_ok (snap_records (sample_history 2 [(''01'', 2, False)]))" "gm_ok (snap_records ?a)" "gm_ok (snap_records ?b)"
    by code_simp+
  have forks: "?b \<in> {?a, ?b}" "?a \<in> {?a, ?b}" "gm_get (snap_records ?b) ''01'' = Some (sample_record ''01'' 3 False)"
    "\<not> rec_deleted (sample_record ''01'' 3 False)" "gm_get (snap_records ?a) ''01'' = Some (sample_record ''01'' 3 True)"
    "rec_deleted (sample_record ''01'' 3 True)"
    "rec_revision (sample_record ''01'' 3 True) \<le> rec_revision (sample_record ''01'' 3 False)"
    by (simp_all add: sample_history_def sample_record_def)
  have older: "case gm_get (snap_records (sample_history 2 [(''01'', 2, False)])) ''01'' of None \<Rightarrow> True
      | Some z \<Rightarrow> rec_revision z \<le> rec_revision (sample_record ''01'' 3 False)" by code_simp
  have entry: "gm_get (rt_owners (sample_router ?b)) ''worker-1'' = Some \<lparr>own_snapshot = ?b, own_reconciled = 0,
      own_stale = True, own_frozen_by = Some ''restore-1'', own_credential = None, own_recovery = None\<rparr>"
    by (simp add: sample_router_def)
  from late_tombstone_blocks_recovery [OF prep ok forks older entry] prep show ?thesis by fastforce
qed

end
