(* ===== verification/Registry_Props.thy ===== *)
theory Registry_Props
  imports Registry_Inv
begin

section \<open>What the registry promises\<close>

text \<open>
  The registry as a service that runs an operation once, its abstract specification as a ledger of
  permanent claims, and its properties over whole sequences of calls with arbitrary SQL faults.
\<close>

subsection \<open>The service contract\<close>

definition registry_recorded :: "(string \<Rightarrow> string) \<Rightarrow> registration \<Rightarrow> u64 \<Rightarrow> routing_db \<Rightarrow> bool" where
  "registry_recorded sha q v db \<longleftrightarrow>
     gm_get (routing_operations db) (req_operation q) = Some (request_hash sha q, v)"

definition db_extends :: "routing_db \<Rightarrow> routing_db \<Rightarrow> bool" where
  "db_extends db db' = (case (daemon_snapshot no_faults db, daemon_snapshot no_faults db') of
     (Inr s, Inr s') \<Rightarrow> history_extends s s' | _ \<Rightarrow> False)"

lemma daemon_snapshot_row:
  "routing_state db = Some b \<Longrightarrow> daemon_snapshot no_faults db = read_snapshot b"
  by (simp add: daemon_snapshot_def select_body_def)

lemma registry_inv_snapshot:
  assumes "registry_inv owner db"
  obtains s where "daemon_snapshot no_faults db = Inr s" "snapshot_ok owner s"
  using assms by (auto elim!: registry_invE intro: that simp: daemon_snapshot_row)

lemma fresh_registration_snapshots:
  assumes "fresh_registration sha q db s db'" "registry_inv owner db"
  shows "daemon_snapshot no_faults db = Inr s" "daemon_snapshot no_faults db' = Inr (register_apply s q)"
    and "snapshot_ok owner s" "register_checks (length (routing_operations db)) s q = Inr ()"
proof -
  from assms(1) obtain b where b: "routing_state db = Some b" "read_snapshot b = Inr s"
    and checks: "register_checks (length (routing_operations db)) s q = Inr ()"
    and db': "routing_state db' = Some (marshal_snapshot (register_apply s q))"
    by (auto simp: fresh_registration_def)
  with assms(2) have ok: "snapshot_ok owner s" by (auto elim!: registry_invE)
  then have "snapshot_wf (register_apply s q)"
    using checks by (blast intro: snapshot_ok_wf register_apply_ok)
  with b db' ok checks show "daemon_snapshot no_faults db = Inr s"
    "daemon_snapshot no_faults db' = Inr (register_apply s q)" "snapshot_ok owner s"
    "register_checks (length (routing_operations db)) s q = Inr ()"
    by (auto simp: daemon_snapshot_row read_marshal_snapshot)
qed

lemma register_inv_step:
  "registry_inv owner db \<Longrightarrow> register sha f q db = (Inr v, db') \<Longrightarrow> registry_inv owner db'"
  by (auto elim!: register_cases intro: fresh_registration_inv)

lemma register_extends_step:
  assumes "registry_inv owner db" "register sha f q db = (Inr v, db')"
  shows "db_extends db db'"
  using assms(2)
proof (cases rule: register_cases)
  case replay
  obtain s where "daemon_snapshot no_faults db = Inr s" "snapshot_ok owner s"
    using assms(1) by (rule registry_inv_snapshot)
  with replay show ?thesis by (simp add: db_extends_def history_extends_refl snapshot_ok_gm_ok)
next
  case (fresh s)
  note snaps = fresh_registration_snapshots [OF fresh(1) assms(1)]
  then show ?thesis by (simp add: db_extends_def register_apply_extends)
qed

lemma db_extends_trans:
  assumes "registry_inv owner db" "db_extends db db'" "db_extends db' db''"
  shows "db_extends db db''"
proof -
  obtain s where s: "daemon_snapshot no_faults db = Inr s" "snapshot_ok owner s"
    using assms(1) by (rule registry_inv_snapshot)
  with assms(2,3) show ?thesis
    by (auto simp: db_extends_def split: sum.splits
        intro: history_extends_trans [OF snapshot_ok_gm_ok [OF s(2)]])
qed

lemma register_records:
  "register sha f q db = (Inr v, db') \<Longrightarrow> registry_recorded sha q v db'"
  by (erule register_cases) (auto simp: registry_recorded_def fresh_registration_def gm.get_put)

lemma register_keeps_record:
  "registry_recorded sha q v db \<Longrightarrow> register sha f q' db = (Inr v', db') \<Longrightarrow> registry_recorded sha q v db'"
  by (erule register_cases) (auto simp: registry_recorded_def fresh_registration_def gm.get_put)

lemma register_replay:
  "registry_recorded sha q v db \<Longrightarrow> register sha f q db = (Inr v', db') \<Longrightarrow> v' = v \<and> db' = db"
  by (erule register_cases) (auto simp: registry_recorded_def fresh_registration_def)

lemma db_extends_refl: "registry_inv owner db \<Longrightarrow> db_extends db db"
  by (auto elim!: registry_inv_snapshot simp: db_extends_def history_extends_refl snapshot_ok_gm_ok)

interpretation registry: once_service "register sha" "registry_inv owner" "registry_recorded sha" db_extends
  for sha owner
  by unfold_locales
    (auto dest: register_error_frame register_replay
      intro: register_inv_step register_records register_keeps_record register_extends_step
        db_extends_refl db_extends_trans)

abbreviation registry_after :: "(string \<Rightarrow> string) \<Rightarrow> string \<Rightarrow> (sql_faults \<times> registration) list \<Rightarrow> routing_db" where
  "registry_after sha owner calls \<equiv> run_calls (register sha) calls (initial_db owner)"

lemma registry_after_inv: "registry_inv owner (registry_after sha owner calls)"
  by (rule registry.runs_inv) (rule registry_inv_initial)

lemma registry_after_extends:
  "db_extends (registry_after sha owner calls) (run_calls (register sha) later (registry_after sha owner calls))"
  by (rule registry.runs_extends) (rule registry_after_inv)


subsection \<open>The ledger of claims\<close>

text \<open>
  The abstract specification: a map from instances to permanent claims. A claim binds the instance to
  its application and endpoint for ever; it can be retired, never revived, and no two instances claim
  the same endpoint.
\<close>

datatype standing = Live | Retired

type_synonym ledger = "string \<Rightarrow> (string \<times> string \<times> standing) option"

definition ledger_of :: "routeSnapshot \<Rightarrow> ledger" where
  "ledger_of s = (\<lambda>k. map_option (\<lambda>r. (rec_app r, rec_endpoint r, if rec_deleted r then Retired else Live))
     (gm_get (snap_records s) k))"

definition ledger_allows :: "ledger \<Rightarrow> registration \<Rightarrow> bool" where
  "ledger_allows L q \<longleftrightarrow>
     (case L (req_id q) of None \<Rightarrow> \<not> req_deleted q
      | Some (app, endpoint, st) \<Rightarrow> app = req_app q \<and> endpoint = req_endpoint q \<and> (st = Retired \<longrightarrow> req_deleted q))
     \<and> (\<forall>k app st. L k = Some (app, req_endpoint q, st) \<longrightarrow> k = req_id q)"

definition ledger_claim :: "registration \<Rightarrow> ledger \<Rightarrow> ledger" where
  "ledger_claim q L = L(req_id q \<mapsto> (req_app q, req_endpoint q, if req_deleted q then Retired else Live))"

text \<open>The capacities: the operations table with its reserve, the records of a lifetime, the revisions.\<close>

definition ledger_room :: "nat \<Rightarrow> u64 \<Rightarrow> ledger \<Rightarrow> registration \<Rightarrow> bool" where
  "ledger_room n v L q \<longleftrightarrow> v < max_revision
     \<and> (n < 16384 \<or> (\<exists>app endpoint. L (req_id q) = Some (app, endpoint, Live)) \<and> req_deleted q)
     \<and> (L (req_id q) = None \<longrightarrow> card (dom L) < 4096)"

lemma dom_ledger_of: "dom (ledger_of s) = dom (gm_get (snap_records s))"
  by (auto simp: ledger_of_def)

lemma ledger_of_apply:
  "ledger_of (register_apply s q) = ledger_claim q (ledger_of s)"
  by (auto simp: ledger_of_def ledger_claim_def gm.get_put fun_eq_iff)

lemma register_checks_ledger:
  assumes ok: "snapshot_ok owner s"
  shows "register_checks n s q = Inr () \<longleftrightarrow> ledger_allows (ledger_of s) q \<and> ledger_room n (snap_revision s) (ledger_of s) q"
proof -
  have gm: "gm_ok (snap_records s)" using ok by (rule snapshot_ok_gm_ok)
  have clash: "list_ex (\<lambda>(k, r). rec_endpoint r = req_endpoint q \<and> k \<noteq> req_id q) (snap_records s) \<longleftrightarrow>
      \<not> (\<forall>k app st. ledger_of s k = Some (app, req_endpoint q, st) \<longrightarrow> k = req_id q)"
    by (fastforce simp: list_ex_iff ledger_of_def gm_in_set_iff [OF gm])
  have size: "length (snap_records s) = card (dom (ledger_of s))"
    by (simp add: dom_ledger_of gm_length_card [OF gm])
  show ?thesis
  proof (cases "gm_get (snap_records s) (req_id q)")
    case None
    then have "ledger_of s (req_id q) = None" by (simp add: ledger_of_def)
    with None show ?thesis
      by (auto simp: register_checks_def Let_def clash size ledger_allows_def ledger_room_def not_le)
  next
    case (Some old)
    then have "ledger_of s (req_id q) = Some (rec_app old, rec_endpoint old, if rec_deleted old then Retired else Live)"
      by (simp add: ledger_of_def)
    with Some show ?thesis
      by (auto simp: register_checks_def Let_def clash ledger_allows_def ledger_room_def not_le)
  qed
qed


subsection \<open>Properties of the registry\<close>

text \<open>Two requests and a database for the closed instances; the hash function is the identity on texts.\<close>

definition sample_request :: "bool \<Rightarrow> registration" where
  "sample_request deleted = \<lparr>req_operation = (if deleted then ''op-2'' else ''op-1''), req_id = ''one'', req_app = ''echo'',
     req_endpoint = ''127.0.0.1:9000'', req_deleted = deleted\<rparr>"

definition sample_db :: routing_db where
  "sample_db = snd (register (\<lambda>s. s) no_faults (sample_request False) (initial_db ''worker-1''))"

text \<open>Evaluating a call: a body that was written is read back as a whole, hashes are compared as texts.\<close>

lemma max_revision_gt_1: "\<not> max_revision \<le> 1"
  by (simp add: word_le_nat_alt)

lemmas register_eval = max_revision_gt_1 register_def register_new_def register_checks_def register_apply_def
  registered_record_def select_body_def insert_operation_def daemon_snapshot_def request_hash_def
  hex_encode_inj render_registration_inj read_marshal_snapshot snapshot_wf_def initial_db_def
  initial_snapshot_def sample_request_def zero_record_def Let_def gm_ok_def

lemma sample_db_inv: "registry_inv ''worker-1'' sample_db"
  unfolding sample_db_def by (rule registry.call_result_inv) (rule registry_inv_initial)

text \<open>C1. In every state that any sequence of registrations with any SQL faults leaves, the stored body
decodes to a snapshot of the owner whose records are keyed by their own id, carry positive revisions not
above the snapshot's, number at most 4096 and never share an endpoint; every recorded operation has a
revision not above the snapshot's.\<close>

theorem registry_consistent: "registry_inv owner (registry_after sha owner calls)"
  by (rule registry_after_inv)

text \<open>Whatever registrations happen in between, a later snapshot of the worker passes the router's
comparison with an earlier one it accepted: no record disappears or changes application, endpoint or
identity, revisions never regress, no deletion is undone, and equal revisions mean equal content.\<close>

theorem published_history_is_accepted:
  assumes "daemon_snapshot no_faults (registry_after sha owner calls) = Inr accepted"
    and "daemon_snapshot no_faults (run_calls (register sha) later (registry_after sha owner calls)) = Inr s"
    and "own_snapshot entry = accepted" and "own_frozen_by entry = None"
  shows "history_check entry s = Inr ()"
  using registry_after_extends [where sha = sha and owner = owner and calls = calls and later = later] assms
  by (simp add: db_extends_def history_check_iff)

theorem published_history_is_accepted_witness:
  "history_check \<lparr>own_snapshot = initial_snapshot ''worker-1'', own_reconciled = 0, own_stale = False,
     own_frozen_by = None, own_credential = None, own_recovery = None\<rparr>
   (register_apply (initial_snapshot ''worker-1'') (sample_request False)) = Inr ()"
proof (rule published_history_is_accepted)
  show "daemon_snapshot no_faults (registry_after (\<lambda>s. s) ''worker-1'' []) = Inr (initial_snapshot ''worker-1'')"
    by (simp add: register_eval)
  show "daemon_snapshot no_faults (run_calls (register (\<lambda>s. s)) [(no_faults, sample_request False)]
      (registry_after (\<lambda>s. s) ''worker-1'' [])) = Inr (register_apply (initial_snapshot ''worker-1'') (sample_request False))"
    by (simp add: register_eval)
qed simp_all

text \<open>C3. A registration takes effect exactly once: after it succeeded, the same request sent again, after any
other calls and with any faults in them, is either refused by a fault or answered with the revision it
got the first time, and changes nothing.\<close>

theorem registration_exactly_once:
  assumes "register sha f q db = (Inr v, db1)"
    and "register sha f' q (run_calls (register sha) calls db1) = (Inr v', db2)"
  shows "v' = v \<and> db2 = run_calls (register sha) calls db1"
  using assms by (rule registry.exactly_once)

theorem registration_exactly_once_witness:
  "snd (register (\<lambda>s. s) no_faults (sample_request False)
     (run_calls (register (\<lambda>s. s)) [(no_faults, sample_request True)] sample_db))
   = run_calls (register (\<lambda>s. s)) [(no_faults, sample_request True)] sample_db"
proof -
  have "register (\<lambda>s. s) no_faults (sample_request False) (initial_db ''worker-1'') = (Inr 2, sample_db)"
    by (simp add: sample_db_def register_eval)
  moreover have "register (\<lambda>s. s) no_faults (sample_request False)
      (run_calls (register (\<lambda>s. s)) [(no_faults, sample_request True)] sample_db) =
      (Inr 2, snd (register (\<lambda>s. s) no_faults (sample_request False)
        (run_calls (register (\<lambda>s. s)) [(no_faults, sample_request True)] sample_db)))"
    by (simp add: sample_db_def register_eval)
  ultimately show ?thesis by (rule registration_exactly_once [THEN conjunct2])
qed

text \<open>An operation key that was used for one request is refused for any other request whose text hashes
differently, and the refusal changes nothing.\<close>

theorem operation_key_reuse_refused:
  assumes "registry_recorded sha q v db" and "req_operation q' = req_operation q" and "q' \<noteq> q"
    and "sha (render (marshal_registration q')) = sha (render (marshal_registration q))
      \<Longrightarrow> render (marshal_registration q') = render (marshal_registration q)"
  shows "register sha no_faults q' db = (Inl ''operation has different intended result'', db)"
proof -
  have "request_hash sha q' \<noteq> request_hash sha q"
    using assms(3,4) by (auto simp: request_hash_def hex_encode_inj render_registration_inj)
  with assms(1,2) show ?thesis by (simp add: registry_recorded_def register_def)
qed

theorem operation_key_reuse_refused_witness:
  "register (\<lambda>s. s) no_faults ((sample_request False)\<lparr>req_deleted := True\<rparr>) sample_db
    = (Inl ''operation has different intended result'', sample_db)"
proof (rule operation_key_reuse_refused)
  show "registry_recorded (\<lambda>s. s) (sample_request False) 2 sample_db"
    by (simp add: registry_recorded_def sample_db_def register_eval)
qed (simp_all add: sample_request_def)

text \<open>C6. The deletion reserve: however many operations are recorded, a live instance can be retired under a
new operation key, as long as a revision is left; the retired record then stands at the next revision.\<close>

theorem deletion_always_possible:
  assumes inv: "registry_inv owner db" and snap: "daemon_snapshot no_faults db = Inr s"
    and live: "gm_get (snap_records s) (req_id q) = Some old" "\<not> rec_deleted old"
    and q: "req_deleted q" "req_app q = rec_app old" "req_endpoint q = rec_endpoint old"
    and new: "gm_get (routing_operations db) (req_operation q) = None"
    and left: "snap_revision s < max_revision"
  shows "\<exists>db' s'. register sha no_faults q db = (Inr (snap_revision s + 1), db')
    \<and> daemon_snapshot no_faults db' = Inr s'
    \<and> gm_get (snap_records s') (req_id q) = Some (registered_record (snap_revision s + 1) q)"
proof -
  from inv snap obtain b where b: "routing_state db = Some b" "read_snapshot b = Inr s" and ok: "snapshot_ok owner s"
    by (auto elim!: registry_invE simp: daemon_snapshot_row)
  have mem: "(req_id q, old) \<in> set (snap_records s)" using live(1) by (rule map_of_SomeD)
  have "\<not> list_ex (\<lambda>(k, r). rec_endpoint r = req_endpoint q \<and> k \<noteq> req_id q) (snap_records s)"
    using ok mem q(3) by (fastforce simp: list_ex_iff snapshot_ok_def endpoints_unique_def)
  with live q left have "register_checks (length (routing_operations db)) s q = Inr ()"
    by (simp add: register_checks_def Let_def not_le)
  from register_fresh_succeeds [OF new b this] obtain db' where
    db': "register sha no_faults q db = (Inr (snap_revision s + 1), db')"
    and fresh: "fresh_registration sha q db s db'" by blast
  show ?thesis
    using db' fresh_registration_snapshots(2) [OF fresh inv] by (auto simp: gm.get_put)
qed

theorem deletion_always_possible_witness:
  "\<exists>db' s'. register (\<lambda>s. s) no_faults (sample_request True) sample_db = (Inr 3, db')
    \<and> daemon_snapshot no_faults db' = Inr s'
    \<and> gm_get (snap_records s') ''one'' = Some (registered_record 3 (sample_request True))"
proof -
  let ?s = "register_apply (initial_snapshot ''worker-1'') (sample_request False)"
  have snap: "daemon_snapshot no_faults sample_db = Inr ?s"
    by (simp add: sample_db_def register_eval)
  have live: "gm_get (snap_records ?s) (req_id (sample_request True)) = Some (registered_record 2 (sample_request False))"
    by (simp add: register_eval)
  have new: "gm_get (routing_operations sample_db) (req_operation (sample_request True)) = None"
    by (simp add: sample_db_def register_eval)
  have left: "snap_revision ?s < max_revision"
    by (simp add: register_eval word_less_nat_alt)
  have sample: "req_deleted (sample_request True)" "req_id (sample_request True) = ''one''"
    "\<not> rec_deleted (registered_record 2 (sample_request False))"
    "req_app (sample_request True) = rec_app (registered_record 2 (sample_request False))"
    "req_endpoint (sample_request True) = rec_endpoint (registered_record 2 (sample_request False))"
    by (simp_all add: sample_request_def)
  have "snap_revision ?s + 1 = 3" by (simp add: register_eval)
  with deletion_always_possible [OF sample_db_inv snap live sample(3,1,4,5) new left, of "\<lambda>s. s"] sample(2)
  show ?thesis by simp
qed

text \<open>C7. The capacities hold in every state the registrations can reach: at most 4096 records, at most
16384 + 4096 recorded operations (the reserve is one operation per retired instance), and revisions that
a signed 64-bit column can hold.\<close>

theorem registry_capacities:
  "\<exists>s. daemon_snapshot no_faults (registry_after sha owner calls) = Inr s
     \<and> length (snap_records s) \<le> 4096 \<and> snap_revision s \<le> max_revision
     \<and> length (routing_operations (registry_after sha owner calls)) \<le> 16384 + tombstones s
     \<and> length (routing_operations (registry_after sha owner calls)) \<le> 20480"
proof -
  from registry_after_inv [of owner sha calls] obtain s b where
    b: "routing_state (registry_after sha owner calls) = Some b" "read_snapshot b = Inr s"
    and ok: "snapshot_ok owner s"
    and bound: "length (routing_operations (registry_after sha owner calls)) \<le> operation_limit + tombstones s"
    by (rule registry_invE)
  have "tombstones s \<le> length (snap_records s)" by (simp add: tombstones_def)
  with b ok bound show ?thesis
    by (intro exI [of _ s]) (auto simp: daemon_snapshot_row snapshot_ok_def operation_limit_def)
qed

text \<open>C2. A new operation implements one step of the ledger of permanent claims: without SQL faults it succeeds
exactly when the ledger allows the claim and there is room, the stored snapshot then shows the ledger
with the claim entered, and otherwise the database is as it was.\<close>

theorem register_refines_ledger:
  assumes inv: "registry_inv owner db" and snap: "daemon_snapshot no_faults db = Inr s"
    and new: "gm_get (routing_operations db) (req_operation q) = None"
  shows "(case register sha no_faults q db of
      (Inr v, db') \<Rightarrow>
        ledger_allows (ledger_of s) q
        \<and> ledger_room (length (routing_operations db)) (snap_revision s) (ledger_of s) q
        \<and> (\<exists>s'. daemon_snapshot no_faults db' = Inr s' \<and> ledger_of s' = ledger_claim q (ledger_of s)
            \<and> snap_revision s' = v \<and> v = snap_revision s + 1)
    | (Inl e, db') \<Rightarrow> db' = db
        \<and> \<not> (ledger_allows (ledger_of s) q
          \<and> ledger_room (length (routing_operations db)) (snap_revision s) (ledger_of s) q))"
proof -
  from inv snap obtain b where b: "routing_state db = Some b" "read_snapshot b = Inr s" and ok: "snapshot_ok owner s"
    by (auto elim!: registry_invE simp: daemon_snapshot_row)
  show ?thesis
  proof (cases "register_checks (length (routing_operations db)) s q = Inr ()")
    case True
    from register_fresh_succeeds [OF new b True] obtain db' where
      db': "register sha no_faults q db = (Inr (snap_revision s + 1), db')"
      and fresh: "fresh_registration sha q db s db'" by blast
    from True db' fresh_registration_snapshots(2) [OF fresh inv] show ?thesis
      by (auto simp: register_checks_ledger [OF ok] ledger_of_apply)
  next
    case False
    then obtain e where "register_checks (length (routing_operations db)) s q = Inl e"
      by (cases "register_checks (length (routing_operations db)) s q") auto
    with b new have "register sha no_faults q db = (Inl e, db)"
      by (simp add: register_def register_new_def select_body_def)
    with False show ?thesis by (simp add: register_checks_ledger [OF ok])
  qed
qed

theorem register_refines_ledger_witness:
  "\<exists>s'. daemon_snapshot no_faults sample_db = Inr s'
     \<and> ledger_of s' = ledger_claim (sample_request False) (ledger_of (initial_snapshot ''worker-1''))"
proof -
  have snap: "daemon_snapshot no_faults (initial_db ''worker-1'') = Inr (initial_snapshot ''worker-1'')"
    by (simp add: register_eval)
  have new: "gm_get (routing_operations (initial_db ''worker-1'')) (req_operation (sample_request False)) = None"
    by (simp add: register_eval)
  have run: "register (\<lambda>s. s) no_faults (sample_request False) (initial_db ''worker-1'') = (Inr 2, sample_db)"
    by (simp add: sample_db_def register_eval)
  from register_refines_ledger [OF registry_inv_initial snap new, of "\<lambda>s. s"] show ?thesis
    unfolding run by auto
qed

text \<open>C5. An endpoint belongs to the first instance registered with it for the lifetime of the database, retired or
not: whatever is registered later, an instance found with that endpoint is the same instance.\<close>

theorem endpoint_reserved_for_life:
  assumes "daemon_snapshot no_faults (registry_after sha owner calls) = Inr s"
    and "gm_get (snap_records s) k = Some r"
    and later: "daemon_snapshot no_faults (run_calls (register sha) later (registry_after sha owner calls)) = Inr s'"
    and "gm_get (snap_records s') k' = Some r'" and "rec_endpoint r' = rec_endpoint r"
  shows "k' = k"
proof -
  have "history_extends s s'"
    using registry_after_extends [where sha = sha and owner = owner and calls = calls and later = later] assms(1) later by (simp add: db_extends_def)
  then obtain new where new: "gm_get (snap_records s') k = Some new" "rec_endpoint new = rec_endpoint r"
    using assms(2) by (auto simp: history_extends_def record_extends_def elim!: records_extend_get)
  have "registry_inv owner (run_calls (register sha) later (registry_after sha owner calls))"
    by (rule registry.runs_inv) (rule registry_after_inv)
  with later have "snapshot_ok owner s'" by (auto elim!: registry_inv_snapshot)
  with new assms(4,5) show ?thesis
    by (fastforce simp: snapshot_ok_def endpoints_unique_def dest!: map_of_SomeD)
qed

theorem endpoint_reserved_for_life_witness:
  "{k. \<exists>r. gm_get (snap_records (register_apply (register_apply (initial_snapshot ''worker-1'') (sample_request False))
      (sample_request True))) k = Some r \<and> rec_endpoint r = ''127.0.0.1:9000''} \<subseteq> {''one''}"
proof (rule subsetI, elim CollectE exE conjE, unfold singleton_iff)
  let ?s = "register_apply (initial_snapshot ''worker-1'') (sample_request False)"
  let ?t = "register_apply ?s (sample_request True)"
  fix k r
  assume "gm_get (snap_records ?t) k = Some r" and "rec_endpoint r = ''127.0.0.1:9000''"
  then have r: "gm_get (snap_records ?t) k = Some r \<and> rec_endpoint r = ''127.0.0.1:9000''" by simp
  have a: "daemon_snapshot no_faults (registry_after (\<lambda>s. s) ''worker-1'' [(no_faults, sample_request False)]) = Inr ?s"
    by (simp add: register_eval)
  have b: "gm_get (snap_records ?s) ''one'' = Some (registered_record 2 (sample_request False))"
    by (simp add: register_eval)
  have c: "daemon_snapshot no_faults (run_calls (register (\<lambda>s. s)) [(no_faults, sample_request True)]
      (registry_after (\<lambda>s. s) ''worker-1'' [(no_faults, sample_request False)])) = Inr ?t"
    by (simp add: register_eval)
  have e: "rec_endpoint r = rec_endpoint (registered_record 2 (sample_request False))"
    using r by (simp add: sample_request_def)
  show "k = ''one''"
    by (rule endpoint_reserved_for_life [OF a b c conjunct1 [OF r] e])
qed

end
