(* ===== verification/Management.thy ===== *)
theory Management
  imports Registry_Props Daemon_Config Netip
begin

section \<open>The management service: serveWorker\<close>

text \<open>
  \<^verbatim>\<open>serveWorker\<close> of \<^verbatim>\<open>cmd/worker/serve.go\<close>: what it checks before it listens, and the three HTTP handlers. The
  outcome of every call into the operating system and SQLite is an input. The external restore guard is
  a file; what \<^verbatim>\<open>os.Stat\<close> says of it is an input of each request.
\<close>

subsection \<open>The daemon's state\<close>

record instanceObservation =
  obs_state :: string
  obs_app :: string
  obs_instance :: string
  obs_version :: string
  obs_endpoint :: string
  obs_checked :: int

datatype publication = Published int | Unpublished string

record workerDaemon =
  dm_config :: daemonConfig
  dm_allowed :: "string list"
  dm_publications :: "(string, publication) go_map"
  dm_identities :: "(string, instanceObservation) go_map"
  dm_status_version :: int
  dm_epoch :: "int option"

subsection \<open>Startup\<close>

record startup_io =
  st_config :: "(nat \<times> json result) result"
  st_lock :: "unit result"
  st_open :: "unit result"
  st_mode :: "string result"
  st_sync :: "int result"
  st_create :: "unit result"
  st_insert :: "unit result"
  st_epoch :: "int result"
  st_query :: sql_faults

text \<open>Everything before the first write: flags, configuration, lock, and the durability settings of SQLite.\<close>

definition serve_checks :: "string \<Rightarrow> string \<Rightarrow> startup_io \<Rightarrow> (daemonConfig \<times> string list) result" where
  "serve_checks configPath statePath io =
     (if statePath = [] \<or> configPath = [] then Inl ''config and state required''
      else and_then (st_config io) (\<lambda>(len, doc).
        if 65536 < len then Inl ''config too large''
        else and_then doc (\<lambda>j. and_then (read_config True j) (\<lambda>config.
          and_then (validate_config config) (\<lambda>allowed.
          and_then (st_lock io) (\<lambda>_. and_then (st_open io) (\<lambda>_.
          and_then (st_mode io) (\<lambda>mode. and_then (st_sync io) (\<lambda>sync.
          if mode \<noteq> ''wal'' \<or> sync \<noteq> 2 then Inl ''SQLite durability mismatch''
          else and_then (st_create io) (\<lambda>_. Inr (config, allowed)))))))))))"

definition insert_or_ignore :: "string \<Rightarrow> routing_db \<Rightarrow> routing_db" where
  "insert_or_ignore owner db = (case routing_state db of
     None \<Rightarrow> db\<lparr>routing_state := Some (marshal_snapshot (initial_snapshot owner))\<rparr> | Some _ \<Rightarrow> db)"

definition serve_ready :: "int \<Rightarrow> startup_io \<Rightarrow> daemonConfig \<Rightarrow> string list \<Rightarrow> routing_db \<Rightarrow> workerDaemon result" where
  "serve_ready statusVersion io config allowed db =
     and_then (if statusVersion = 2 then and_then (st_epoch io) (\<lambda>e. Inr (Some e))
               else if statusVersion \<noteq> 1 then Inl ''unsupported status schema'' else Inr None) (\<lambda>epoch.
     and_then (daemon_snapshot (st_query io) db) (\<lambda>current.
     if snap_owner current \<noteq> cfg_owner config then Inl ''database belongs to another owner''
     else Inr \<lparr>dm_config = config, dm_allowed = allowed, dm_publications = [], dm_identities = [],
       dm_status_version = statusVersion, dm_epoch = epoch\<rparr>))"

definition serve_setup :: "string \<Rightarrow> string \<Rightarrow> int \<Rightarrow> startup_io \<Rightarrow> routing_db \<Rightarrow> workerDaemon result \<times> routing_db" where
  "serve_setup configPath statePath statusVersion io db =
     (case serve_checks configPath statePath io of Inl e \<Rightarrow> (Inl e, db)
      | Inr (config, allowed) \<Rightarrow>
        (case st_insert io of Inl e \<Rightarrow> (Inl e, db)
         | Inr _ \<Rightarrow> (let db' = insert_or_ignore (cfg_owner config) db in
             (serve_ready statusVersion io config allowed db', db'))))"

subsection \<open>Requests\<close>

record http_request =
  rq_method :: string
  rq_authorization :: string
  rq_body :: "json result list"

datatype http_body =
    ErrorText string
  | SnapshotBody routeSnapshot
  | CommittedBody u64
  | StatusBody string "(string, publication) go_map" "(string, instanceObservation) go_map" int "int option"

type_synonym http_response = "nat \<times> http_body"

datatype stat_result = Present | Absent | StatFailed string

text \<open>\<^verbatim>\<open>err == nil || !os.IsNotExist(err)\<close>: anything but a definite absence counts as the guard being there.\<close>

definition guarded :: "stat_result \<Rightarrow> bool" where
  "guarded s \<longleftrightarrow> s \<noteq> Absent"

text \<open>\<^verbatim>\<open>subtle.ConstantTimeCompare\<close> accumulates the differing bits of all bytes.\<close>

definition byte_of :: "char \<Rightarrow> 8 word" where
  "byte_of c = of_nat (of_char c)"

definition constant_time_compare :: "string \<Rightarrow> string \<Rightarrow> bool" where
  "constant_time_compare x y =
     (if length x \<noteq> length y then False
      else fold (\<lambda>(a, b) v. or v (xor (byte_of a) (byte_of b))) (zip x y) 0 = (0 :: 8 word))"

definition authorized :: "http_request \<Rightarrow> string \<Rightarrow> bool" where
  "authorized r token = constant_time_compare (rq_authorization r) (''Bearer '' @ token)"

text \<open>The handler of \<^verbatim>\<open>/snapshot\<close>.\<close>

definition handle_snapshot :: "workerDaemon \<Rightarrow> stat_result \<Rightarrow> sql_faults \<Rightarrow> http_request \<Rightarrow> routing_db \<Rightarrow> http_response" where
  "handle_snapshot d st faults r db =
     (if rq_method r \<noteq> ''GET'' then (405, ErrorText ''method'')
      else if \<not> authorized r (cfg_token (dm_config d)) then (401, ErrorText ''credential'')
      else if guarded st then (503, ErrorText ''publication disabled'')
      else case daemon_snapshot faults db of
        Inl e \<Rightarrow> (503, ErrorText e)
      | Inr s \<Rightarrow> (200, SnapshotBody s))"

text \<open>Two calls of \<^verbatim>\<open>decoder.Decode\<close>: a registration, then the end of the input.\<close>

definition decode_registration :: "json result list \<Rightarrow> registration result" where
  "decode_registration docs = (case docs of
     [] \<Rightarrow> Inl ''EOF''
   | doc # rest \<Rightarrow> and_then doc (\<lambda>j. and_then (read_registration j) (\<lambda>q.
       if rest \<noteq> [] then Inl ''trailing input'' else Inr q)))"

text \<open>Names, the literal endpoint in its canonical spelling, and the configured ownership.\<close>

definition admit_registration :: "daemonConfig \<Rightarrow> string list \<Rightarrow> registration \<Rightarrow> registration result" where
  "admit_registration config allowed q =
     (if \<not> routeName (req_operation q) \<or> \<not> routeName (req_id q) \<or> req_app q \<notin> set allowed then
        Inl ''invalid operation or application''
      else case parse_addr_port (req_endpoint q) of
        None \<Rightarrow> Inl ''expected literal backend endpoint''
      | Some (a, port) \<Rightarrow>
        if port = 0 \<or> is_unspecified a \<or> is_multicast a then Inl ''expected literal backend endpoint''
        else (let q' = q\<lparr>req_endpoint := show_addr_port (unmap a, port)\<rparr> in
          case gm_get (cfg_workloads config) (req_id q') of
            None \<Rightarrow> Inl ''instance outside configured ownership''
          | Some expected \<Rightarrow>
            if wl_app expected \<noteq> req_app q' \<or> wl_endpoint expected \<noteq> req_endpoint q' then
              Inl ''instance outside configured ownership''
            else Inr q'))"

text \<open>The handler of \<^verbatim>\<open>/instances\<close>: the response and the database afterwards.\<close>

definition handle_instances ::
  "(string \<Rightarrow> string) \<Rightarrow> workerDaemon \<Rightarrow> stat_result \<Rightarrow> sql_faults \<Rightarrow> http_request \<Rightarrow> routing_db \<Rightarrow> http_response \<times> routing_db" where
  "handle_instances sha d st faults r db =
     (if rq_method r \<noteq> ''POST'' then ((405, ErrorText ''method''), db)
      else if \<not> authorized r (cfg_admin_token (dm_config d)) then ((401, ErrorText ''credential''), db)
      else if guarded st then ((503, ErrorText ''restore mode''), db)
      else case and_then (decode_registration (rq_body r)) (admit_registration (dm_config d) (dm_allowed d)) of
        Inl e \<Rightarrow> ((400, ErrorText e), db)
      | Inr q \<Rightarrow>
        (case register sha faults q db of
          (Inl e, db') \<Rightarrow> ((409, ErrorText e), db')
        | (Inr v, db') \<Rightarrow> ((200, CommittedBody v), db')))"

text \<open>The handler of \<^verbatim>\<open>/status\<close>: a verified observation older than five seconds is reported as stale.\<close>

definition status_observation :: "int \<Rightarrow> instanceObservation \<Rightarrow> instanceObservation" where
  "status_observation now o' =
     (if obs_state o' = ''verified'' \<and> now - obs_checked o' > 5000 then o'\<lparr>obs_state := ''stale''\<rparr> else o')"

definition handle_status :: "int \<Rightarrow> workerDaemon \<Rightarrow> http_response" where
  "handle_status now d = (200, StatusBody (cfg_owner (dm_config d)) (dm_publications d)
     (map (\<lambda>(k, o'). (k, status_observation now o')) (dm_identities d)) (dm_status_version d) (dm_epoch d))"

subsection \<open>Comparison of credentials\<close>

lemma unat_byte_of: "unat (byte_of c) = of_char c"
  using of_char_less_256 [of c] by (simp add: byte_of_def unat_of_nat)

lemma byte_of_inj: "byte_of a = byte_of b \<longleftrightarrow> a = b"
  by (metis unat_byte_of char_of_char)

lemma xor_zero_iff: "xor v w = 0 \<longleftrightarrow> v = (w :: 8 word)"
  by (auto simp: bit_eq_iff bit_simps)

lemma fold_or_zero:
  "fold (\<lambda>(a, b) v. or v (xor (byte_of a) (byte_of b))) xys v = 0 \<longleftrightarrow>
     v = 0 \<and> list_all (\<lambda>(a, b). a = b) xys"
proof (induction xys arbitrary: v)
  case (Cons xy xys)
  obtain a b where xy: "xy = (a, b)" by (cases xy)
  have "or v (xor (byte_of a) (byte_of b)) = 0 \<longleftrightarrow> v = 0 \<and> a = b"
    by (simp only: or_eq_0_iff xor_zero_iff byte_of_inj)
  with Cons xy show ?case by simp
qed simp

lemma constant_time_compare_iff: "constant_time_compare x y \<longleftrightarrow> x = y"
proof -
  have "length x = length y \<Longrightarrow> list_all (\<lambda>(a, b). a = b) (zip x y) \<longleftrightarrow> x = y"
    by (induction x y rule: list_induct2) auto
  then show ?thesis by (auto simp: constant_time_compare_def fold_or_zero)
qed

lemma authorized_iff: "authorized r token \<longleftrightarrow> rq_authorization r = ''Bearer '' @ token"
  by (simp add: authorized_def constant_time_compare_iff)

end
