(* ===== verification/Management_Props.thy ===== *)
theory Management_Props
  imports Management
begin

section \<open>What the management service promises\<close>

text \<open>
  The conditions under which a request changes the database or is shown the snapshot, the ownership check
  at startup, and the endpoints that are admitted.
\<close>

subsection \<open>Admission\<close>

lemma admit_registration_ok:
  assumes "admit_registration config allowed q = Inr q'"
  shows "\<exists>a port w. parse_addr_port (req_endpoint q) = Some (a, port) \<and> port \<noteq> 0 \<and> \<not> is_unspecified a
      \<and> \<not> is_multicast a \<and> q' = q\<lparr>req_endpoint := show_addr_port (unmap a, port)\<rparr>
      \<and> gm_get (cfg_workloads config) (req_id q') = Some w \<and> wl_app w = req_app q'
      \<and> wl_endpoint w = req_endpoint q' \<and> routeName (req_operation q') \<and> routeName (req_id q')
      \<and> req_app q' \<in> set allowed"
  using assms
  by (auto simp: admit_registration_def Let_def split: if_splits option.splits prod.splits)

lemma unmap_V4: "is_multicast (V4 os) \<longleftrightarrow> hd os div 16 = 14"
  by (simp add: is_multicast_def unmap_def is_4in6_def)

subsection \<open>Properties\<close>

definition daemon_row :: "daemonConfig \<Rightarrow> workerDaemon" where
  "daemon_row config = \<lparr>dm_config = config, dm_allowed = remdups (cfg_applications config), dm_publications = [],
     dm_identities = [], dm_status_version = 1, dm_epoch = None\<rparr>"

definition sample_token :: "char \<Rightarrow> string" where
  "sample_token c = replicate 32 c"

definition sample_config :: "string \<Rightarrow> daemonConfig" where
  "sample_config endpoint = \<lparr>cfg_router_admin_token = sample_token CHR ''r'',
     cfg_workloads = [(''one'', \<lparr>wl_unit = ''edgelab-one.service'', wl_app = ''echo'', wl_endpoint = endpoint,
       wl_version = ''v1'', wl_kind = ''echo''\<rparr>)],
     cfg_owner = ''worker-1'', cfg_applications = [''echo''], cfg_token = sample_token CHR ''t'',
     cfg_admin_token = sample_token CHR ''a'', cfg_routers = [''http://127.0.0.1:1'', ''http://127.0.0.1:2''],
     cfg_restore_guard = ''/guard''\<rparr>"

definition sample_post :: "registration \<Rightarrow> http_request" where
  "sample_post q = \<lparr>rq_method = ''POST'', rq_authorization = ''Bearer '' @ sample_token CHR ''a'',
     rq_body = [Inr (marshal_registration q)]\<rparr>"

text \<open>C8. The management service changes the database only for a POST that carries the administrative
credential, while the restore guard is definitely absent, and whose body is one registration of a
configured instance: the stored request names the application and exactly the endpoint text configured
for that instance, in canonical spelling, and the database afterwards is the one the registry made of it.\<close>

theorem instance_change_is_authorized:
  assumes "handle_instances sha d st faults r db = (resp, db')" and "db' \<noteq> db \<or> fst resp = 200"
  shows "rq_method r = ''POST'' \<and> rq_authorization r = ''Bearer '' @ cfg_admin_token (dm_config d) \<and> st = Absent
    \<and> (\<exists>j q a port w v. rq_body r = [Inr j] \<and> read_registration j = Inr q
        \<and> parse_addr_port (req_endpoint q) = Some (a, port)
        \<and> gm_get (cfg_workloads (dm_config d)) (req_id q) = Some w \<and> wl_app w = req_app q
        \<and> wl_endpoint w = show_addr_port (unmap a, port) \<and> req_app q \<in> set (dm_allowed d)
        \<and> register sha faults (q\<lparr>req_endpoint := wl_endpoint w\<rparr>) db = (Inr v, db')
        \<and> resp = (200, CommittedBody v))"
proof -
  from assms obtain q' v where guards: "rq_method r = ''POST''" "authorized r (cfg_admin_token (dm_config d))" "\<not> guarded st"
    and admitted: "and_then (decode_registration (rq_body r)) (admit_registration (dm_config d) (dm_allowed d)) = Inr q'"
    and reg: "register sha faults q' db = (Inr v, db')" "resp = (200, CommittedBody v)"
    by (auto simp: handle_instances_def split: if_splits sum.splits prod.splits dest: register_error_frame)
  from admitted obtain q where decoded: "decode_registration (rq_body r) = Inr q"
    and admit: "admit_registration (dm_config d) (dm_allowed d) q = Inr q'"
    by (auto simp: and_then_eq_Inr)
  from decoded obtain j where "rq_body r = [Inr j]" "read_registration j = Inr q"
    by (auto simp: decode_registration_def and_then_eq_Inr split: list.splits if_splits)
  with admit_registration_ok [OF admit] guards reg show ?thesis
    by (auto simp: authorized_iff guarded_def)
qed

theorem instance_change_is_authorized_witness:
  "\<exists>v. fst (handle_instances (\<lambda>s. s) (daemon_row (sample_config ''127.0.0.1:9000'')) Absent no_faults
     (sample_post (sample_request False)) (initial_db ''worker-1'')) = (200, CommittedBody v)
   \<and> snd (handle_instances (\<lambda>s. s) (daemon_row (sample_config ''127.0.0.1:9000'')) Absent no_faults
     (sample_post (sample_request False)) (initial_db ''worker-1'')) \<noteq> initial_db ''worker-1''"
proof -
  let ?d = "daemon_row (sample_config ''127.0.0.1:9000'')"
  let ?run = "handle_instances (\<lambda>s. s) ?d Absent no_faults (sample_post (sample_request False)) (initial_db ''worker-1'')"
  have parse: "parse_addr_port ''127.0.0.1:9000'' = Some (V4 [127, 0, 0, 1], 9000)"
    and names: "routeName ''op-1''" "routeName ''one''"
    and shown: "show_addr_port (unmap (V4 [127, 0, 0, 1]), 9000) = ''127.0.0.1:9000''"
    by code_simp+
  have "\<not> is_unspecified (V4 [127, 0, 0, 1])" "\<not> is_multicast (V4 [127, 0, 0, 1])"
    by (simp_all add: is_unspecified_def unmap_V4)
  with parse names shown have admit: "admit_registration (dm_config ?d) (dm_allowed ?d) (sample_request False)
      = Inr (sample_request False)"
    by (simp add: admit_registration_def daemon_row_def sample_config_def sample_request_def)
  then have run: "?run = ((200, CommittedBody 2), sample_db)"
    by (simp add: handle_instances_def sample_post_def decode_registration_def read_marshal_registration
        authorized_iff guarded_def daemon_row_def sample_config_def)
      (simp add: sample_db_def register_eval)
  have "sample_db \<noteq> initial_db ''worker-1''"
    by (simp add: sample_db_def register_eval)
  moreover have "fst ?run = (200, CommittedBody 2)" by (simp add: run)
  ultimately show ?thesis
    using instance_change_is_authorized [of "\<lambda>s. s" ?d Absent no_faults "sample_post (sample_request False)"
        "initial_db ''worker-1''" "(200, CommittedBody 2)" sample_db] run by auto
qed

text \<open>C9. A daemon that starts has a valid configuration with WAL and FULL synchronisation, serves a database
whose snapshot belongs to the configured owner, and has left an existing body untouched; on an empty
database it has stored the initial snapshot. Starting again on the result changes nothing.\<close>

theorem startup_keeps_ownership:
  assumes "serve_setup configPath statePath statusVersion io db = (Inr d, db')"
  shows "validate_config (dm_config d) = Inr (dm_allowed d) \<and> st_mode io = Inr ''wal'' \<and> st_sync io = Inr 2
    \<and> (\<exists>s. daemon_snapshot no_faults db' = Inr s \<and> snap_owner s = cfg_owner (dm_config d))
    \<and> (routing_state db \<noteq> None \<longrightarrow> db' = db)
    \<and> (routing_state db = None \<longrightarrow> daemon_snapshot no_faults db' = Inr (initial_snapshot (cfg_owner (dm_config d))))
    \<and> snd (serve_setup configPath statePath statusVersion io db') = db'"
proof -
  from assms obtain config allowed where checks: "serve_checks configPath statePath io = Inr (config, allowed)"
    and db': "db' = insert_or_ignore (cfg_owner config) db"
    and ready: "serve_ready statusVersion io config allowed db' = Inr d"
    and ins: "st_insert io = Inr ()"
    by (auto simp: serve_setup_def Let_def split: sum.splits prod.splits)
  from checks have "validate_config config = Inr allowed" "st_mode io = Inr ''wal''" "st_sync io = Inr 2"
    by (auto simp: serve_checks_def and_then_eq_Inr split: if_splits prod.splits)
  moreover from ready have "dm_config d = config" "dm_allowed d = allowed"
    and "\<exists>s. daemon_snapshot no_faults db' = Inr s \<and> snap_owner s = cfg_owner config"
    by (auto simp: serve_ready_def and_then_eq_Inr daemon_snapshot_def sql_eq_Inr split: if_splits)
  moreover have "insert_or_ignore (cfg_owner config) db' = db'"
    by (auto simp: db' insert_or_ignore_def split: option.splits)
  moreover have "snapshot_wf (initial_snapshot (cfg_owner config))"
    by (simp add: snapshot_wf_def initial_snapshot_def)
  ultimately show ?thesis
    using checks ins
    by (auto simp: db' insert_or_ignore_def serve_setup_def Let_def daemon_snapshot_row read_marshal_snapshot
        split: option.splits)
qed

definition sample_startup :: startup_io where
  "sample_startup = \<lparr>st_config = Inr (900, Inr (marshal_config (sample_config ''127.0.0.1:9000''))), st_lock = Inr (),
     st_open = Inr (), st_mode = Inr ''wal'', st_sync = Inr 2, st_create = Inr (), st_insert = Inr (),
     st_epoch = Inl ''no such column: deployment_epoch'', st_query = no_faults\<rparr>"

lemma sample_startup_checks:
  "serve_checks ''config.json'' ''state.db'' sample_startup = Inr (sample_config ''127.0.0.1:9000'', [''echo''])"
proof -
  have "validate_config (sample_config ''127.0.0.1:9000'') = Inr [''echo'']" by code_simp
  then show ?thesis
    by (simp add: serve_checks_def sample_startup_def read_marshal_config sample_config_def gm_ok_def)
qed

theorem startup_keeps_ownership_witness:
  "daemon_snapshot no_faults (snd (serve_setup ''config.json'' ''state.db'' 1 sample_startup
     \<lparr>routing_state = None, routing_operations = []\<rparr>)) = Inr (initial_snapshot ''worker-1'')"
proof -
  let ?db = "\<lparr>routing_state = None, routing_operations = []\<rparr> :: routing_db"
  have "fst (serve_setup ''config.json'' ''state.db'' 1 sample_startup ?db) =
      Inr (daemon_row (sample_config ''127.0.0.1:9000''))"
    by (simp add: serve_setup_def sample_startup_checks Let_def)
      (simp add: sample_startup_def serve_ready_def insert_or_ignore_def sample_config_def daemon_row_def
        register_eval)
  then have "serve_setup ''config.json'' ''state.db'' 1 sample_startup ?db = (Inr (daemon_row (sample_config ''127.0.0.1:9000'')),
      snd (serve_setup ''config.json'' ''state.db'' 1 sample_startup ?db))"
    by (metis prod.collapse)
  from startup_keeps_ownership [OF this] show ?thesis
    by (simp add: daemon_row_def sample_config_def)
qed

text \<open>A worker started with status schema 2 on a database without its column never becomes ready, and the
database an earlier worker serves stays as it was.\<close>

theorem schema_two_needs_its_column:
  assumes "st_epoch io = Inl e" and "routing_state db \<noteq> None"
  shows "\<exists>e'. serve_setup configPath statePath 2 io db = (Inl e', db)"
  using assms
  by (auto simp: serve_setup_def serve_ready_def insert_or_ignore_def Let_def split: sum.splits prod.splits)

theorem schema_two_needs_its_column_witness:
  "\<exists>e. serve_setup ''config.json'' ''state.db'' 2 sample_startup (initial_db ''worker-1'') = (Inl e, initial_db ''worker-1'')"
  by (rule schema_two_needs_its_column) (simp_all add: sample_startup_def initial_db_def)



definition request_at :: "string \<Rightarrow> registration" where
  "request_at endpoint = (sample_request False)\<lparr>req_endpoint := endpoint\<rparr>"

definition unspecified_post :: "(string \<Rightarrow> string) \<Rightarrow> string \<Rightarrow> http_response \<times> routing_db" where
  "unspecified_post sha endpoint = handle_instances sha (daemon_row (sample_config ''0.0.0.0:9000'')) Absent no_faults
     (sample_post (request_at endpoint)) (initial_db ''worker-1'')"

text \<open>The address classes are tested before the mapped form is unwrapped: the unspecified address is refused
as \<open>0.0.0.0\<close>, but its IPv4-mapped spelling is admitted, is stored as \<open>0.0.0.0\<close> when the configured endpoint
is that text, and every router then refuses the owner's snapshots.\<close>

theorem mapped_unspecified_is_admitted:
  "fst (unspecified_post sha ''0.0.0.0:9000'') = (400, ErrorText ''expected literal backend endpoint'')
    \<and> fst (unspecified_post sha ''[::ffff:0.0.0.0]:9000'') = (200, CommittedBody 2)
    \<and> (\<exists>s. daemon_snapshot no_faults (snd (unspecified_post sha ''[::ffff:0.0.0.0]:9000'')) = Inr s
        \<and> (\<forall>json_bytes st policy now st'. router_accept json_bytes st ''worker-1'' s policy now \<noteq> Inr st'))"
proof -
  have parse: "parse_addr_port ''[::ffff:0.0.0.0]:9000'' = Some (V6 [0, 0, 0, 0, 0, 65535, 0, 0] [], 9000)"
    "parse_addr_port ''0.0.0.0:9000'' = Some (V4 [0, 0, 0, 0], 9000)"
    and names: "routeName ''op-1''" "routeName ''one''"
    and shown: "show_addr_port (unmap (V6 [0, 0, 0, 0, 0, 65535, 0, 0] []), 9000) = ''0.0.0.0:9000''"
    and cls: "is_unspecified (V4 [0, 0, 0, 0])" "\<not> is_unspecified (V6 [0, 0, 0, 0, 0, 65535, 0, 0] [])"
      "\<not> is_multicast (V6 [0, 0, 0, 0, 0, 65535, 0, 0] [])"
    by code_simp+
  let ?d = "daemon_row (sample_config ''0.0.0.0:9000'')"
  let ?q = "request_at ''0.0.0.0:9000''"
  let ?m = "request_at ''[::ffff:0.0.0.0]:9000''"
  have "admit_registration (dm_config ?d) (dm_allowed ?d) ?q
      = Inl ''expected literal backend endpoint''"
    using parse names cls
    by (simp add: admit_registration_def daemon_row_def sample_config_def request_at_def sample_request_def)
  then have refused: "fst (handle_instances sha ?d Absent no_faults (sample_post ?q)
      (initial_db ''worker-1'')) = (400, ErrorText ''expected literal backend endpoint'')"
    by (simp add: handle_instances_def sample_post_def decode_registration_def read_marshal_registration
        authorized_iff guarded_def daemon_row_def sample_config_def)
  let ?s = "register_apply (initial_snapshot ''worker-1'') ?q"
  have "admit_registration (dm_config ?d) (dm_allowed ?d) ?m = Inr ?q"
    using parse names shown cls
    by (simp add: admit_registration_def daemon_row_def sample_config_def request_at_def sample_request_def)
  then have run: "handle_instances sha ?d Absent no_faults (sample_post ?m) (initial_db ''worker-1'') =
      (let (v, db') = register sha no_faults ?q (initial_db ''worker-1'')
       in case v of Inl e \<Rightarrow> ((409, ErrorText e), db') | Inr v \<Rightarrow> ((200, CommittedBody v), db'))"
    by (simp add: handle_instances_def sample_post_def decode_registration_def read_marshal_registration
        authorized_iff guarded_def daemon_row_def sample_config_def split: prod.splits sum.splits)
  have reg: "fst (register sha no_faults ?q (initial_db ''worker-1'')) = Inr 2"
    and snap: "daemon_snapshot no_faults (snd (register sha no_faults ?q (initial_db ''worker-1''))) = Inr ?s"
    by (simp_all add: request_at_def register_eval)
  have "snap_records ?s = [(''one'', registered_record 2 ?q)]"
    by (simp add: initial_snapshot_def request_at_def sample_request_def)
  moreover have "\<not> usable_endpoint ''0.0.0.0:9000''"
    using parse cls by (simp add: usable_endpoint_def)
  moreover have "req_endpoint ?q = ''0.0.0.0:9000''" by (simp add: request_at_def)
  ultimately have "fold_result (record_check policy st ?s) (snap_records ?s) [] \<noteq> Inr x" for policy st x
    by (simp add: record_check_def valid_record_def)
  then have "router_accept json_bytes st ''worker-1'' ?s policy now \<noteq> Inr st'" for json_bytes st policy now st'
    by (auto simp: router_accept_def Let_def and_then_eq_Inr)
  with refused reg snap run show ?thesis
    unfolding unspecified_post_def
    by (cases "register sha no_faults ?q (initial_db ''worker-1'')") auto
qed

end
