(* ===== verification/Recovery_Safety.thy ===== *)
theory Recovery_Safety
  imports Recovery_Peers Recovery_Props Management_Props
begin

section \<open>Safety of interrupted recoveries\<close>

text \<open>
  What any number of attempts at a recovery leaves behind, each with its own random credential, its own
  outcome for every external call, and possibly the injected crash after the first acknowledgement.
\<close>

definition recover_attempt :: "(string \<Rightarrow> string) \<Rightarrow> 'p router_peer \<Rightarrow> recovery_args \<Rightarrow> bool \<times> recovery_io
    \<Rightarrow> ('p, nat \<times> nat) recovery_action" where
  "recover_attempt sha peer a ci = recoverWorker sha peer (a\<lparr>arg_crash := fst ci\<rparr>) (snd ci)"

abbreviation recovery_after :: "(string \<Rightarrow> string) \<Rightarrow> 'p router_peer \<Rightarrow> recovery_args
    \<Rightarrow> ((bool \<times> recovery_io) \<times> outcome list) list \<Rightarrow> 'p recovery_world \<Rightarrow> 'p recovery_world" where
  "recovery_after sha peer a attempts w \<equiv> run_attempts (recover_attempt sha peer a) attempts w"

lemma stages_crash [simp]:
  "not_begun (a\<lparr>arg_crash := x\<rparr>) = not_begun a" "begun c (a\<lparr>arg_crash := x\<rparr>) = begun c a"
  "planned ev c (a\<lparr>arg_crash := x\<rparr>) = planned ev c a" "recovery_inv ev c (a\<lparr>arg_crash := x\<rparr>) = recovery_inv ev c a"
  "recovered ev c (a\<lparr>arg_crash := x\<rparr>) = recovered ev c a"
  by (simp_all add: fun_eq_iff not_begun_def begun_def planned_def prepared_def journal_plan_def recovery_inv_def
      recovered_def)

context recovery_peers
begin

lemma attempt_planned:
  "arg_operation a = operation \<Longrightarrow> recovery_site c w0 \<Longrightarrow>
     interrupted (planned ev c a w0 p) (recover_attempt sha peer a ci) (\<lambda>_. recovered ev c a w0 p) (planned ev c a w0 p)"
  using recoverWorker_planned [of "a\<lparr>arg_crash := fst ci\<rparr>" c w0 p "snd ci"] by (simp add: recover_attempt_def)

lemma recovered_planned: "recovered ev c a w0 p w \<Longrightarrow> planned ev c a w0 p w"
  by (simp add: recovered_def)

lemma attempt_inv:
  assumes op: "arg_operation a = operation" and site: "recovery_site c w0"
  shows "interrupted (recovery_inv ev c a w0) (recover_attempt sha peer a ci) (\<lambda>_. recovery_inv ev c a w0) (recovery_inv ev c a w0)"
proof (rule interruptedI)
  fix w os r w' os'
  assume inv: "recovery_inv ev c a w0 w" and run: "recover_attempt sha peer a ci (w, os) = (r, (w', os'))"
  have "recovery_inv ev c a w0 w'"
  proof (cases "\<exists>p. planned ev c a w0 p w")
    case True
    then obtain p where "planned ev c a w0 p w" by blast
    from interruptedD [OF attempt_planned [OF op site] this run] have "planned ev c a w0 p w'"
      by (cases r) (auto dest: recovered_planned)
    then show ?thesis by (auto simp: recovery_inv_def)
  next
    case False
    with inv have "not_begun a w0 w \<or> begun c a w0 w" by (auto simp: recovery_inv_def)
    from interruptedD [OF recoverWorker_fresh [of "a\<lparr>arg_crash := fst ci\<rparr>" c w0 "snd ci"], simplified, OF op site this]
      run show ?thesis
      by (cases r) (fastforce simp: recover_attempt_def recovery_inv_def dest: recovered_planned)+
  qed
  then show "case r of Inl _ \<Rightarrow> recovery_inv ev c a w0 w' | Inr _ \<Rightarrow> recovery_inv ev c a w0 w'" by (simp split: sum.splits)
qed

lemma recovery_after_inv:
  assumes "arg_operation a = operation" and "recovery_site c w0"
  shows "recovery_inv ev c a w0 (recovery_after sha peer a attempts w0)"
  by (rule run_attempts_inv [OF attempt_inv [OF assms]]) (simp add: recovery_inv_def not_begun_def)

lemma planned_stays:
  assumes "arg_operation a = operation" and "recovery_site c w0" and "planned ev c a w0 p w"
  shows "planned ev c a w0 p (recovery_after sha peer a attempts w)"
  by (rule run_attempts_inv [OF interrupted_weaken [OF attempt_planned [OF assms(1,2)]]])
    (auto intro: assms dest: recovered_planned)

text \<open>What the next attempt reads tells the plan.\<close>

lemma planned_resume:
  assumes "planned ev c a w0 p w"
  shows "\<exists>r. resume_journal a c (rw_journal w) = Inr r \<and> journal_plan c a p r"
proof -
  from assms obtain r where "rw_journal w = Some (Inr (marshal_journal r))" "journal_plan c a p r"
    unfolding planned_def prepared_def by blast
  moreover from this have "resume_journal a c (rw_journal w) = Inr r"
    by (simp only:) (rule resume_written, auto simp: journal_plan_def)
  ultimately show ?thesis by blast
qed

lemma resumed_planned:
  assumes op: "arg_operation a = operation" and site: "recovery_site c w0"
    and first: "resume_journal a c (rw_journal (recovery_after sha peer a attempts w0)) = Inr r" "jr_snapshot r = Some s"
  obtains p where "planned ev c a w0 p (recovery_after sha peer a attempts w0)" "plan_snapshot p = s"
    "plan_credential p = jr_credential r" "plan_quarantined p = jr_quarantined r"
proof -
  let ?w = "recovery_after sha peer a attempts w0"
  have "\<exists>p. planned ev c a w0 p ?w"
  proof (rule ccontr)
    assume "\<nexists>p. planned ev c a w0 p ?w"
    with recovery_after_inv [OF op site, of attempts] have "not_begun a w0 ?w \<or> begun c a w0 ?w"
      by (auto simp: recovery_inv_def)
    then have "resume_journal a c (rw_journal ?w) = Inr (fresh_journal (arg_operation a) (cfg_owner c) (arg_state a))"
      using site resume_fresh [of a c] resume_written [OF fresh_journal_wf, of "arg_operation a" "cfg_owner c" "arg_state a" a c]
      by (auto simp: not_begun_def begun_def recovery_site_def fresh_journal_def)
    with first show False by (auto simp: fresh_journal_def)
  qed
  then obtain p where p: "planned ev c a w0 p ?w" by blast
  from planned_resume [OF p] first p show thesis by (intro that [of p]) (auto simp: journal_plan_def)
qed

end

text \<open>Any peers satisfy the interface without evidence; the routers of the repository leave their marks.\<close>

interpretation any: recovery_peers peer sha operation "\<lambda>_ _ _. True" for peer sha operation
  by unfold_locales simp_all

lemma plan_stems_wf: "plan_stems c db p \<Longrightarrow> snapshot_wf (plan_snapshot p)"
proof -
  assume "plan_stems c db p"
  then obtain backup x y where snap: "daemon_snapshot no_faults db = Inr backup"
    and xy: "gm_ok (snap_records x)" "gm_ok (snap_records y)"
    and prep: "prepare_recovery (cfg_owner c) backup [x, y] = Inr (plan_snapshot p, plan_quarantined p)"
    by (auto simp: plan_stems_def)
  from snap have "gm_ok (snap_records backup)"
    by (auto simp: daemon_snapshot_def and_then_eq_Inr intro: read_snapshot_gm_ok)
  from prepare_recovery_ok(1,3) [OF prep this] xy show ?thesis by (simp add: snapshot_wf_def)
qed

lemma planned_unguarded:
  assumes "planned ev c a w0 p w" "rw_guard w = None"
  obtains r where "journal_plan c a p r" "plan_stems c (rw_db w0) p" "rw_journal w = Some (Inr (marshal_journal r))"
    "jr_complete r" "installed c p r w" "routing_operations (rw_db w) = routing_operations (rw_db w0)"
  using assms by (auto simp: planned_def prepared_def)

text \<open>A finished recovery, as its files and the database show it.\<close>

definition recovery_complete :: "daemonConfig \<Rightarrow> 'p recovery_world \<Rightarrow> 'p recovery_world \<Rightarrow> bool" where
  "recovery_complete c w0 w \<longleftrightarrow> (\<exists>backup x y s q r. daemon_snapshot no_faults (rw_db w0) = Inr backup
    \<and> prepare_recovery (cfg_owner c) backup [x, y] = Inr (s, q)
    \<and> daemon_snapshot no_faults (rw_db w) = Inr s \<and> routing_operations (rw_db w) = routing_operations (rw_db w0)
    \<and> rw_journal w = Some (Inr (marshal_journal r)) \<and> jr_complete r \<and> jr_quarantined r = q
    \<and> (\<forall>router \<in> set (cfg_routers c). gm_get (jr_acknowledgements r) router \<noteq> None)
    \<and> rw_config w = Inr (marshal_config (c\<lparr>cfg_token := jr_credential r\<rparr>)))"

lemma recovered_complete:
  assumes "planned ev c a w0 p w" "rw_guard w = None"
  shows "recovery_complete c w0 w"
proof -
  from planned_unguarded [OF assms] obtain r where r: "journal_plan c a p r" "plan_stems c (rw_db w0) p"
    "rw_journal w = Some (Inr (marshal_journal r))" "jr_complete r" "installed c p r w"
    "routing_operations (rw_db w) = routing_operations (rw_db w0)" .
  have "daemon_snapshot no_faults (rw_db w) = Inr (plan_snapshot p)"
    using r(5) plan_stems_wf [OF r(2)] by (simp add: installed_def daemon_snapshot_def select_body_def read_marshal_snapshot)
  with r show ?thesis
    unfolding recovery_complete_def by (fastforce simp: journal_plan_def plan_stems_def installed_def with_token_def)
qed

end
