(* ===== verification/Recovery_Live.thy ===== *)
theory Recovery_Live
  imports Recovery_Safety
begin

section \<open>Completing a recovery\<close>

text \<open>
  A prepared recovery whose routers acknowledge it completes with the next attempt that meets no fault. The
  contract of such routers extends the interface of the peers; the model of the repository's routers
  provides it.
\<close>

subsection \<open>Phases without faults\<close>

lemma begin_clean:
  assumes "recover_arguments a = Inr ()" "rw_config w = Inr j" "recover_config j = Inr config"
    and "resume_journal a config (rw_journal w) = Inr r"
  shows "recover_begin a (w, []) = (Inr (config, r),
    (w\<lparr>rw_guard := Some (arg_operation a), rw_journal := Some (Inr (marshal_journal r))\<rparr>, []))"
  using assms by (simp add: recover_begin_def act_then_def external_def save_journal_def)

lemma open_clean: "io_mode io = ''wal'' \<Longrightarrow> io_sync io = 2 \<Longrightarrow> recover_open io (w, []) = (Inr (), (w, []))"
  by (simp add: recover_open_def act_then_def external_def)

lemma install_clean:
  "routing_state (rw_db w) \<noteq> None \<Longrightarrow> \<exists>n w'. recover_install config r s (w, []) = (Inr n, (w', []))
    \<and> rw_guard w' = None \<and> rw_db w' = (rw_db w)\<lparr>routing_state := Some (marshal_snapshot s)\<rparr>"
  by (auto simp: recover_install_def act_then_def external_def save_journal_def update_state_def)

lemma call_clean:
  assumes "peer (trim_right router CHR ''/'' @ ''/recovery'') (''Bearer '' @ cfg_router_admin_token config)
      \<lparr>call_owner = cfg_owner config, call_operation = op, call_snapshot = s, call_hash = h\<rparr> (rw_peers w) = (reply, ps)"
    and "decode_reply reply = Inr answer"
  shows "call_router peer config op router s h (w, []) = (Inr answer, (w\<lparr>rw_peers := ps\<rparr>, []))"
  using assms by (simp add: call_router_def)

lemma acknowledge_clean:
  assumes "call_router peer config (arg_operation a) router (jr_snapshot r) (Some (hex_encode (sha (jr_credential r)))) (w, [])
      = (Inr answer, (w', []))"
    and "acc_recovery answer = Some \<lparr>mark_operation = arg_operation a, mark_digest = D\<rparr>"
    and "i = 0 \<or> d = D" "\<not> arg_crash a"
  shows "\<exists>r'. acknowledge_router sha peer config a (i, router) (r, d) (w, []) = (Inr (r', D),
      (w'\<lparr>rw_journal := Some (Inr (marshal_journal r'))\<rparr>, []))
    \<and> jr_snapshot r' = jr_snapshot r \<and> jr_credential r' = jr_credential r"
  using assms
  by (auto simp: acknowledge_router_def act_then_def save_journal_def Let_def)

subsection \<open>A quorum that acknowledges\<close>

locale recovery_quorum = recovery_peers +
  fixes c :: daemonConfig
    and p :: recovery_plan
    and will :: "'a \<Rightarrow> bool"
    and D :: string
  assumes answers: "will ps \<Longrightarrow> router \<in> set (cfg_routers c) \<Longrightarrow>
      \<exists>reply ps' answer. peer (trim_right router CHR ''/'' @ ''/recovery'') (''Bearer '' @ cfg_router_admin_token c)
        (plan_request operation sha p) ps = (reply, ps') \<and> will ps' \<and> decode_reply reply = Inr answer
      \<and> acc_recovery answer = Some \<lparr>mark_operation = operation, mark_digest = D\<rparr>"
begin

lemma one_answer:
  assumes will: "will (rw_peers w)" and router: "router \<in> set (cfg_routers c)"
    and config: "cfg_owner config = cfg_owner c" "cfg_router_admin_token config = cfg_router_admin_token c"
    and plan: "jr_snapshot r = Some (plan_snapshot p)" "jr_credential r = plan_credential p"
      "snap_owner (plan_snapshot p) = cfg_owner c"
    and a: "arg_operation a = operation" "\<not> arg_crash a" and d: "i = 0 \<or> d = D"
  shows "\<exists>r' w'. acknowledge_router sha peer config a (i, router) (r, d) (w, []) = (Inr (r', D), (w', []))
    \<and> will (rw_peers w') \<and> rw_db w' = rw_db w
    \<and> jr_snapshot r' = Some (plan_snapshot p) \<and> jr_credential r' = plan_credential p"
proof -
  from answers [OF will router] obtain reply ps answer where
    call: "peer (trim_right router CHR ''/'' @ ''/recovery'') (''Bearer '' @ cfg_router_admin_token c)
      (plan_request operation sha p) (rw_peers w) = (reply, ps)"
    and ps: "will ps" "decode_reply reply = Inr answer"
      "acc_recovery answer = Some \<lparr>mark_operation = operation, mark_digest = D\<rparr>" by blast
  have "call_router peer config (arg_operation a) router (jr_snapshot r) (Some (hex_encode (sha (jr_credential r)))) (w, [])
      = (Inr answer, (w\<lparr>rw_peers := ps\<rparr>, []))"
    using call ps(2) config plan a(1) by (intro call_clean) (simp_all add: plan_request_def)
  note said = this
  have mark: "acc_recovery answer = Some \<lparr>mark_operation = arg_operation a, mark_digest = D\<rparr>" using ps a(1) by simp
  from acknowledge_clean [where sha = sha and a = a and r = r, OF said mark d a(2)] ps plan show ?thesis by fastforce
qed

text \<open>An attempt on a prepared journal, whatever the database holds.\<close>

lemma resumes:
  assumes op: "arg_operation a = operation" and args: "recover_arguments a = Inr ()"
    and config: "rw_config w = Inr (marshal_config config)" "recover_config (marshal_config config) = Inr config"
    and same: "cfg_owner config = cfg_owner c" "cfg_router_admin_token config = cfg_router_admin_token c"
      "cfg_routers config = cfg_routers c" "cfg_routers c = [x, y]"
    and doc: "rw_journal w = Some (Inr (marshal_journal r))" and plan: "journal_plan c a p r"
    and owner: "snap_owner (plan_snapshot p) = cfg_owner c" and row: "routing_state (rw_db w) \<noteq> None"
    and will: "will (rw_peers w)"
    and cred: "length (plan_credential p) = 64" "hex_decode (plan_credential p) \<noteq> None"
    and io: "io_mode io = ''wal''" "io_sync io = 2"
  shows "\<exists>n w'. recover_attempt sha peer a (False, io) (w, []) = (Inr n, (w', [])) \<and> rw_guard w' = None
    \<and> rw_db w' = (rw_db w)\<lparr>routing_state := Some (marshal_snapshot (plan_snapshot p))\<rparr>"
proof -
  let ?a = "a\<lparr>arg_crash := False\<rparr>"
  have "resume_journal ?a config (rw_journal w) = Inr r"
    using plan same(1) unfolding doc by (intro resume_written) (auto simp: journal_plan_def)
  with config args have start: "recover_begin ?a (w, []) = (Inr (config, r),
      (w\<lparr>rw_guard := Some (arg_operation a), rw_journal := Some (Inr (marshal_journal r))\<rparr>, []))"
    by (subst begin_clean [OF _ config]) (auto simp: recover_arguments_def)
  let ?w1 = "w\<lparr>rw_guard := Some (arg_operation a), rw_journal := Some (Inr (marshal_journal r))\<rparr>"
  have snap: "jr_snapshot r = Some (plan_snapshot p)" "jr_credential r = plan_credential p"
    using plan by (auto simp: journal_plan_def)
  have a: "arg_operation ?a = operation" "\<not> arg_crash ?a" using op by simp_all
  have "will (rw_peers ?w1)" using will by simp
  from one_answer [OF this _ same(1,2) snap owner a, of x 0 "[]"] same(4) obtain r1 w1 where
    one: "acknowledge_router sha peer config ?a (0, x) (r, []) (?w1, []) = (Inr (r1, D), (w1, []))"
    and w1: "will (rw_peers w1)" "rw_db w1 = rw_db ?w1"
    and r1: "jr_snapshot r1 = Some (plan_snapshot p)" "jr_credential r1 = plan_credential p" by auto
  from one_answer [OF w1(1) _ same(1,2) r1 owner a, of y "Suc 0" D] same(4) obtain r2 w2 where
    two: "acknowledge_router sha peer config ?a (Suc 0, y) (r1, D) (w1, []) = (Inr (r2, D), (w2, []))"
    and w2: "rw_db w2 = rw_db w1" by auto
  have ack: "recover_acknowledge sha peer config ?a r (?w1, []) = (Inr r2, (w2, []))"
    using one two by (simp add: recover_acknowledge_def same(3,4) act_then_def)
  have "routing_state (rw_db w2) \<noteq> None" using row w2 w1(2) by simp
  from install_clean [OF this] obtain n w' where inst: "recover_install config r2 (plan_snapshot p) (w2, []) = (Inr n, (w', []))"
    and fin: "rw_guard w' = None" "rw_db w' = (rw_db w2)\<lparr>routing_state := Some (marshal_snapshot (plan_snapshot p))\<rparr>"
    by blast
  have "prepared_snapshot config r = Inr (plan_snapshot p)"
    using snap cred owner same(1) by (simp add: prepared_snapshot_def)
  with ack inst have "recover_send sha peer ?a config r (?w1, []) = (Inr n, (w', []))"
    by (simp add: recover_send_def act_then_def)
  with snap start have run: "recover_attempt sha peer a (False, io) (w, []) = (Inr n, (w', []))"
    by (simp add: recover_attempt_def recoverWorker_def recover_fenced_def act_then_def open_clean [OF io])
  with fin w2 w1(2) show ?thesis by simp
qed

lemma completes:
  assumes op: "arg_operation a = operation" and site: "recovery_site c w0" and w: "planned ev c a w0 p w"
    and will: "will (rw_peers w)" and args: "recover_arguments a = Inr ()"
    and cfg: "recover_config (marshal_config c) = Inr c"
    and cred: "length (plan_credential p) = 64" "hex_decode (plan_credential p) \<noteq> None"
    and io: "io_mode io = ''wal''" "io_sync io = 2"
  shows "\<exists>n w'. recover_attempt sha peer a (False, io) (w, []) = (Inr n, (w', [])) \<and> recovered ev c a w0 p w'"
proof -
  from w obtain r where r: "prepared ev c a w0 p r w" by (auto simp: planned_def)
  then have plan: "journal_plan c a p r" and stems: "plan_stems c (rw_db w0) p"
    and doc: "rw_journal w = Some (Inr (marshal_journal r))" by (auto simp: prepared_def)
  have token: "recover_config (marshal_config (with_token c p)) = Inr (with_token c p)"
    using cfg site by (auto simp: recover_config_def recovery_site_def read_marshal_config with_token_def split: if_splits)
  obtain config where config: "config = c \<or> config = with_token c p" "rw_config w = Inr (marshal_config config)"
    "recover_config (marshal_config config) = Inr config"
    using r cfg token by (auto simp: prepared_def)
  obtain x y where xy: "cfg_routers c = [x, y]"
    using recover_config_written [OF _ cfg] site by (auto simp: recovery_site_def)
  have same: "cfg_owner config = cfg_owner c" "cfg_router_admin_token config = cfg_router_admin_token c"
    "cfg_routers config = cfg_routers c" using config(1) by auto
  have "routing_state (rw_db w0) \<noteq> None"
    using stems by (auto simp: plan_stems_def daemon_snapshot_def select_body_def split: option.splits)
  with r have row: "routing_state (rw_db w) \<noteq> None" by (auto simp: prepared_def)
  from resumes [OF op args config(2,3) same xy doc plan plan_stems_owner [OF stems] row will cred io] obtain n w' where
    run: "recover_attempt sha peer a (False, io) (w, []) = (Inr n, (w', []))" by blast
  from interruptedD [OF attempt_planned [OF op site] w run] have "recovered ev c a w0 p w'" by simp
  with run show ?thesis by blast
qed

end

interpretation quorum: recovery_quorum "network_peer z" sha operation "marked z sha operation" c p
    "willing z sha operation c p" "plan_digest z operation sha p" for z sha operation c p
  by unfold_locales (rule willing_answers)

end
