(* ===== verification/Recovery_Outcome.thy ===== *)
theory Recovery_Outcome
  imports Recovery_Live
begin

section \<open>The outcome of a recovery\<close>

text \<open>
  What holds after any number of interrupted attempts, for any routers and for the routers of the
  repository, and what a repeated recovery does to a database that has moved on.
\<close>

subsection \<open>A recovery with two routers\<close>

text \<open>
  A worker whose backup has an instance that one router saw deleted. The first attempt is killed after the
  first acknowledgement.
\<close>

definition sample_sizes :: router_sizes where
  "sample_sizes = \<lparr>size_state = (\<lambda>_. 900), size_owner = (\<lambda>_. 400), digest_result = (\<lambda>(op, s, h). h)\<rparr>"

definition sample_server :: "routeSnapshot \<Rightarrow> router_server" where
  "sample_server accepted = \<lparr>srv_admin = sample_token CHR ''r'', srv_owners = [(''worker-1'', [''echo''])],
     srv_state = \<lparr>rt_generation = 7, rt_owners = [(''worker-1'', \<lparr>own_snapshot = accepted, own_reconciled = 0,
       own_stale = False, own_frozen_by = None, own_credential = None, own_recovery = None\<rparr>)]\<rparr>\<rparr>"

definition sample_args :: recovery_args where
  "sample_args = \<lparr>arg_config = ''c'', arg_state = ''d'', arg_journal = ''j'', arg_operation = ''restore-1'', arg_crash = False\<rparr>"

definition sample_io :: recovery_io where
  "sample_io = \<lparr>io_mode = ''wal'', io_sync = 2, io_random = replicate 32 CHR ''k''\<rparr>"

definition sample_sha :: "string \<Rightarrow> string" where
  "sample_sha s = take 32 s"

abbreviation sample_owner :: daemonConfig where
  "sample_owner \<equiv> sample_config ''127.0.0.1:9001''"

definition sample_site :: "router_network recovery_world" where
  "sample_site = \<lparr>rw_config = Inr (marshal_config sample_owner), rw_guard = None, rw_journal = None,
     rw_db = \<lparr>routing_state = Some (marshal_snapshot (sample_history 2 [(''01'', 2, False)])), routing_operations = []\<rparr>,
     rw_peers = [(''http://127.0.0.1:1/recovery'', sample_server (sample_history 3 [(''01'', 3, True)])),
       (''http://127.0.0.1:2/recovery'', sample_server (sample_history 2 [(''01'', 2, False)]))]\<rparr>"

definition sample_crashed :: "router_network recovery_world" where
  "sample_crashed = recovery_after sample_sha (network_peer sample_sizes) sample_args [((True, sample_io), [])] sample_site"

definition sample_plan :: recovery_plan where
  "sample_plan = \<lparr>plan_snapshot = (sample_history 4 [(''01'', 3, True)])\<lparr>snap_incarnation := 2\<rparr>,
     plan_credential = hex_encode (io_random sample_io), plan_quarantined = [(''01'', sample_record ''01'' 2 False)]\<rparr>"

definition sample_journal :: recoveryJournal where
  "sample_journal = \<lparr>jr_operation = ''restore-1'', jr_owner = ''worker-1'', jr_database = ''d'',
     jr_snapshot = Some (plan_snapshot sample_plan), jr_credential = plan_credential sample_plan,
     jr_quarantined = plan_quarantined sample_plan,
     jr_acknowledgements = [(''http://127.0.0.1:1'', hex_encode (sample_sha (plan_credential sample_plan)))],
     jr_complete = False\<rparr>"

lemma sample_crash:
  "rw_journal sample_crashed = Some (Inr (marshal_journal sample_journal))
    \<and> willing sample_sizes sample_sha ''restore-1'' sample_owner sample_plan (rw_peers sample_crashed)"
  by code_simp

subsection \<open>Properties\<close>

lemma sample_site_ok: "recovery_site sample_owner sample_site"
  by (simp add: recovery_site_def sample_site_def sample_config_def gm_ok_def)

lemma sample_args_ok: "recover_arguments sample_args = Inr ()" "recover_config (marshal_config sample_owner) = Inr sample_owner"
proof -
  show "recover_arguments sample_args = Inr ()" by code_simp
  show "recover_config (marshal_config sample_owner) = Inr sample_owner"
    by (simp add: recover_config_def read_marshal_config sample_config_def gm_ok_def sample_token_def)
qed

lemma sample_journal_wf: "journal_wf sample_journal"
  by (simp add: journal_wf_def sample_journal_def sample_plan_def snapshot_wf_def sample_history_def gm_ok_def)

lemma sample_resume:
  "resume_journal sample_args sample_owner (rw_journal sample_crashed) = Inr sample_journal"
  using sample_crash resume_written [OF sample_journal_wf, of sample_args sample_owner]
  by (simp add: sample_journal_def sample_args_def sample_config_def)

lemma sample_journal_sel:
  "jr_snapshot sample_journal = Some (plan_snapshot sample_plan)" "jr_credential sample_journal = plan_credential sample_plan"
  "length (plan_credential sample_plan) = 64" "hex_decode (plan_credential sample_plan) \<noteq> None"
  by (simp_all add: sample_journal_def sample_plan_def sample_io_def hex_decode_encode length_hex_encode)

abbreviation sample_marks :: "router_network ack_evidence" where
  "sample_marks \<equiv> marked sample_sizes sample_sha ''restore-1''"

lemma sample_planned: "planned sample_marks sample_owner sample_args sample_site sample_plan sample_crashed"
proof -
  have op: "arg_operation sample_args = ''restore-1''" by (simp add: sample_args_def)
  from routers.resumed_planned [OF op sample_site_ok sample_resume [unfolded sample_crashed_def] sample_journal_sel(1)]
  obtain p where p: "planned sample_marks sample_owner sample_args sample_site p sample_crashed"
    and "plan_snapshot p = plan_snapshot sample_plan" "plan_credential p = jr_credential sample_journal"
      "plan_quarantined p = jr_quarantined sample_journal"
    unfolding sample_crashed_def by metis
  then have "p = sample_plan" by (cases p) (simp add: sample_journal_def sample_plan_def)
  with p show ?thesis by simp
qed

lemma sample_finished:
  obtains n w where
    "recover_attempt sample_sha (network_peer sample_sizes) sample_args (False, sample_io) (sample_crashed, []) = (Inr n, (w, []))"
    "recovered sample_marks sample_owner sample_args sample_site sample_plan w"
    "recovery_after sample_sha (network_peer sample_sizes) sample_args
      [((True, sample_io), []), ((False, sample_io), [])] sample_site = w"
proof -
  from quorum.completes [OF _ sample_site_ok sample_planned _ sample_args_ok sample_journal_sel(3,4), of sample_io] sample_crash
  obtain n w where run: "recover_attempt sample_sha (network_peer sample_sizes) sample_args (False, sample_io) (sample_crashed, [])
      = (Inr n, (w, []))" and "recovered sample_marks sample_owner sample_args sample_site sample_plan w"
    by (auto simp: sample_args_def sample_io_def)
  moreover from run have "recovery_after sample_sha (network_peer sample_sizes) sample_args
      [((True, sample_io), []), ((False, sample_io), [])] sample_site = w" by (simp add: sample_crashed_def)
  ultimately show thesis by (rule that)
qed

text \<open>C11. The fence of a recovery is crash-safe. However many attempts were made and wherever each of them died, the
restore guard is absent only if nothing has happened yet, or the recovery is complete: the database then
holds the merge of its backup with the two routers' histories and its operations as they were, the
configuration has the new credential, and the journal records the quarantine, both acknowledgements and
the completion.\<close>

theorem recovery_fence_is_crash_safe:
  assumes site: "recovery_site c w0" and guard: "rw_guard (recovery_after sha peer a attempts w0) = None"
  shows "recovery_after sha peer a attempts w0 = w0 \<or> recovery_complete c w0 (recovery_after sha peer a attempts w0)"
  using any.recovery_after_inv [OF refl site, of a sha peer attempts] guard
  by (auto simp: recovery_inv_def not_begun_def begun_def intro: recovered_complete)

theorem recovery_fence_is_crash_safe_witness:
  "\<exists>n w. recover_attempt sample_sha (network_peer sample_sizes) sample_args (False, sample_io) (sample_crashed, []) = (Inr n, (w, []))
    \<and> recovery_complete sample_owner sample_site w"
proof -
  obtain n w where run: "recover_attempt sample_sha (network_peer sample_sizes) sample_args (False, sample_io) (sample_crashed, [])
      = (Inr n, (w, []))" and rec: "recovered sample_marks sample_owner sample_args sample_site sample_plan w"
    and w: "recovery_after sample_sha (network_peer sample_sizes) sample_args
      [((True, sample_io), []), ((False, sample_io), [])] sample_site = w" by (rule sample_finished)
  have "w \<noteq> sample_site"
    using rec by (auto simp: recovered_def planned_def prepared_def sample_site_def)
  moreover have "rw_guard w = None" using rec by (simp add: recovered_def)
  ultimately show ?thesis
    using recovery_fence_is_crash_safe [OF sample_site_ok, of sample_sha "network_peer sample_sizes" sample_args
        "[((True, sample_io), []), ((False, sample_io), [])]"] run unfolding w by blast
qed

text \<open>C14. A prepared recovery is fixed: once an attempt has left a journal with a snapshot, whatever later attempts do and
wherever they die, the next attempt resumes with the same snapshot, the same credential and the same
quarantine, so a router never sees two results for one operation.\<close>

theorem prepared_recovery_is_fixed:
  assumes site: "recovery_site c w0"
    and first: "resume_journal a c (rw_journal (recovery_after sha peer a attempts w0)) = Inr r" "jr_snapshot r = Some s"
  shows "\<exists>r'. resume_journal a c (rw_journal (recovery_after sha peer a later (recovery_after sha peer a attempts w0))) = Inr r'
    \<and> jr_snapshot r' = Some s \<and> jr_credential r' = jr_credential r \<and> jr_quarantined r' = jr_quarantined r"
proof -
  from any.resumed_planned [OF refl site first] obtain p where
    p: "planned (\<lambda>_ _ _. True) c a w0 p (recovery_after sha peer a attempts w0)"
    and same: "plan_snapshot p = s" "plan_credential p = jr_credential r" "plan_quarantined p = jr_quarantined r" .
  from any.planned_resume [OF any.planned_stays [OF refl site p], of sha peer later] same show ?thesis
    by (auto simp: journal_plan_def)
qed

theorem prepared_recovery_is_fixed_witness:
  "\<exists>r'. resume_journal sample_args sample_owner (rw_journal (recovery_after sample_sha (network_peer sample_sizes) sample_args
      [((False, sample_io\<lparr>io_random := replicate 32 CHR ''z''\<rparr>), [Works, Works, Lost ''killed''])] sample_crashed)) = Inr r'
    \<and> jr_snapshot r' = Some (plan_snapshot sample_plan) \<and> jr_credential r' = plan_credential sample_plan"
  using prepared_recovery_is_fixed [OF sample_site_ok sample_resume [unfolded sample_crashed_def] sample_journal_sel(1)]
  unfolding sample_crashed_def [symmetric] sample_journal_sel(2) by blast

text \<open>C12. With the repository's routers, a recovery whose fence is gone has all parties agreeing: each configured router
carries the mark of this operation, with the digest of exactly the snapshot that the database holds and the
hash of exactly the credential in the configuration.\<close>

theorem recovered_routers_agree:
  assumes site: "recovery_site c w0"
    and gone: "rw_guard (recovery_after sha (network_peer z) a attempts w0) = None"
    and journal: "rw_journal (recovery_after sha (network_peer z) a attempts w0) \<noteq> None"
  shows "\<exists>s credential. daemon_snapshot no_faults (rw_db (recovery_after sha (network_peer z) a attempts w0)) = Inr s
    \<and> rw_config (recovery_after sha (network_peer z) a attempts w0) = Inr (marshal_config (c\<lparr>cfg_token := credential\<rparr>))
    \<and> (\<forall>router \<in> set (cfg_routers c). \<exists>srv.
        gm_get (rw_peers (recovery_after sha (network_peer z) a attempts w0)) (trim_right router CHR ''/'' @ ''/recovery'') = Some srv
        \<and> router_mark (srv_state srv) (snap_owner s) = Some \<lparr>mark_operation = arg_operation a,
            mark_digest = digest_result z (arg_operation a, s, hex_encode (sha credential))\<rparr>)"
proof -
  let ?w = "recovery_after sha (network_peer z) a attempts w0"
  from routers.recovery_after_inv [OF refl site, where sha = sha and z = z and a = a and attempts = attempts] gone journal site
  obtain p where p: "planned (marked z sha (arg_operation a)) c a w0 p ?w"
    by (auto simp: recovery_inv_def not_begun_def begun_def recovery_site_def)
  from planned_unguarded [OF p gone] obtain r where r: "journal_plan c a p r" "plan_stems c (rw_db w0) p"
    "rw_journal ?w = Some (Inr (marshal_journal r))" "jr_complete r" "installed c p r ?w" .
  have evidence: "marked z sha (arg_operation a) p router (rw_peers ?w)" if "router \<in> set (cfg_routers c)" for router
  proof -
    from p obtain r' where r': "prepared (marked z sha (arg_operation a)) c a w0 p r' ?w" by (auto simp: planned_def)
    with gone have "installed c p r' ?w" by (auto simp: prepared_def)
    with r' that show ?thesis by (auto simp: prepared_def installed_def)
  qed
  have "daemon_snapshot no_faults (rw_db ?w) = Inr (plan_snapshot p)"
    using r(5) plan_stems_wf [OF r(2)] by (simp add: installed_def daemon_snapshot_def select_body_def read_marshal_snapshot)
  moreover have "rw_config ?w = Inr (marshal_config (c\<lparr>cfg_token := plan_credential p\<rparr>))"
    using r(5) by (simp add: installed_def with_token_def)
  ultimately show ?thesis
    using evidence by (intro exI [of _ "plan_snapshot p"] exI [of _ "plan_credential p"])
      (fastforce simp: marked_def split: option.splits)
qed

theorem recovered_routers_agree_witness:
  "\<exists>s srv. daemon_snapshot no_faults (rw_db (recovery_after sample_sha (network_peer sample_sizes) sample_args
      [((True, sample_io), []), ((False, sample_io), [])] sample_site)) = Inr s
    \<and> gm_get (rw_peers (recovery_after sample_sha (network_peer sample_sizes) sample_args
      [((True, sample_io), []), ((False, sample_io), [])] sample_site)) ''http://127.0.0.1:2/recovery'' = Some srv
    \<and> router_mark (srv_state srv) (snap_owner s) \<noteq> None"
proof -
  obtain n w where rec: "recovered sample_marks sample_owner sample_args sample_site sample_plan w"
    and w: "recovery_after sample_sha (network_peer sample_sizes) sample_args
      [((True, sample_io), []), ((False, sample_io), [])] sample_site = w" by (rule sample_finished)
  have url: "trim_right ''http://127.0.0.1:2'' CHR ''/'' @ ''/recovery'' = ''http://127.0.0.1:2/recovery''" by code_simp
  have "rw_guard w = None" "rw_journal w \<noteq> None"
    using rec by (auto simp: recovered_def planned_def prepared_def)
  with recovered_routers_agree [OF sample_site_ok, of sample_sha sample_sizes sample_args
      "[((True, sample_io), []), ((False, sample_io), [])]"] show ?thesis
    unfolding w by (auto simp: sample_config_def url)
qed



text \<open>C20. Completion is recorded but never consulted: repeating the command after a completed recovery succeeds and puts
the prepared snapshot back, whatever the worker has registered since, while the operations table keeps the
later revisions; a router that accepted a later snapshot then refuses the worker's.\<close>

theorem completed_recovery_rolls_back:
  assumes args: "recover_arguments a = Inr ()"
    and config: "rw_config w = Inr (marshal_config (with_token c p))"
      "recover_config (marshal_config (with_token c p)) = Inr (with_token c p)" "cfg_routers c = [x, y]"
    and journal: "rw_journal w = Some (Inr (marshal_journal r))" "journal_plan c a p r" "jr_complete r"
    and plan: "snap_owner (plan_snapshot p) = cfg_owner c" "snapshot_wf (plan_snapshot p)"
      "length (plan_credential p) = 64" "hex_decode (plan_credential p) \<noteq> None"
    and row: "routing_state (rw_db w) \<noteq> None"
    and will: "willing z sha (arg_operation a) c p (rw_peers w)"
    and io: "io_mode io = ''wal''" "io_sync io = 2"
  shows "\<exists>n w'. recover_attempt sha (network_peer z) a (False, io) (w, []) = (Inr n, (w', []))
    \<and> daemon_snapshot no_faults (rw_db w') = Inr (plan_snapshot p)
    \<and> routing_operations (rw_db w') = routing_operations (rw_db w)
    \<and> (\<forall>entry. snap_revision (plan_snapshot p) < snap_revision (own_snapshot entry)
        \<longrightarrow> history_check entry (plan_snapshot p) \<noteq> Inr ())"
proof -
  have same: "cfg_owner (with_token c p) = cfg_owner c" "cfg_router_admin_token (with_token c p) = cfg_router_admin_token c"
    "cfg_routers (with_token c p) = cfg_routers c" by simp_all
  from quorum.resumes [OF refl args config(1,2) same config(3) journal(1,2) plan(1) row will plan(3,4) io] plan(2)
  show ?thesis
    by (fastforce simp: daemon_snapshot_def select_body_def read_marshal_snapshot history_check_iff history_extends_def not_le)
qed

definition sample_later :: routing_db where
  "sample_later = snd (register (\<lambda>s. s) no_faults ((sample_request False)\<lparr>req_endpoint := ''127.0.0.1:9002''\<rparr>)
     \<lparr>routing_state = Some (marshal_snapshot (plan_snapshot sample_plan)), routing_operations = []\<rparr>)"

theorem completed_recovery_rolls_back_witness:
  "\<exists>n w'. recover_attempt sample_sha (network_peer sample_sizes) sample_args (False, sample_io)
      (sample_crashed\<lparr>rw_config := Inr (marshal_config (with_token sample_owner sample_plan)),
         rw_journal := Some (Inr (marshal_journal (sample_journal\<lparr>jr_complete := True\<rparr>))), rw_db := sample_later\<rparr>, []) = (Inr n, (w', []))
    \<and> (\<exists>s. daemon_snapshot no_faults sample_later = Inr s \<and> gm_get (snap_records s) ''one'' \<noteq> None)
    \<and> (\<exists>s. daemon_snapshot no_faults (rw_db w') = Inr s \<and> gm_get (snap_records s) ''one'' = None)
    \<and> gm_get (routing_operations (rw_db w')) ''op-1'' \<noteq> None"
proof -
  let ?w = "sample_crashed\<lparr>rw_config := Inr (marshal_config (with_token sample_owner sample_plan)),
      rw_journal := Some (Inr (marshal_journal (sample_journal\<lparr>jr_complete := True\<rparr>))), rw_db := sample_later\<rparr>"
  have wf: "snapshot_wf (plan_snapshot sample_plan)"
    by (simp add: sample_plan_def snapshot_wf_def sample_history_def gm_ok_def)
  have later: "daemon_snapshot no_faults sample_later = Inr (register_apply (plan_snapshot sample_plan)
      ((sample_request False)\<lparr>req_endpoint := ''127.0.0.1:9002''\<rparr>))"
    and ops: "routing_operations sample_later = [(''op-1'', request_hash (\<lambda>s. s) ((sample_request False)\<lparr>req_endpoint := ''127.0.0.1:9002''\<rparr>), 5)]"
    and row: "routing_state sample_later \<noteq> None"
    by (simp_all add: sample_later_def register_eval sample_plan_def sample_history_def sample_record_def word_le_nat_alt)
  have two: "cfg_routers sample_owner = [''http://127.0.0.1:1'', ''http://127.0.0.1:2'']" by (simp add: sample_config_def)
  have cfg: "recover_config (marshal_config (with_token sample_owner sample_plan)) = Inr (with_token sample_owner sample_plan)"
    by (simp add: recover_config_def read_marshal_config sample_config_def gm_ok_def sample_token_def with_token_def)
  have plan: "journal_plan sample_owner sample_args sample_plan (sample_journal\<lparr>jr_complete := True\<rparr>)"
    using sample_journal_wf
    by (simp add: journal_plan_def journal_wf_def sample_journal_def sample_args_def sample_config_def)
  have owner: "snap_owner (plan_snapshot sample_plan) = cfg_owner sample_owner"
    by (simp add: sample_plan_def sample_history_def sample_config_def)
  have will: "willing sample_sizes sample_sha (arg_operation sample_args) sample_owner sample_plan (rw_peers ?w)"
    using sample_crash by (simp add: sample_args_def)
  have io: "io_mode sample_io = ''wal''" "io_sync sample_io = 2" by (simp_all add: sample_io_def)
  from completed_recovery_rolls_back [OF sample_args_ok(1) _ cfg two _ plan _ owner wf sample_journal_sel(3,4) _ will io] row
  obtain n w' where run: "recover_attempt sample_sha (network_peer sample_sizes) sample_args (False, sample_io) (?w, []) = (Inr n, (w', []))"
    and undone: "daemon_snapshot no_faults (rw_db w') = Inr (plan_snapshot sample_plan)"
      "routing_operations (rw_db w') = routing_operations sample_later" by auto
  have "gm_get (snap_records (plan_snapshot sample_plan)) ''one'' = None"
    by (simp add: sample_plan_def sample_history_def)
  with run undone later ops show ?thesis
    by (intro exI conjI) (auto simp: register_apply_def Let_def gm.get_put sample_request_def)
qed

text \<open>The two routers are compared as texts, but a trailing slash is dropped when they are called: the spellings
\<open>u\<close> and \<open>u/\<close> pass as two distinct routers while both name one, so a recovery can complete with a single
router fenced and acknowledging.\<close>

theorem one_router_counts_twice:
  assumes "gm_ok (cfg_workloads c)" "32 \<le> length (cfg_router_admin_token c)" "cfg_restore_guard c \<noteq> []"
  shows "recover_config (marshal_config (c\<lparr>cfg_routers := [u, u @ ''/'']\<rparr>)) = Inr (c\<lparr>cfg_routers := [u, u @ ''/'']\<rparr>)
    \<and> trim_right u CHR ''/'' @ ''/recovery'' = trim_right (u @ ''/'') CHR ''/'' @ ''/recovery''"
  using assms by (simp add: recover_config_def read_marshal_config trim_right_def)

theorem one_router_counts_twice_witness:
  "is_ok (recover_config (marshal_config (sample_owner\<lparr>cfg_routers := [''http://r'', ''http://r'' @ ''/'']\<rparr>)))"
  using one_router_counts_twice [of sample_owner "''http://r''"]
  by (simp add: sample_config_def gm_ok_def sample_token_def)

end
