(* ===== verification/Growth.thy ===== *)
theory Growth
  imports Effects Go_Json "HOL-Library.Signed_Division"
begin

section \<open>The volume growth controller: cmd/grow\<close>

text \<open>
  \<^verbatim>\<open>cmd/grow/main.go\<close>: an operator command (or a polling loop) that grows one logical volume and the
  filesystem on it, with a row of SQLite as the intent of each growth. The external programs (findmnt,
  blkid, lvs, vgs, lvextend, resize2fs, dumpe2fs, losetup) are a parameter that acts on the volume
  \<open>'v\<close>; SQLite is the list of rows in \<open>rowid\<close> order. Every external call can fail, or work and lose its
  answer, as in the theory \<^verbatim>\<open>Effects\<close>. An \<^verbatim>\<open>int64\<close> is an integer with the wrap-around written out.
\<close>

subsection \<open>Numbers\<close>

definition int64 :: "int \<Rightarrow> int" where
  "int64 n = (n + 2 ^ 63) mod 2 ^ 64 - 2 ^ 63"

definition mib :: int where
  "mib = 2 ^ 20"

text \<open>
  \<^verbatim>\<open>number\<close>: \<^verbatim>\<open>strconv.ParseFloat\<close>, then a conversion to \<^verbatim>\<open>int64\<close>. Decimal digits of a value that a \<^verbatim>\<open>float64\<close>
  holds exactly are read as they are; what any other text gives (its value and its error) is the argument
  \<open>other\<close>.
\<close>

type_synonym float_reader = "string \<Rightarrow> int \<times> string option"

definition number :: "float_reader \<Rightarrow> string \<Rightarrow> int \<times> string option" where
  "number other s = (let d = trim_space s in
     case (if d = [] then None else read_digits 0 d) of
       None \<Rightarrow> other d
     | Some n \<Rightarrow> if n \<le> 2 ^ 53 then (int n, None) else other d)"

definition number_checked :: "float_reader \<Rightarrow> string \<Rightarrow> int result" where
  "number_checked other s = (case number other s of (n, None) \<Rightarrow> Inr n | (n, Some e) \<Rightarrow> Inl e)"

text \<open>Whole extents of 4 MiB, with the division of Go.\<close>

definition round_extents :: "int \<Rightarrow> int" where
  "round_extents n = int64 ((int64 (int64 (n + 4 * mib) - 1) sdiv (4 * mib)) * (4 * mib))"

subsection \<open>Data\<close>

record fixture =
  fx_machine :: string
  fx_devices :: "string list"
  fx_lv :: string
  fx_uuid :: string
  fx_mount :: string

definition zero_fixture :: fixture where
  "zero_fixture = \<lparr>fx_machine = [], fx_devices = [], fx_lv = [], fx_uuid = [], fx_mount = []\<rparr>"

definition fixture_field :: "string \<times> json \<Rightarrow> fixture \<Rightarrow> fixture result" where
  "fixture_field kv f = (case kv of (k, j) \<Rightarrow>
     if names_field k ''machine'' then and_then (read_str j (fx_machine f)) (\<lambda>x. Inr (f\<lparr>fx_machine := x\<rparr>))
     else if names_field k ''devices'' then and_then (read_strings j) (\<lambda>x. Inr (f\<lparr>fx_devices := x\<rparr>))
     else if names_field k ''lv'' then and_then (read_str j (fx_lv f)) (\<lambda>x. Inr (f\<lparr>fx_lv := x\<rparr>))
     else if names_field k ''uuid'' then and_then (read_str j (fx_uuid f)) (\<lambda>x. Inr (f\<lparr>fx_uuid := x\<rparr>))
     else if names_field k ''mount'' then and_then (read_str j (fx_mount f)) (\<lambda>x. Inr (f\<lparr>fx_mount := x\<rparr>))
     else unknown_field False k f)"

definition read_fixture :: "json \<Rightarrow> fixture result" where
  "read_fixture j = read_struct fixture_field j zero_fixture"

definition marker_field :: "string \<times> json \<Rightarrow> string \<Rightarrow> string result" where
  "marker_field kv m = (case kv of (k, j) \<Rightarrow> if names_field k ''machine'' then read_str j m else unknown_field False k m)"

record grow_flags =
  gf_root :: string
  gf_operation :: string
  gf_target :: int
  gf_threshold :: int
  gf_maximum :: int
  gf_reserve :: int
  gf_crash :: string
  gf_watch :: bool

record grow_op =
  op_id :: string
  op_uuid :: string
  op_target :: int
  op_done :: int

record 'v grow_world =
  gw_ops :: "grow_op list"
  gw_volume :: 'v

record 'v volume_tools =
  tool_losetup :: "string \<Rightarrow> 'v \<Rightarrow> string result"
  tool_findmnt :: "string \<Rightarrow> 'v \<Rightarrow> string result"
  tool_blkid :: "string \<Rightarrow> 'v \<Rightarrow> string result"
  tool_lvs :: "string list \<Rightarrow> string \<Rightarrow> string \<Rightarrow> 'v \<Rightarrow> string result"
  tool_vgs :: "string list \<Rightarrow> string \<Rightarrow> 'v \<Rightarrow> string result"
  tool_statfs :: "string \<Rightarrow> 'v \<Rightarrow> (u64 \<times> u64) result"
  tool_lvextend :: "string list \<Rightarrow> int \<Rightarrow> string \<Rightarrow> 'v \<Rightarrow> string result \<times> 'v"
  tool_resize :: "string \<Rightarrow> 'v \<Rightarrow> string result \<times> 'v"
  tool_dumpe2fs :: "string \<Rightarrow> 'v \<Rightarrow> string result"
  tool_float :: float_reader

datatype grow_report = Already string int | Below | Grown string int int int

type_synonym ('v, 'a) grow_action = "('v grow_world, 'a) action"

subsection \<open>The start of the command\<close>

text \<open>The bounds of the arguments (lines 57 to 66); the target is rounded up to extents.\<close>

definition grow_bounds :: "nat \<Rightarrow> grow_flags \<Rightarrow> grow_flags result" where
  "grow_bounds euid fl =
     (if euid \<noteq> 0 \<or> gf_threshold fl < 1 \<or> 100 < gf_threshold fl \<or> gf_maximum fl < 1 \<or> gf_reserve fl < 0 \<or> gf_target fl < 0 then
        Inl ''invalid privileges or bounds''
      else if gf_watch fl \<and> (gf_operation fl \<noteq> [] \<or> gf_target fl \<noteq> 0) then
        Inl ''watch uses threshold and generated operation IDs''
      else if gf_root fl \<noteq> ''/var/lib/edgelab-r2'' \<or> 6144 < gf_maximum fl \<or> 6144 < gf_target fl then
        Inl ''outside fixture allocation bounds''
      else Inr (fl\<lparr>gf_target := int64 ((int64 (gf_target fl + 3) sdiv 4) * 4)\<rparr>))"

text \<open>What the command finds outside the volume: the fixture files, the lock and the database settings.\<close>

record grow_env =
  ge_euid :: nat
  ge_root :: "(bool \<times> nat \<times> nat) result"
  ge_marker :: "json result"
  ge_storage :: "json result"
  ge_machine_id :: "string result"
  ge_lock :: "unit result"
  ge_flock :: bool
  ge_open :: "unit result"
  ge_journal_mode :: "string result"
  ge_synchronous :: "int result"
  ge_table :: "unit result"

definition run_tool :: "string result \<Rightarrow> string result" where
  "run_tool r = (case r of Inl e \<Rightarrow> Inl e | Inr out \<Rightarrow> Inr (trim_space out))"

definition grow_fixture :: "grow_env \<Rightarrow> grow_flags \<Rightarrow> fixture result" where
  "grow_fixture env fl =
     and_then (guard (case ge_root env of Inl _ \<Rightarrow> False | Inr (dir, perm, uid) \<Rightarrow> dir \<and> perm = 448 \<and> uid = 0)
       ''untrusted fixture directory'') (\<lambda>_.
     case and_then (ge_marker env) (\<lambda>j. read_struct marker_field j []) of
       Inl _ \<Rightarrow> Inl ''unmarked environment''
     | Inr marked \<Rightarrow>
     and_then (ge_storage env) (\<lambda>j.
     and_then (read_fixture j) (\<lambda>f.
     and_then (guard ((case ge_machine_id env of Inl _ \<Rightarrow> False | Inr m \<Rightarrow> trim_space m = fx_machine f)
         \<and> length (fx_devices f) = 4 \<and> marked = fx_machine f \<and> fx_lv f = ''/dev/edgelab_r2/data''
         \<and> fx_mount f = gf_root fl @ ''/volume'')
       ''fixture ownership mismatch'') (\<lambda>_. Inr f))))"

definition check_device :: "'v volume_tools \<Rightarrow> string \<Rightarrow> nat \<times> string \<Rightarrow> unit \<Rightarrow> ('v, unit) grow_action" where
  "check_device t root d u = (case d of (i, device) \<Rightarrow>
     act_then (try_act (read_world (\<lambda>w. run_tool (tool_losetup t device (gw_volume w))))) (\<lambda>back_file.
     lift_result (guard (back_file = Inr (root @ ''/disk'' @ itoa i)) ''loop device outside allowlist'')))"

definition grow_start :: "'v volume_tools \<Rightarrow> grow_env \<Rightarrow> grow_flags \<Rightarrow> ('v, grow_flags \<times> fixture) grow_action" where
  "grow_start t env fl0 =
     act_then (lift_result (grow_bounds (ge_euid env) fl0)) (\<lambda>fl.
     act_then (lift_result (grow_fixture env fl)) (\<lambda>fx.
     act_then (fold_act (check_device t (gf_root fl)) (enumerate 0 (fx_devices fx)) ()) (\<lambda>_.
     act_then (try_act (read_world (\<lambda>w. run_tool (tool_lvs t (fx_devices fx) ''lv_uuid'' (fx_lv fx) (gw_volume w))))) (\<lambda>uuid.
     act_then (lift_result (guard (uuid = Inr (fx_uuid fx)) ''LV identity mismatch'')) (\<lambda>_.
     act_then (lift_result (ge_lock env)) (\<lambda>_.
     act_then (lift_result (guard (ge_flock env) ''controller busy'')) (\<lambda>_.
     act_then (lift_result (ge_open env)) (\<lambda>_.
     act_then (lift_result (ge_journal_mode env)) (\<lambda>mode.
     act_then (lift_result (ge_synchronous env)) (\<lambda>sync.
     act_then (lift_result (guard (mode = ''wal'' \<and> sync = 2) ''SQLite durability settings mismatch'')) (\<lambda>_.
     act_then (lift_result (ge_table env)) (\<lambda>_.
     ret (fl, fx)))))))))))))"

subsection \<open>One step\<close>

definition stop_after :: "grow_flags \<Rightarrow> string \<Rightarrow> ('v, unit) grow_action" where
  "stop_after fl stage = lift_result (guard (gf_crash fl \<noteq> stage) ''exit status 77'')"

text \<open>Lines 139 to 143: both commands run before either answer is looked at.\<close>

definition grow_mounted :: "'v volume_tools \<Rightarrow> fixture \<Rightarrow> ('v, unit) grow_action" where
  "grow_mounted t fx =
     act_then (try_act (read_world (\<lambda>w. run_tool (tool_findmnt t (fx_mount fx) (gw_volume w))))) (\<lambda>mounted.
     act_then (try_act (read_world (\<lambda>w. run_tool (tool_blkid t (fx_lv fx) (gw_volume w))))) (\<lambda>actual.
     lift_result (case (mounted, actual) of
         (Inr m, Inr u) \<Rightarrow> guard (m \<noteq> [] \<and> m = u) ''owned filesystem is not mounted''
       | _ \<Rightarrow> Inl ''owned filesystem is not mounted'')))"

definition volume_size :: "'v volume_tools \<Rightarrow> fixture \<Rightarrow> ('v, string) grow_action" where
  "volume_size t fx = read_world (\<lambda>w. run_tool (tool_lvs t (fx_devices fx) ''lv_size'' (fx_lv fx) (gw_volume w)))"

definition find_operation :: "string \<Rightarrow> grow_op list \<Rightarrow> grow_op option" where
  "find_operation i ops = find (\<lambda>r. op_id r = i) ops"

definition first_pending :: "grow_op list \<Rightarrow> grow_op option" where
  "first_pending ops = find (\<lambda>r. op_done r = 0) ops"

text \<open>
  Lines 153 to 169: what a given operation ID already stands for, either a finished operation or the
  target to start from.
\<close>

definition grow_lookup :: "grow_flags \<Rightarrow> fixture \<Rightarrow> ('v, grow_report + int) grow_action" where
  "grow_lookup fl fx =
     (if gf_operation fl = [] then ret (Inr (int64 (gf_target fl * mib)))
      else act_then (read_world (\<lambda>w. Inr (find_operation (gf_operation fl) (gw_ops w)))) (\<lambda>row.
        lift_result (case row of
          None \<Rightarrow> Inr (Inr (int64 (gf_target fl * mib)))
        | Some r \<Rightarrow>
            if op_uuid r \<noteq> fx_uuid fx \<or> gf_target fl \<noteq> 0 \<and> op_target r \<noteq> int64 (gf_target fl * mib) then
              Inl ''operation identity or target conflict''
            else if op_done r = 1 then Inr (Inl (Already (gf_operation fl) (op_target r)))
            else Inr (Inr (op_target r)))))"

text \<open>
  Lines 185 to 193. The quotient of the block counts is exact enough as a \<^verbatim>\<open>float64\<close> to be compared with
  a whole percentage for every filesystem below $2^{45}$ blocks; without blocks it is not a number and
  never below the threshold.
\<close>

definition below_threshold :: "u64 \<Rightarrow> u64 \<Rightarrow> int \<Rightarrow> bool" where
  "below_threshold blocks bfree threshold \<longleftrightarrow> blocks \<noteq> 0 \<and> 100 * uint (blocks - bfree) < threshold * uint blocks"

definition grow_wanted :: "'v volume_tools \<Rightarrow> grow_flags \<Rightarrow> fixture \<Rightarrow> int \<Rightarrow> int \<Rightarrow> ('v, int option) grow_action" where
  "grow_wanted t fl fx current wanted =
     (if wanted = 0 then
        act_then (read_world (\<lambda>w. tool_statfs t (fx_mount fx) (gw_volume w))) (\<lambda>(blocks, bfree).
          ret (if below_threshold blocks bfree (gf_threshold fl) then None else Some (int64 (current + 500 * mib))))
      else ret (Some wanted))"

text \<open>The guards of lines 196 to 213 on the free space of the volume group.\<close>

definition grow_checks :: "grow_flags \<Rightarrow> int \<Rightarrow> int \<Rightarrow> unit result" where
  "grow_checks fl current wanted =
     (if wanted < current then Inl ''target would shrink volume''
      else if int64 (gf_maximum fl * mib) < wanted then Inl ''allocation cap reached''
      else Inr ())"

definition enough_backing :: "grow_flags \<Rightarrow> int \<Rightarrow> int \<Rightarrow> int \<Rightarrow> bool" where
  "enough_backing fl current wanted free \<longleftrightarrow>
     int64 (int64 (wanted - current) + int64 (gf_reserve fl * mib)) \<le> free"

definition insert_grow_op :: "grow_op \<Rightarrow> grow_op list \<Rightarrow> grow_op list result" where
  "insert_grow_op r ops = (if find_operation (op_id r) ops \<noteq> None then Inl ''UNIQUE constraint failed: operations.id''
     else Inr (ops @ [r]))"

definition insert_row :: "grow_op \<Rightarrow> ('v, unit) grow_action" where
  "insert_row r = perform (\<lambda>w. case insert_grow_op r (gw_ops w) of Inl e \<Rightarrow> (Inl e, w)
     | Inr ops \<Rightarrow> (Inr (), w\<lparr>gw_ops := ops\<rparr>))"

text \<open>Lines 196 to 220: a new operation is admitted and recorded before the volume is touched.\<close>

definition grow_admit :: "'v volume_tools \<Rightarrow> grow_flags \<Rightarrow> fixture \<Rightarrow> int \<Rightarrow> int \<Rightarrow> int \<Rightarrow> ('v, string \<times> int) grow_action" where
  "grow_admit t fl fx nano current wanted0 =
     (let wanted = round_extents wanted0 in
     act_then (lift_result (grow_checks fl current wanted)) (\<lambda>_.
     act_then (read_world (\<lambda>w. run_tool (tool_vgs t (fx_devices fx) ''edgelab_r2'' (gw_volume w)))) (\<lambda>raw.
     act_then (lift_result (number_checked (tool_float t) raw)) (\<lambda>free.
     act_then (lift_result (guard (enough_backing fl current wanted free) ''insufficient backing space'')) (\<lambda>_.
     let i = (if gf_operation fl = [] then ''growth-'' @ render_int nano else gf_operation fl) in
     act_then (insert_row \<lparr>op_id = i, op_uuid = fx_uuid fx, op_target = wanted, op_done = 0\<rparr>) (\<lambda>_.
     act_then (stop_after fl ''intent'') (\<lambda>_. ret (i, wanted))))))))"

text \<open>
  Lines 170 to 221: an unfinished operation is taken up before anything else; only without one is a new
  operation admitted. \<^const>\<open>None\<close> is the report that the usage is below the threshold.
\<close>

definition grow_intent :: "'v volume_tools \<Rightarrow> grow_flags \<Rightarrow> fixture \<Rightarrow> int \<Rightarrow> int \<Rightarrow> int \<Rightarrow> ('v, (string \<times> int) option) grow_action" where
  "grow_intent t fl fx nano current wanted =
     act_then (read_world (\<lambda>w. Inr (first_pending (gw_ops w)))) (\<lambda>pending.
     case pending of
       Some r \<Rightarrow> lift_result (if gf_operation fl \<noteq> [] \<and> gf_operation fl \<noteq> op_id r
           then Inl ''another operation needs reconciliation'' else Inr (Some (op_id r, op_target r)))
     | None \<Rightarrow> act_then (grow_wanted t fl fx current wanted) (\<lambda>goal.
         case goal of None \<Rightarrow> ret None
         | Some n \<Rightarrow> act_then (grow_admit t fl fx nano current n) (\<lambda>x. ret (Some x))))"

text \<open>Lines 247 to 255: the fields of dumpe2fs; a number that cannot be read counts as what \<^verbatim>\<open>number\<close> returned.\<close>

definition read_block_line :: "float_reader \<Rightarrow> string \<Rightarrow> int \<times> int \<Rightarrow> int \<times> int" where
  "read_block_line other line bs = (case bs of (blocks, block_size) \<Rightarrow>
     let blocks' = (if prefix ''Block count:'' line
           then fst (number other (trim_prefix line ''Block count:'')) else blocks);
         size' = (if prefix ''Block size:'' line
           then fst (number other (trim_prefix line ''Block size:'')) else block_size) in
     (blocks', size'))"

definition filesystem_bytes :: "float_reader \<Rightarrow> string \<Rightarrow> int" where
  "filesystem_bytes other raw = (case fold (read_block_line other) (split_on (char_of (10 :: nat)) raw) (0, 0) of
     (blocks, block_size) \<Rightarrow> int64 (blocks * block_size))"

definition finish_op :: "string \<Rightarrow> grow_op list \<Rightarrow> grow_op list" where
  "finish_op i = map (\<lambda>r. if op_id r = i then r\<lparr>op_done := 1\<rparr> else r)"

definition call_tool :: "('v \<Rightarrow> string result \<times> 'v) \<Rightarrow> ('v, string) grow_action" where
  "call_tool f = perform (\<lambda>w. case f (gw_volume w) of (r, v) \<Rightarrow> (run_tool r, w\<lparr>gw_volume := v\<rparr>))"

text \<open>Lines 235 to 263: look at the result, and only then finish the operation.\<close>

definition grow_verify :: "'v volume_tools \<Rightarrow> grow_flags \<Rightarrow> fixture \<Rightarrow> string \<times> int \<Rightarrow> ('v, grow_report) grow_action" where
  "grow_verify t fl fx iw = (case iw of (i, wanted) \<Rightarrow>
     act_then (volume_size t fx) (\<lambda>raw.
     act_then (lift_result (case number_checked (tool_float t) raw of Inl _ \<Rightarrow> Inl ''LV did not reach target''
       | Inr n \<Rightarrow> if n < wanted then Inl ''LV did not reach target'' else Inr n)) (\<lambda>actual.
     act_then (read_world (\<lambda>w. run_tool (tool_dumpe2fs t (fx_lv fx) (gw_volume w)))) (\<lambda>raw'.
     let bytes = filesystem_bytes (tool_float t) raw' in
     act_then (lift_result (guard (wanted \<le> bytes) ''filesystem did not reach target'')) (\<lambda>_.
     act_then (write_world (\<lambda>w. w\<lparr>gw_ops := finish_op i (gw_ops w)\<rparr>)) (\<lambda>_.
     act_then (stop_after fl ''complete'') (\<lambda>_.
     ret (Grown i wanted actual bytes))))))))"

text \<open>Lines 222 to 263: extend if the volume is smaller, and resize the filesystem.\<close>

definition grow_apply :: "'v volume_tools \<Rightarrow> grow_flags \<Rightarrow> fixture \<Rightarrow> int \<Rightarrow> string \<times> int \<Rightarrow> ('v, grow_report) grow_action" where
  "grow_apply t fl fx current iw = (case iw of (i, wanted) \<Rightarrow>
     act_then (lift_result (guard (wanted \<le> int64 (gf_maximum fl * mib)) ''pending target exceeds configured cap'')) (\<lambda>_.
     act_then (if current < wanted then call_tool (tool_lvextend t (fx_devices fx) wanted (fx_lv fx)) else ret []) (\<lambda>_.
     act_then (stop_after fl ''lv'') (\<lambda>_.
     act_then (call_tool (tool_resize t (fx_lv fx))) (\<lambda>_.
     act_then (stop_after fl ''filesystem'') (\<lambda>_.
     grow_verify t fl fx (i, wanted)))))))"

definition grow_step :: "'v volume_tools \<Rightarrow> grow_flags \<Rightarrow> fixture \<Rightarrow> int \<Rightarrow> ('v, grow_report) grow_action" where
  "grow_step t fl fx nano =
     act_then (grow_mounted t fx) (\<lambda>_.
     act_then (volume_size t fx) (\<lambda>raw.
     act_then (lift_result (number_checked (tool_float t) raw)) (\<lambda>current.
     act_then (grow_lookup fl fx) (\<lambda>found.
     case found of Inl report \<Rightarrow> ret report
     | Inr wanted \<Rightarrow>
       act_then (grow_intent t fl fx nano current wanted) (\<lambda>goal.
       case goal of None \<Rightarrow> ret Below | Some iw \<Rightarrow> grow_apply t fl fx current iw)))))"

text \<open>
  The loop of lines 265 to 273 and the command: without \<^verbatim>\<open>-watch\<close> one step; with it, steps until one fails,
  here as many as there are clock readings before the process is stopped.
\<close>

definition grow_watch :: "'v volume_tools \<Rightarrow> grow_flags \<Rightarrow> fixture \<Rightarrow> int \<Rightarrow> grow_report list \<Rightarrow> ('v, grow_report list) grow_action" where
  "grow_watch t fl fx nano reports = act_then (grow_step t fl fx nano) (\<lambda>r. ret (reports @ [r]))"

definition grow_main :: "'v volume_tools \<Rightarrow> grow_env \<times> grow_flags \<times> int list \<Rightarrow> ('v, grow_report list) grow_action" where
  "grow_main t cmd = (case cmd of (env, fl0, clock) \<Rightarrow>
     act_then (grow_start t env fl0) (\<lambda>(fl, fx).
       fold_act (grow_watch t fl fx) (if gf_watch fl then clock else take 1 clock) []))"

end
