(* ===== verification/Growth_Events.thy ===== *)
theory Growth_Events
  imports Growth
begin

section \<open>Volume growth: intents, exactly one growth per operation, completion\<close>

text \<open>
  The commands of \<^verbatim>\<open>cmd/grow\<close> refine a small step relation with four events: an operation is admitted,
  the volume is extended, the filesystem is resized, the operation is finished. Wherever a command dies,
  it has made some of these events in this order of guards, so the properties are proved on the relation.
\<close>

subsection \<open>Arithmetic\<close>

lemma int64_id: "- (2 ^ 63) \<le> n \<Longrightarrow> n < 2 ^ 63 \<Longrightarrow> int64 n = n"
  by (simp add: int64_def)

lemma int64_dvd: "2 ^ 22 dvd n \<Longrightarrow> 2 ^ 22 dvd int64 n"
  unfolding int64_def by (intro dvd_diff dvd_mod dvd_add) simp_all

lemma round_extents_dvd: "4 * mib dvd round_extents n"
proof -
  have "2 ^ 22 dvd (int64 (int64 (n + 4 * mib) - 1) sdiv (4 * mib)) * (4 * mib)" by (simp add: mib_def)
  from int64_dvd [OF this] show ?thesis by (simp add: round_extents_def mib_def)
qed

lemma cap_exact: "0 \<le> m \<Longrightarrow> m \<le> 6144 \<Longrightarrow> int64 (m * mib) = m * mib"
  by (rule int64_id) (simp_all add: mib_def)

subsection \<open>The events\<close>

definition size_reading :: "'v volume_tools \<Rightarrow> fixture \<Rightarrow> 'v \<Rightarrow> int result" where
  "size_reading t fx v = and_then (run_tool (tool_lvs t (fx_devices fx) ''lv_size'' (fx_lv fx) v)) (number_checked (tool_float t))"

definition filesystem_reading :: "'v volume_tools \<Rightarrow> fixture \<Rightarrow> 'v \<Rightarrow> int result" where
  "filesystem_reading t fx v =
     and_then (run_tool (tool_dumpe2fs t (fx_lv fx) v)) (\<lambda>raw. Inr (filesystem_bytes (tool_float t) raw))"

definition takes_up :: "grow_flags \<Rightarrow> 'v grow_world \<Rightarrow> grow_op \<Rightarrow> bool" where
  "takes_up fl w r \<longleftrightarrow> first_pending (gw_ops w) = Some r \<and> (gf_operation fl = [] \<or> gf_operation fl = op_id r)"

definition cap_of :: "grow_flags \<Rightarrow> int" where
  "cap_of fl = int64 (gf_maximum fl * mib)"

inductive growth_event :: "'v volume_tools \<Rightarrow> grow_flags \<Rightarrow> fixture \<Rightarrow> 'v grow_world \<Rightarrow> 'v grow_world \<Rightarrow> bool"
  for t :: "'v volume_tools" and fl :: grow_flags and fx :: fixture where
  admit: "growth_event t fl fx w (w\<lparr>gw_ops := gw_ops w @ [r]\<rparr>)"
    if "first_pending (gw_ops w) = None" "find_operation (op_id r) (gw_ops w) = None"
      "gf_operation fl = [] \<or> op_id r = gf_operation fl" "op_uuid r = fx_uuid fx" "op_done r = 0"
      "4 * mib dvd op_target r" "op_target r \<le> cap_of fl"
      "size_reading t fx (gw_volume w) = Inr current" "current \<le> op_target r"
| extend: "growth_event t fl fx w (w\<lparr>gw_volume := snd (tool_lvextend t (fx_devices fx) (op_target r) (fx_lv fx) (gw_volume w))\<rparr>)"
    if "takes_up fl w r" "op_target r \<le> cap_of fl"
      "size_reading t fx (gw_volume w) = Inr current" "current < op_target r"
| resize: "growth_event t fl fx w (w\<lparr>gw_volume := snd (tool_resize t (fx_lv fx) (gw_volume w))\<rparr>)"
    if "takes_up fl w r" "op_target r \<le> cap_of fl"
| finish: "growth_event t fl fx w (w\<lparr>gw_ops := finish_op (op_id r) (gw_ops w)\<rparr>)"
    if "takes_up fl w r" "size_reading t fx (gw_volume w) = Inr actual" "op_target r \<le> actual"
      "filesystem_reading t fx (gw_volume w) = Inr bytes" "op_target r \<le> bytes"

abbreviation growth_events :: "'v volume_tools \<Rightarrow> grow_flags \<Rightarrow> fixture \<Rightarrow> 'v grow_world \<Rightarrow> 'v grow_world \<Rightarrow> bool" where
  "growth_events t fl fx \<equiv> (growth_event t fl fx)\<^sup>*\<^sup>*"

inductive_cases growth_eventE: "growth_event t fl fx w w'"

subsection \<open>A command makes only these events\<close>

lemma first_pending_append:
  "first_pending ops = None \<Longrightarrow> op_done r = 0 \<Longrightarrow> first_pending (ops @ [r]) = Some r"
  by (induction ops) (auto simp: first_pending_def split: if_splits)

lemma mounted_events: "interrupted P (grow_mounted t fx) (\<lambda>_. P) P"
  unfolding grow_mounted_def
  by (intro interrupted_then_try_read interrupted_lift) (auto split: sum.splits)

lemma lookup_events: "interrupted P (grow_lookup fl fx) (\<lambda>_. P) P"
  unfolding grow_lookup_def
  by (intro interrupted_if interrupted_ret interrupted_then_read interrupted_lift) (auto split: sum.splits)

lemma stop_events:
  "(\<And>w. P w \<Longrightarrow> I w) \<Longrightarrow> interrupted P (k ()) Q I \<Longrightarrow> interrupted P (act_then (stop_after fl stage) k) Q I"
  unfolding stop_after_def by (rule interrupted_then_lift) auto

lemma insert_events:
  assumes "\<And>w. P w \<Longrightarrow> I w"
    and "\<And>w. P w \<Longrightarrow> find_operation (op_id r) (gw_ops w) = None \<Longrightarrow> Q (w\<lparr>gw_ops := gw_ops w @ [r]\<rparr>)"
    and "\<And>w. Q w \<Longrightarrow> I w"
  shows "interrupted P (insert_row r) (\<lambda>_. Q) I"
  unfolding insert_row_def
  by (rule interrupted_perform) (use assms in \<open>auto simp: insert_grow_op_def split: if_splits sum.splits\<close>)

lemma admit_events:
  "interrupted (\<lambda>w. (growth_events t fl fx w0 w \<and> size_reading t fx (gw_volume w) = Inr current) \<and> first_pending (gw_ops w) = None)
    (grow_admit t fl fx nano current n)
    (\<lambda>iw w. growth_events t fl fx w0 w \<and> size_reading t fx (gw_volume w) = Inr current
       \<and> (\<exists>r. takes_up fl w r \<and> iw = (op_id r, op_target r))) (growth_events t fl fx w0)"
    (is "interrupted ?P _ ?Q ?I")
proof -
  let ?n = "round_extents n"
  let ?i = "if gf_operation fl = [] then ''growth-'' @ render_int nano else gf_operation fl"
  let ?r = "\<lparr>op_id = ?i, op_uuid = fx_uuid fx, op_target = ?n, op_done = 0\<rparr>"
  have ins: "interrupted ?P (insert_row ?r) (\<lambda>_. ?Q (?i, ?n)) ?I" if "grow_checks fl current ?n = Inr ()"
  proof (rule insert_events)
    fix w assume w: "?P w" and new: "find_operation (op_id ?r) (gw_ops w) = None"
    have "growth_event t fl fx w (w\<lparr>gw_ops := gw_ops w @ [?r]\<rparr>)"
      by (rule growth_event.admit) (use w new that in \<open>auto simp: grow_checks_def cap_of_def round_extents_dvd split: if_splits\<close>)
    with w show "?Q (?i, ?n) (w\<lparr>gw_ops := gw_ops w @ [?r]\<rparr>)"
      by (auto simp: takes_up_def first_pending_append intro!: exI [of _ ?r])
  qed auto
  have tail: "interrupted ?P (act_then (insert_row ?r) (\<lambda>_. act_then (stop_after fl ''intent'') (\<lambda>_. ret (?i, ?n)))) ?Q ?I"
    if "grow_checks fl current ?n = Inr ()"
    by (rule interrupted_then [OF ins [OF that]]) (intro stop_events interrupted_ret; simp)
  show ?thesis
    unfolding grow_admit_def Let_def
    by (rule interrupted_then_lift, simp, rule interrupted_then_read, simp, rule interrupted_then_lift, simp,
        rule interrupted_then_lift, simp, rule interrupted_pre [OF tail]) simp_all
qed

lemma intent_events:
  "interrupted (\<lambda>w. growth_events t fl fx w0 w \<and> size_reading t fx (gw_volume w) = Inr current)
    (grow_intent t fl fx nano current wanted)
    (\<lambda>goal w. growth_events t fl fx w0 w \<and> size_reading t fx (gw_volume w) = Inr current
       \<and> (\<forall>iw. goal = Some iw \<longrightarrow> (\<exists>r. takes_up fl w r \<and> iw = (op_id r, op_target r)))) (growth_events t fl fx w0)"
    (is "interrupted ?P _ ?Q ?I")
proof -
  have new: "interrupted (\<lambda>w. ?P w \<and> first_pending (gw_ops w) = None)
      (act_then (grow_wanted t fl fx current wanted) (\<lambda>goal. case goal of None \<Rightarrow> ret None
         | Some n \<Rightarrow> act_then (grow_admit t fl fx nano current n) (\<lambda>x. ret (Some x)))) ?Q ?I" (is "interrupted ?N _ _ _")
  proof (rule interrupted_then [where R = "\<lambda>_. ?N"])
    show "interrupted ?N (grow_wanted t fl fx current wanted) (\<lambda>_. ?N) ?I"
      unfolding grow_wanted_def
      by (intro interrupted_if interrupted_then_read interrupted_ret)
        (auto intro!: interrupted_ret split: prod.splits)
    fix goal :: "int option"
    show "interrupted ?N (case goal of None \<Rightarrow> ret None
         | Some n \<Rightarrow> act_then (grow_admit t fl fx nano current n) (\<lambda>x. ret (Some x))) ?Q ?I"
    proof (cases goal)
      case None
      then show ?thesis unfolding None option.case by (intro interrupted_ret) simp
    next
      case (Some n)
      show ?thesis unfolding Some option.case by (rule interrupted_then [OF admit_events], rule interrupted_ret) simp
    qed
  qed
  show ?thesis
    unfolding grow_intent_def
  proof (rule interrupted_then_read)
    fix pending
    show "interrupted (\<lambda>w. ?P w \<and> Inr (first_pending (gw_ops w)) = Inr pending) (case pending of
       Some r \<Rightarrow> lift_result (if gf_operation fl \<noteq> [] \<and> gf_operation fl \<noteq> op_id r
           then Inl ''another operation needs reconciliation'' else Inr (Some (op_id r, op_target r)))
     | None \<Rightarrow> act_then (grow_wanted t fl fx current wanted) (\<lambda>goal. case goal of None \<Rightarrow> ret None
         | Some n \<Rightarrow> act_then (grow_admit t fl fx nano current n) (\<lambda>x. ret (Some x)))) ?Q ?I"
      by (rule interrupted_option; rule interrupted_pre [OF new] interrupted_lift) (auto simp: takes_up_def)
  qed simp
qed

lemma verify_events:
  "interrupted (\<lambda>w. growth_events t fl fx w0 w \<and> takes_up fl w r) (grow_verify t fl fx (op_id r, op_target r))
    (\<lambda>_. growth_events t fl fx w0) (growth_events t fl fx w0)"
proof -
  let ?E = "growth_events t fl fx w0"
  let ?U = "\<lambda>w. ?E w \<and> takes_up fl w r"
  have fin: "?E (w\<lparr>gw_ops := finish_op (op_id r) (gw_ops w)\<rparr>)"
    if "?U w" "size_reading t fx (gw_volume w) = Inr actual" "op_target r \<le> actual"
      "filesystem_reading t fx (gw_volume w) = Inr bytes" "op_target r \<le> bytes" for w actual bytes
    using that growth_event.finish [of fl w r t fx actual bytes] by auto
  show ?thesis
    unfolding grow_verify_def prod.case volume_size_def Let_def
    by (intro interrupted_then_read interrupted_then_lift interrupted_then_write [where R = ?E] stop_events interrupted_ret)
      (auto intro!: fin simp: size_reading_def filesystem_reading_def split: sum.splits if_splits)
qed

text \<open>The pending operation stays taken up while the volume changes, and both readings are made after the last change.\<close>

lemma apply_events:
  assumes iw: "iw = (op_id r, op_target r)"
  shows "interrupted (\<lambda>w. growth_events t fl fx w0 w \<and> size_reading t fx (gw_volume w) = Inr current \<and> takes_up fl w r)
    (grow_apply t fl fx current iw) (\<lambda>_. growth_events t fl fx w0) (growth_events t fl fx w0)"
proof -
  let ?E = "growth_events t fl fx w0"
  let ?U = "\<lambda>w. ?E w \<and> takes_up fl w r"
  let ?A = "\<lambda>actual w. ?U w \<and> size_reading t fx (gw_volume w) = Inr actual"
  have step: "?E w \<Longrightarrow> growth_event t fl fx w w' \<Longrightarrow> ?E w'" for w w' by (rule rtranclp.rtrancl_into_rtrancl)
  have ext: "interrupted (\<lambda>w. ?U w \<and> size_reading t fx (gw_volume w) = Inr current)
      (if current < op_target r then call_tool (tool_lvextend t (fx_devices fx) (op_target r) (fx_lv fx)) else ret [])
      (\<lambda>_. ?U) ?E" if cap: "op_target r \<le> cap_of fl"
    unfolding call_tool_def
    by (rule interrupted_if; rule interrupted_perform interrupted_ret)
      (auto intro!: step [OF _ growth_event.extend] cap simp: split_beta takes_up_def)
  have res: "interrupted ?U (call_tool (tool_resize t (fx_lv fx))) (\<lambda>_. ?U) ?E" if cap: "op_target r \<le> cap_of fl"
    unfolding call_tool_def
    by (rule interrupted_perform) (auto intro!: step [OF _ growth_event.resize] cap simp: split_beta takes_up_def)
  show ?thesis
    unfolding grow_apply_def iw prod.case
    by (rule interrupted_then_lift, simp, rule interrupted_then [OF interrupted_pre [OF ext]],
        simp add: cap_of_def, simp, rule stop_events, simp, rule interrupted_then [OF res], simp add: cap_of_def,
        rule stop_events, simp, rule verify_events)
qed

lemma step_events: "interrupted (growth_events t fl fx w0) (grow_step t fl fx nano) (\<lambda>_. growth_events t fl fx w0) (growth_events t fl fx w0)"
    (is "interrupted ?E _ _ _")
proof -
  have found: "interrupted (\<lambda>w. ?E w \<and> size_reading t fx (gw_volume w) = Inr current)
      (case found of Inl report \<Rightarrow> ret report
       | Inr wanted \<Rightarrow> act_then (grow_intent t fl fx nano current wanted) (\<lambda>goal.
           case goal of None \<Rightarrow> ret Below | Some iw \<Rightarrow> grow_apply t fl fx current iw)) (\<lambda>_. ?E) ?E" for found current
  proof (cases found)
    case (Inl report)
    show ?thesis unfolding Inl sum.case by (rule interrupted_ret) simp
  next
    case (Inr wanted)
    have goal: "interrupted (\<lambda>w. ?E w \<and> size_reading t fx (gw_volume w) = Inr current
       \<and> (\<forall>iw. goal = Some iw \<longrightarrow> (\<exists>r. takes_up fl w r \<and> iw = (op_id r, op_target r))))
      (case goal of None \<Rightarrow> ret Below | Some iw \<Rightarrow> grow_apply t fl fx current iw) (\<lambda>_. ?E) ?E" for goal
    proof (cases goal)
      case None
      show ?thesis unfolding None option.case by (rule interrupted_ret) simp
    next
      case (Some iw)
      show ?thesis
        unfolding Some option.case
        by (rule interrupted_assume) (auto intro!: interrupted_pre [OF apply_events [OF refl]])
    qed
    show ?thesis unfolding Inr sum.case by (rule interrupted_then [OF intent_events goal])
  qed
  have look: "interrupted (\<lambda>w. ?E w \<and> size_reading t fx (gw_volume w) = Inr current) (grow_lookup fl fx)
      (\<lambda>_ w. ?E w \<and> size_reading t fx (gw_volume w) = Inr current) ?E" for current
    by (rule interrupted_weaken [OF lookup_events [where P = "\<lambda>w. ?E w \<and> size_reading t fx (gw_volume w) = Inr current"]]) auto
  show ?thesis
    unfolding grow_step_def volume_size_def
    by (rule interrupted_then [OF mounted_events], rule interrupted_then_read, simp, rule interrupted_then_lift, simp,
        rule interrupted_pre [OF interrupted_then [OF look found]])
      (simp add: size_reading_def)
qed

text \<open>The whole command: its flags are in bounds, and every step of it makes events of these flags.\<close>

definition flags_in_bounds :: "grow_flags \<Rightarrow> grow_flags \<Rightarrow> bool" where
  "flags_in_bounds fl0 fl \<longleftrightarrow> 1 \<le> gf_maximum fl \<and> gf_maximum fl \<le> 6144 \<and> gf_maximum fl = gf_maximum fl0
     \<and> gf_operation fl = gf_operation fl0 \<and> (gf_watch fl \<longrightarrow> gf_operation fl = [])"

lemma grow_bounds_ok: "grow_bounds euid fl0 = Inr fl \<Longrightarrow> flags_in_bounds fl0 fl"
  by (auto simp: grow_bounds_def flags_in_bounds_def split: if_splits)

lemma start_events:
  "interrupted P (grow_start t env fl0) (\<lambda>(fl, fx) w. P w \<and> flags_in_bounds fl0 fl) P"
proof -
  have dev: "interrupted P (fold_act (check_device t root) ds ()) (\<lambda>_. P) P" for root ds
    by (rule interrupted_fold [where R = "\<lambda>_. P"])
      (auto simp: check_device_def split: sum.splits intro!: interrupted_then_try_read interrupted_lift)
  show ?thesis
    unfolding grow_start_def
    by (rule interrupted_then_lift, simp, rule interrupted_then_lift, simp, rule interrupted_then [OF dev],
        rule interrupted_then_try_read, (rule interrupted_then_lift, simp)+, rule interrupted_ret)
      (auto dest: grow_bounds_ok)
qed

lemma main_events:
  assumes step: "\<And>fl fx w w'. flags_in_bounds fl0 fl \<Longrightarrow> I w \<Longrightarrow> growth_event t fl fx w w' \<Longrightarrow> I w'"
  shows "interrupted I (grow_main t (env, fl0, clock)) (\<lambda>_. I) I"
proof -
  have close: "I w'" if "growth_events t fl fx w w'" "I w" "flags_in_bounds fl0 fl" for fl fx w w'
    using that by (induction rule: rtranclp_induct) (auto intro: step)
  have one: "interrupted I (grow_step t fl fx nano) (\<lambda>_. I) I" if "flags_in_bounds fl0 fl" for fl fx nano
    by (rule interrupted_assume, rule interrupted_weaken [OF step_events]) (auto intro: close that)
  have loop: "interrupted I (fold_act (grow_watch t fl fx) clock reports) (\<lambda>_. I) I"
    if "flags_in_bounds fl0 fl" for fl fx clock reports
    by (rule interrupted_fold [where R = "\<lambda>_. I"])
      (unfold grow_watch_def, rule interrupted_then [OF one [OF that]], rule interrupted_ret, simp)
  show ?thesis
    unfolding grow_main_def prod.case
  proof (rule interrupted_then [OF start_events])
    fix x :: "grow_flags \<times> fixture"
    obtain fl fx where x: "x = (fl, fx)" by (cases x)
    show "interrupted (case x of (fl, fx) \<Rightarrow> \<lambda>w. I w \<and> flags_in_bounds fl0 fl) (case x of (fl, fx) \<Rightarrow>
        fold_act (grow_watch t fl fx) (if gf_watch fl then clock else take 1 clock) []) (\<lambda>_. I) I"
      unfolding x prod.case by (rule interrupted_pure) (rule loop)
  qed
qed

text \<open>Any sequence of commands, each with its own environment, flags, clock and faults.\<close>

abbreviation growth_after :: "'v volume_tools \<Rightarrow> ((grow_env \<times> grow_flags \<times> int list) \<times> outcome list) list \<Rightarrow> 'v grow_world \<Rightarrow> 'v grow_world" where
  "growth_after t attempts w \<equiv> run_attempts (grow_main t) attempts w"

lemma growth_after_inv:
  assumes step: "\<And>fl0 fl fx w w'. fl0 \<in> commands \<Longrightarrow> flags_in_bounds fl0 fl \<Longrightarrow> I w \<Longrightarrow> growth_event t fl fx w w' \<Longrightarrow> I w'"
    and cmds: "fst ` snd ` fst ` set attempts \<subseteq> commands" and start: "I w"
  shows "I (growth_after t attempts w)"
  using cmds start
proof (induction attempts arbitrary: w)
  case (Cons a attempts)
  obtain env fl0 clock os where a: "a = ((env, fl0, clock), os)" by (cases a) auto
  obtain r w' os' where run: "grow_main t (env, fl0, clock) (w, os) = (r, (w', os'))" by (metis prod.exhaust)
  have fl0: "fl0 \<in> commands" using Cons.prems(1) by (auto simp: a)
  have "interrupted I (grow_main t (env, fl0, clock)) (\<lambda>_. I) I" by (rule main_events, rule step [OF fl0])
  from interruptedD [OF this Cons.prems(2) run] have "I w'" by (cases r) auto
  have "I (growth_after t attempts w')"
    by (rule Cons.IH [OF _ \<open>I w'\<close>]) (use Cons.prems(1) in \<open>auto simp only: list.set image_insert insert_subset\<close>)
  moreover have "growth_after t (a # attempts) w = growth_after t attempts w'"
    by (simp only: a run_attempts.simps run fst_conv snd_conv)
  ultimately show ?case by (simp only:)
qed (simp only: run_attempts.simps)

end
