(* ===== verification/Growth_Props.thy ===== *)
theory Growth_Props
  imports Growth_Events
begin

section \<open>Properties of volume growth\<close>

text \<open>
  What any sequence of commands, with any faults, makes of the table of operations and of the volume. The
  facts about the external programs are the named hypotheses \<open>tools_ok\<close> (what lvs reports is the size,
  lvextend only grows to what it is told, resize2fs leaves the volume) and \<open>tools_work\<close> (they succeed).
\<close>

subsection \<open>The table of operations\<close>

definition op_ok :: "grow_op \<Rightarrow> bool" where
  "op_ok r \<longleftrightarrow> (op_done r = 0 \<or> op_done r = 1) \<and> op_target r mod (4 * mib) = 0 \<and> op_target r \<le> 6144 * mib"

definition growth_ok :: "grow_op list \<Rightarrow> bool" where
  "growth_ok ops \<longleftrightarrow> distinct (map op_id ops) \<and> list_all op_ok ops \<and> length (filter (\<lambda>r. op_done r = 0) ops) \<le> 1"

definition same_intent :: "grow_op \<Rightarrow> grow_op \<Rightarrow> bool" where
  "same_intent r r' \<longleftrightarrow> op_id r' = op_id r \<and> op_uuid r' = op_uuid r \<and> op_target r' = op_target r
     \<and> (op_done r = 1 \<longrightarrow> op_done r' = 1)"

definition ops_extend :: "grow_op list \<Rightarrow> grow_op list \<Rightarrow> bool" where
  "ops_extend ops ops' \<longleftrightarrow> list_all2 same_intent ops (take (length ops) ops')"

lemma same_intent_trans: "same_intent a b \<Longrightarrow> same_intent b c \<Longrightarrow> same_intent a c"
  by (auto simp: same_intent_def)

lemma ops_extend_refl: "ops_extend ops ops"
  by (auto simp: ops_extend_def same_intent_def intro: list.rel_refl_strong)

lemma ops_extend_iff:
  "ops_extend a b \<longleftrightarrow> length a \<le> length b \<and> (\<forall>i < length a. same_intent (a ! i) (b ! i))"
  by (auto simp: ops_extend_def list_all2_conv_all_nth)

lemma ops_extend_trans: "ops_extend a b \<Longrightarrow> ops_extend b c \<Longrightarrow> ops_extend a c"
  unfolding ops_extend_iff by (meson le_trans less_le_trans same_intent_trans)

lemma find_None_iff_filter: "find P xs = None \<longleftrightarrow> filter P xs = []"
  by (induction xs) auto

lemma find_operation_None: "find_operation i ops = None \<longleftrightarrow> i \<notin> op_id ` set ops"
  by (auto simp: find_operation_def find_None_iff)

lemma finish_op_simps:
  "map op_id (finish_op i ops) = map op_id ops"
  "list_all op_ok ops \<Longrightarrow> list_all op_ok (finish_op i ops)"
  "ops_extend ops (finish_op i ops)"
  "length (filter (\<lambda>r. op_done r = 0) (finish_op i ops)) \<le> length (filter (\<lambda>r. op_done r = 0) ops)"
proof -
  show "map op_id (finish_op i ops) = map op_id ops" by (simp add: finish_op_def)
  show "list_all op_ok ops \<Longrightarrow> list_all op_ok (finish_op i ops)"
    by (auto simp: finish_op_def op_ok_def list_all_iff)
  show "ops_extend ops (finish_op i ops)"
    by (auto simp: ops_extend_def finish_op_def same_intent_def list_all2_conv_all_nth)
  show "length (filter (\<lambda>r. op_done r = 0) (finish_op i ops)) \<le> length (filter (\<lambda>r. op_done r = 0) ops)"
    by (induction ops) (auto simp: finish_op_def)
qed

lemma cap_of_bounds: "flags_in_bounds fl0 fl \<Longrightarrow> cap_of fl = gf_maximum fl0 * mib \<and> gf_maximum fl0 \<le> 6144"
  using cap_exact [of "gf_maximum fl"] by (auto simp: cap_of_def flags_in_bounds_def)

lemma event_keeps_intents:
  assumes "growth_event t fl fx w w'" and "flags_in_bounds fl0 fl" and "growth_ok (gw_ops w)"
  shows "growth_ok (gw_ops w') \<and> ops_extend (gw_ops w) (gw_ops w')"
  using assms
proof (induction rule: growth_event.cases)
  case (admit w r current)
  have "cap_of fl \<le> 6144 * mib"
    using cap_of_bounds [OF admit.prems(1)] by (simp add: mib_def)
  with admit have "growth_ok (gw_ops w @ [r])"
    by (auto simp: growth_ok_def op_ok_def list_all_iff find_operation_None first_pending_def find_None_iff_filter mod_0_imp_dvd
        dest: dvd_imp_mod_0)
  with admit show ?case
    by (simp add: ops_extend_def) (simp add: ops_extend_refl [unfolded ops_extend_def, simplified])
next
  case (finish w r actual bytes)
  then show ?case
    using le_trans [OF finish_op_simps(4) [of "op_id r" "gw_ops w"]] by (auto simp: growth_ok_def finish_op_simps)
qed (auto simp: ops_extend_refl)

subsection \<open>Hypotheses on the external programs\<close>

definition tools_ok :: "'v volume_tools \<Rightarrow> ('v \<Rightarrow> int) \<Rightarrow> bool" where
  "tools_ok t lv \<longleftrightarrow>
     (\<forall>fx v n. size_reading t fx v = Inr n \<longrightarrow> n = lv v)
   \<and> (\<forall>ds n l v. n mod (4 * mib) = 0 \<longrightarrow> lv (snd (tool_lvextend t ds n l v)) = lv v
        \<or> lv v < n \<and> lv (snd (tool_lvextend t ds n l v)) = n)
   \<and> (\<forall>l v. lv (snd (tool_resize t l v)) = lv v)"

lemma tools_okD:
  assumes "tools_ok t lv"
  shows "size_reading t fx v = Inr n \<Longrightarrow> n = lv v"
    and "n mod (4 * mib) = 0 \<Longrightarrow> lv (snd (tool_lvextend t ds n l v)) = lv v \<or> lv v < n \<and> lv (snd (tool_lvextend t ds n l v)) = n"
    and "lv (snd (tool_resize t l v)) = lv v"
proof -
  note all = assms [unfolded tools_ok_def]
  show "size_reading t fx v = Inr n \<Longrightarrow> n = lv v" using all by simp
  show "n mod (4 * mib) = 0 \<Longrightarrow> lv (snd (tool_lvextend t ds n l v)) = lv v \<or> lv v < n \<and> lv (snd (tool_lvextend t ds n l v)) = n"
    using all by simp
  show "lv (snd (tool_resize t l v)) = lv v" using all by simp
qed

lemma takes_up_ok: "takes_up fl w r \<Longrightarrow> growth_ok (gw_ops w) \<Longrightarrow> op_ok r"
  by (auto simp: takes_up_def first_pending_def find_Some_iff growth_ok_def list_all_iff)

subsection \<open>Sizes\<close>

lemma event_respects_cap:
  assumes "growth_event t fl fx w w'" "tools_ok t lv" "growth_ok (gw_ops w)" "flags_in_bounds fl0 fl" "gf_maximum fl0 \<le> m"
    and old: "lv0 \<le> lv (gw_volume w)" "lv (gw_volume w) \<le> max lv0 (m * mib)"
  shows "lv0 \<le> lv (gw_volume w') \<and> lv (gw_volume w') \<le> max lv0 (m * mib)"
  using assms(1)
proof (cases rule: growth_event.cases)
  case (extend r current)
  have "op_target r \<le> m * mib"
    using extend(3) cap_of_bounds [OF assms(4)] assms(5) by (simp add: mib_def)
  moreover from takes_up_ok [OF extend(2) assms(3)] have "op_target r mod (4 * mib) = 0" by (simp add: op_ok_def)
  from tools_okD(2) [OF assms(2) this, of "fx_devices fx" "fx_lv fx" "gw_volume w"]
  have "lv (gw_volume w') = lv (gw_volume w) \<or> lv (gw_volume w) < op_target r \<and> lv (gw_volume w') = op_target r"
    by (simp add: extend(1))
  ultimately show ?thesis using old by auto
qed (use old tools_okD(3) [OF assms(2)] in auto)

subsection \<open>One operation\<close>

definition grown_once :: "('v \<Rightarrow> int) \<Rightarrow> string \<Rightarrow> 'v grow_world \<Rightarrow> 'v grow_world \<Rightarrow> bool" where
  "grown_once lv x w w' \<longleftrightarrow> w' = w \<or> (\<exists>r. gw_ops w' = gw_ops w @ [r] \<and> op_id r = x \<and> op_ok r
     \<and> lv (gw_volume w) \<le> op_target r
     \<and> (if op_done r = 1 then lv (gw_volume w') = op_target r
        else lv (gw_volume w') = lv (gw_volume w) \<or> lv (gw_volume w') = op_target r))"

lemma first_pending_snoc:
  "first_pending ops = None \<Longrightarrow> first_pending (ops @ [r]) = (if op_done r = 0 then Some r else None)"
  by (induction ops) (auto simp: first_pending_def split: if_splits)

lemma finish_op_snoc: "op_id r \<notin> op_id ` set ops \<Longrightarrow> finish_op (op_id r) (ops @ [r]) = ops @ [r\<lparr>op_done := 1\<rparr>]"
proof -
  assume new: "op_id r \<notin> op_id ` set ops"
  have "finish_op (op_id r) ops = ops"
    unfolding finish_op_def by (rule map_idI) (metis imageI new)
  then show ?thesis by (simp add: finish_op_def)
qed

lemma event_grows_once:
  assumes ev: "growth_event t fl fx w1 w2" and tools: "tools_ok t lv" and fl: "flags_in_bounds fl0 fl"
    and x: "gf_operation fl0 = x" "x \<noteq> []" "x \<notin> op_id ` set (gw_ops w)" and idle: "first_pending (gw_ops w) = None"
    and once: "grown_once lv x w w1"
  shows "grown_once lv x w w2"
proof -
  have xf: "gf_operation fl = x" using fl x(1) by (simp add: flags_in_bounds_def)
  from once consider (start) "w1 = w" | (row) r where "gw_ops w1 = gw_ops w @ [r]" "op_id r = x" "op_ok r"
    "lv (gw_volume w) \<le> op_target r" "op_done r = 1 \<Longrightarrow> lv (gw_volume w1) = op_target r"
    "lv (gw_volume w1) = lv (gw_volume w) \<or> lv (gw_volume w1) = op_target r"
    unfolding grown_once_def by (auto split: if_splits)
  then show ?thesis
  proof cases
    case start
    from ev show ?thesis
    proof (cases rule: growth_event.cases)
      case (admit r current)
      have "lv (gw_volume w) \<le> op_target r" using admit(9,10) tools_okD(1) [OF tools] start by auto
      moreover have "op_ok r"
        using admit(6,7,8) cap_of_bounds [OF fl] by (auto simp: op_ok_def mib_def)
      ultimately show ?thesis
        using admit(1,4,6) xf x(2) start by (auto simp: grown_once_def)
    qed (use idle start in \<open>auto simp: takes_up_def\<close>)
  next
    case row
    have pend: "first_pending (gw_ops w1) = (if op_done r = 0 then Some r else None)"
      unfolding row(1) by (rule first_pending_snoc [OF idle])
    have only: "r' = r \<and> op_done r = 0" if "takes_up fl w1 r'" for r'
      using that pend by (auto simp: takes_up_def split: if_splits)
    from ev show ?thesis
    proof (cases rule: growth_event.cases)
      case (admit r' current)
      with xf x(2) row(1,2) show ?thesis by (auto simp: find_operation_None)
    next
      case (extend r' current)
      have r: "r' = r" "op_done r = 0" using only [OF extend(2)] by auto
      have "op_target r mod (4 * mib) = 0" using row(3) by (simp add: op_ok_def)
      from tools_okD(2) [OF tools this, of "fx_devices fx" "fx_lv fx" "gw_volume w1"]
      have "lv (gw_volume w2) = lv (gw_volume w1) \<or> lv (gw_volume w2) = op_target r" by (auto simp: extend(1) r(1))
      with row r(2) extend(1) show ?thesis by (auto simp: grown_once_def)
    next
      case (resize r')
      with row only [OF resize(2)] tools_okD(3) [OF tools] show ?thesis by (auto simp: grown_once_def)
    next
      case (finish r' actual bytes)
      have r: "r' = r" using only [OF finish(2)] by auto
      have "lv (gw_volume w1) = op_target r"
        using tools_okD(1) [OF tools finish(3)] finish(4) row(4,6) r by auto
      with row finish(1) r x(3) show ?thesis
        by (auto simp: grown_once_def finish_op_snoc op_ok_def intro!: exI [of _ "r\<lparr>op_done := 1\<rparr>"])
    qed
  qed
qed

subsection \<open>A fixture for the witnesses\<close>

text \<open>A volume is its size and the size of its filesystem in blocks of 4096 bytes.\<close>

type_synonym sample_volume = "nat \<times> nat"

definition sample_float :: float_reader where
  "sample_float s = (0, Some ''strconv.ParseFloat: parsing: invalid syntax'')"

definition newline :: char where
  "newline = char_of (10 :: nat)"

definition sample_tools :: "sample_volume volume_tools" where
  "sample_tools = \<lparr>
     tool_losetup = (\<lambda>d v. Inr (''/var/lib/edgelab-r2/disk'' @ drop 9 d)),
     tool_findmnt = (\<lambda>m v. Inr ''f-1''),
     tool_blkid = (\<lambda>l v. Inr ''f-1''),
     tool_lvs = (\<lambda>ds field l v. if field = ''lv_uuid'' then Inr ''u-1'' else Inr (itoa (4096 * fst v))),
     tool_vgs = (\<lambda>ds g v. Inr (itoa (2 ^ 33))),
     tool_statfs = (\<lambda>m v. Inr (100, 5)),
     tool_lvextend = (\<lambda>ds n l v. if int (4096 * fst v) < n then (Inr [], (nat n div 4096, snd v)) else (Inl ''no size change'', v)),
     tool_resize = (\<lambda>l v. (Inr [], (fst v, fst v))),
     tool_dumpe2fs = (\<lambda>l v. Inr (''Block count:'' @ itoa (snd v) @ newline # ''Block size:4096'')),
     tool_float = sample_float\<rparr>"

definition sample_lv :: "sample_volume \<Rightarrow> int" where
  "sample_lv v = int (4096 * fst v)"

definition sample_fixture :: json where
  "sample_fixture = JObj [(''machine'', JStr ''m-1''), (''devices'', JArr (map JStr
     [''/dev/loop0'', ''/dev/loop1'', ''/dev/loop2'', ''/dev/loop3''])),
     (''lv'', JStr ''/dev/edgelab_r2/data''), (''uuid'', JStr ''u-1''), (''mount'', JStr ''/var/lib/edgelab-r2/volume'')]"

definition sample_env :: grow_env where
  "sample_env = \<lparr>ge_euid = 0, ge_root = Inr (True, 448, 0), ge_marker = Inr (JObj [(''machine'', JStr ''m-1'')]),
     ge_storage = Inr sample_fixture, ge_machine_id = Inr ''m-1'', ge_lock = Inr (), ge_flock = True,
     ge_open = Inr (), ge_journal_mode = Inr ''wal'', ge_synchronous = Inr 2, ge_table = Inr ()\<rparr>"

definition sample_flags :: "string \<Rightarrow> int \<Rightarrow> string \<Rightarrow> grow_flags" where
  "sample_flags x target crash = \<lparr>gf_root = ''/var/lib/edgelab-r2'', gf_operation = x, gf_target = target, gf_threshold = 80,
     gf_maximum = 6144, gf_reserve = 512, gf_crash = crash, gf_watch = False\<rparr>"

definition sample_volume_world :: "sample_volume grow_world" where
  "sample_volume_world = \<lparr>gw_ops = [], gw_volume = (256 * 1024, 256 * 1024)\<rparr>"

lemma trim_itoa: "trim_space (itoa n) = itoa n"
proof (rule trim_space_id)
  fix c
  assume "c \<in> set (itoa n)"
  then have "digit_value c \<noteq> None" by (rule itoa_digits)
  then show "\<not> is_space c"
    by (auto simp: digit_value_def is_space_def less_eq_char_def split: if_splits)
qed

lemma number_itoa: "number other (itoa n) = (if n \<le> 2 ^ 53 then (int n, None) else other (itoa n))"
  by (simp add: number_def trim_itoa read_digits_itoa)

lemma sample_extend:
  assumes "n mod (4 * mib) = 0" "int (4096 * k) < n"
  shows "int (4096 * (nat n div 4096)) = n"
proof -
  have "4096 dvd n" using assms(1) by (auto simp: mib_def dvd_def mod_eq_0_iff_dvd)
  then obtain q where q: "n = 4096 * q" by blast
  with assms(2) have "0 \<le> q" by simp
  with q show ?thesis by (simp add: nat_mult_distrib)
qed

lemma sample_reading:
  "size_reading sample_tools fx v = (if 4096 * fst v \<le> 2 ^ 53 then Inr (sample_lv v) else Inl ''strconv.ParseFloat: parsing: invalid syntax'')"
  by (simp add: size_reading_def sample_tools_def run_tool_def number_checked_def number_itoa trim_itoa sample_float_def sample_lv_def)

lemma sample_tools_ok: "tools_ok sample_tools sample_lv"
  unfolding tools_ok_def
proof (intro conjI allI impI)
  fix fx v n
  assume "size_reading sample_tools fx v = Inr n"
  then show "n = sample_lv v" by (simp add: sample_reading split: if_splits)
next
  fix ds n l v
  assume "n mod (4 * mib) = 0"
  then show "sample_lv (snd (tool_lvextend sample_tools ds n l v)) = sample_lv v
      \<or> sample_lv v < n \<and> sample_lv (snd (tool_lvextend sample_tools ds n l v)) = n"
    using sample_extend [of n "fst v"] by (simp add: sample_tools_def sample_lv_def)
qed (simp add: sample_tools_def sample_lv_def)

subsection \<open>Properties\<close>

text \<open>C22. The table of operations is a permanent record: after any sequence of commands, each dying anywhere, the
operations have distinct identities, at most one is unfinished, every target is a whole number of extents
within the allocation bound, and every operation recorded before is still there with the same identity,
volume and target, and finished if it was finished.\<close>

theorem growth_keeps_its_intents:
  assumes "growth_ok (gw_ops w)"
  shows "growth_ok (gw_ops (growth_after t attempts w)) \<and> ops_extend (gw_ops w) (gw_ops (growth_after t attempts w))"
proof (rule growth_after_inv [where commands = UNIV])
  fix fl0 fl fx w1 w2
  assume "flags_in_bounds fl0 fl" "growth_ok (gw_ops w1) \<and> ops_extend (gw_ops w) (gw_ops w1)" "growth_event t fl fx w1 w2"
  then show "growth_ok (gw_ops w2) \<and> ops_extend (gw_ops w) (gw_ops w2)"
    using event_keeps_intents ops_extend_trans by blast
qed (use assms ops_extend_refl in auto)

text \<open>C23. No command shrinks the volume or takes it beyond its cap: whatever the commands do and wherever they die, the
volume ends no smaller than it was and no larger than both what it was and the largest cap configured.\<close>

theorem growth_respects_cap:
  assumes tools: "tools_ok t lv" and ok: "growth_ok (gw_ops w)"
    and cmds: "gf_maximum ` fst ` snd ` fst ` set attempts \<subseteq> {..m}"
  shows "lv (gw_volume w) \<le> lv (gw_volume (growth_after t attempts w))
    \<and> lv (gw_volume (growth_after t attempts w)) \<le> max (lv (gw_volume w)) (m * mib)"
proof -
  let ?I = "\<lambda>w'. growth_ok (gw_ops w') \<and> lv (gw_volume w) \<le> lv (gw_volume w') \<and> lv (gw_volume w') \<le> max (lv (gw_volume w)) (m * mib)"
  have "?I (growth_after t attempts w)"
  proof (rule growth_after_inv [where commands = "{fl. gf_maximum fl \<le> m}"])
    fix fl0 fl fx w1 w2
    assume "fl0 \<in> {fl. gf_maximum fl \<le> m}" "flags_in_bounds fl0 fl" "?I w1" "growth_event t fl fx w1 w2"
    then show "?I w2"
      using event_keeps_intents event_respects_cap [OF _ tools] by blast
  qed (use ok cmds in \<open>simp_all add: image_subset_iff\<close>)
  then show ?thesis by blast
qed

text \<open>C21. An operation grows the volume at most once. Take an idle controller and any number of commands for one new
operation identity, each dying anywhere, whether the target is given or comes from the threshold. Then
either nothing has happened, or exactly one row was added, the volume is as it was or at the recorded
target, and if the row is finished it is at the target: a retry never adds a second increment.\<close>

theorem growth_happens_once:
  assumes tools: "tools_ok t lv" and idle: "first_pending (gw_ops w) = None" and new: "x \<noteq> []" "x \<notin> op_id ` set (gw_ops w)"
    and cmds: "gf_operation ` fst ` snd ` fst ` set attempts \<subseteq> {x}"
  shows "grown_once lv x w (growth_after t attempts w)"
proof (rule growth_after_inv [where commands = "{fl. gf_operation fl = x}"])
  fix fl0 fl fx w1 w2
  assume "fl0 \<in> {fl. gf_operation fl = x}" "flags_in_bounds fl0 fl" "grown_once lv x w w1" "growth_event t fl fx w1 w2"
  then show "grown_once lv x w w2"
    using event_grows_once [OF _ tools _ _ new idle] by blast
qed (use cmds in \<open>simp_all add: image_subset_iff grown_once_def\<close>)

definition sample_killed :: "(grow_env \<times> grow_flags \<times> int list) \<times> outcome list" where
  "sample_killed = ((sample_env, sample_flags ''g-1'' 2048 ''lv'', [0]), [])"

definition sample_retry :: "(grow_env \<times> grow_flags \<times> int list) \<times> outcome list" where
  "sample_retry = ((sample_env, sample_flags ''g-1'' 2048 [], [1]), [])"

lemma sample_growth:
  "growth_after sample_tools [sample_killed] sample_volume_world =
     \<lparr>gw_ops = [\<lparr>op_id = ''g-1'', op_uuid = ''u-1'', op_target = 2048 * mib, op_done = 0\<rparr>], gw_volume = (512 * 1024, 256 * 1024)\<rparr>"
  by code_simp

theorem growth_keeps_its_intents_witness:
  "growth_ok (gw_ops sample_volume_world)
    \<and> growth_ok (gw_ops (growth_after sample_tools [sample_killed, sample_retry] (growth_after sample_tools [sample_killed] sample_volume_world)))
    \<and> ops_extend [\<lparr>op_id = ''g-1'', op_uuid = ''u-1'', op_target = 2048 * mib, op_done = 0\<rparr>]
        (gw_ops (growth_after sample_tools [sample_killed, sample_retry] (growth_after sample_tools [sample_killed] sample_volume_world)))"
proof -
  have ok: "growth_ok (gw_ops sample_volume_world)" by code_simp
  have "growth_ok (gw_ops (growth_after sample_tools [sample_killed] sample_volume_world))"
    unfolding sample_growth by code_simp
  with ok growth_keeps_its_intents [OF this, of sample_tools "[sample_killed, sample_retry]"] show ?thesis by (simp add: sample_growth)
qed

theorem growth_respects_cap_witness:
  "sample_lv (gw_volume (growth_after sample_tools [sample_killed, sample_retry] sample_volume_world)) \<in> {1024 * mib .. 6144 * mib}"
proof -
  have "growth_ok (gw_ops sample_volume_world)" by code_simp
  from growth_respects_cap [OF sample_tools_ok this, of "[sample_killed, sample_retry]" 6144] show ?thesis
    by (simp add: sample_killed_def sample_retry_def sample_flags_def sample_volume_world_def sample_lv_def mib_def)
qed

theorem growth_happens_once_witness:
  "grown_once sample_lv ''g-1'' sample_volume_world (growth_after sample_tools [sample_killed, sample_retry] sample_volume_world)
    \<and> gw_ops (growth_after sample_tools [sample_killed] sample_volume_world) \<noteq> []"
proof
  have "first_pending (gw_ops sample_volume_world) = None" "''g-1'' \<notin> op_id ` set (gw_ops sample_volume_world)"
    by (simp_all add: sample_volume_world_def first_pending_def)
  then show "grown_once sample_lv ''g-1'' sample_volume_world (growth_after sample_tools [sample_killed, sample_retry] sample_volume_world)"
    by (intro growth_happens_once [OF sample_tools_ok]) (simp_all add: sample_killed_def sample_retry_def sample_flags_def)
  show "gw_ops (growth_after sample_tools [sample_killed] sample_volume_world) \<noteq> []" unfolding sample_growth by simp
qed

subsection \<open>Completion\<close>

definition tools_work :: "'v volume_tools \<Rightarrow> ('v \<Rightarrow> int) \<Rightarrow> ('v \<Rightarrow> int) \<Rightarrow> fixture \<Rightarrow> bool" where
  "tools_work t lv fs fx \<longleftrightarrow>
     (\<forall>v. lv v \<le> 2 ^ 43 \<longrightarrow> size_reading t fx v = Inr (lv v))
   \<and> (\<forall>v n. n mod (4 * mib) = 0 \<longrightarrow> lv v < n \<longrightarrow> n \<le> 2 ^ 43 \<longrightarrow>
        is_ok (fst (tool_lvextend t (fx_devices fx) n (fx_lv fx) v)) \<and> lv (snd (tool_lvextend t (fx_devices fx) n (fx_lv fx) v)) = n)
   \<and> (\<forall>v. is_ok (fst (tool_resize t (fx_lv fx) v)) \<and> lv (snd (tool_resize t (fx_lv fx) v)) = lv v
        \<and> fs (snd (tool_resize t (fx_lv fx) v)) = lv v)
   \<and> (\<forall>v. 0 \<le> fs v \<longrightarrow> fs v \<le> 2 ^ 43 \<longrightarrow> filesystem_reading t fx v = Inr (fs v))
   \<and> (\<forall>v. \<exists>u. u \<noteq> [] \<and> run_tool (tool_findmnt t (fx_mount fx) v) = Inr u \<and> run_tool (tool_blkid t (fx_lv fx) v) = Inr u)"

lemma size_reading_parts:
  "size_reading t fx v = Inr n \<Longrightarrow> \<exists>raw. run_tool (tool_lvs t (fx_devices fx) ''lv_size'' (fx_lv fx) v) = Inr raw
     \<and> number_checked (tool_float t) raw = Inr n"
  by (auto simp: size_reading_def and_then_eq_Inr)

lemma run_tool_ok: "is_ok r \<Longrightarrow> is_ok (run_tool r)"
  by (auto simp: run_tool_def is_ok_iff split: sum.splits)

lemma try_read_clean [simp]: "try_act (read_world f) (w, []) = (Inr (f w), (w, []))"
  by (simp add: try_act_def)

lemma call_tool_clean: "is_ok (fst (f (gw_volume w))) \<Longrightarrow>
    \<exists>out. call_tool f (w, []) = (Inr out, (w\<lparr>gw_volume := snd (f (gw_volume w))\<rparr>, []))"
  using run_tool_ok [of "fst (f (gw_volume w))"] by (auto simp: call_tool_def split_beta is_ok_iff)

lemma verify_clean:
  assumes "size_reading t fx (gw_volume w) = Inr n" "k \<le> n" "filesystem_reading t fx (gw_volume w) = Inr b" "k \<le> b"
    and "gf_crash fl = []"
  shows "grow_verify t fl fx (i, k) (w, []) = (Inr (Grown i k n b), (w\<lparr>gw_ops := finish_op i (gw_ops w)\<rparr>, []))"
  using size_reading_parts [OF assms(1)] assms(2-)
  by (auto simp: grow_verify_def volume_size_def act_then_def filesystem_reading_def and_then_eq_Inr stop_after_def Let_def)

lemma find_operation_self:
  "r \<in> set ops \<Longrightarrow> distinct (map op_id ops) \<Longrightarrow> find_operation (op_id r) ops = Some r"
  by (induction ops) (auto simp: find_operation_def)

lemma finish_last:
  assumes "first_pending ops = Some r" "length (filter (\<lambda>r. op_done r = 0) ops) \<le> 1"
  shows "first_pending (finish_op (op_id r) ops) = None"
proof -
  from assms(1) have r: "r \<in> set (filter (\<lambda>r. op_done r = 0) ops)"
    by (auto simp: first_pending_def find_Some_iff)
  with assms(2) have "filter (\<lambda>r. op_done r = 0) ops = [r]"
    by (cases "filter (\<lambda>r. op_done r = 0) ops") auto
  then have "set (filter (\<lambda>r. op_done r = 0) ops) = {r}" by simp
  then have "\<forall>r' \<in> set ops. op_done r' = 0 \<longrightarrow> r' = r" by auto
  then show ?thesis by (auto simp: first_pending_def finish_op_def find_None_iff split: if_splits)
qed

text \<open>C24. An interrupted growth completes: when an operation is left unfinished, wherever it was interrupted, the next
command that meets no fault, gives no other identity and has a sufficient cap finishes it, with the volume
and the filesystem at its target and no operation left unfinished.\<close>

theorem interrupted_growth_completes:
  assumes tools: "tools_work t lv fs fx" and start: "grow_start t env fl0 (w, []) = (Inr (fl, fx), (w, []))"
    and flags: "gf_watch fl = False" "gf_crash fl = []" "op_target r \<le> cap_of fl"
    and same: "gf_operation fl = [] \<or> gf_operation fl = op_id r \<and> op_uuid r = fx_uuid fx
        \<and> (gf_target fl = 0 \<or> op_target r = int64 (gf_target fl * mib))"
    and ok: "growth_ok (gw_ops w)" and pending: "first_pending (gw_ops w) = Some r"
    and size: "0 \<le> lv (gw_volume w)" "lv (gw_volume w) \<le> 2 ^ 43"
  shows "\<exists>v n. run_clean (grow_main t (env, fl0, [nano])) w =
      (Inr [Grown (op_id r) (op_target r) n n], w\<lparr>gw_ops := finish_op (op_id r) (gw_ops w), gw_volume := v\<rparr>)
    \<and> op_target r \<le> n \<and> lv v = n \<and> fs v = n \<and> first_pending (finish_op (op_id r) (gw_ops w)) = None"
proof -
  let ?v0 = "gw_volume w" and ?ext = "tool_lvextend t (fx_devices fx) (op_target r) (fx_lv fx)"
  define v1 where "v1 = (if lv ?v0 < op_target r then snd (?ext ?v0) else ?v0)"
  define v2 where "v2 = snd (tool_resize t (fx_lv fx) v1)"
  note work = tools [unfolded tools_work_def]
  have r: "r \<in> set (gw_ops w)" "op_done r = 0" using pending by (auto simp: first_pending_def find_Some_iff)
  have tgt: "op_target r mod (4 * mib) = 0" "op_target r \<le> 2 ^ 43"
    using ok r(1) by (auto simp: growth_ok_def list_all_iff op_ok_def mib_def)
  have ext: "lv ?v0 < op_target r \<Longrightarrow> is_ok (fst (?ext ?v0)) \<and> lv (snd (?ext ?v0)) = op_target r" using work tgt by simp
  have lv1: "lv v1 = max (lv ?v0) (op_target r)" using ext by (auto simp: v1_def)
  have lv2: "lv v2 = lv v1" "fs v2 = lv v1" "is_ok (fst (tool_resize t (fx_lv fx) v1))" using work by (simp_all add: v2_def)
  have read: "size_reading t fx ?v0 = Inr (lv ?v0)" "size_reading t fx v2 = Inr (lv v2)" "filesystem_reading t fx v2 = Inr (fs v2)"
    using work size tgt(2) lv1 lv2 by simp_all
  from size_reading_parts [OF read(1)] obtain raw where
    raw: "run_tool (tool_lvs t (fx_devices fx) ''lv_size'' (fx_lv fx) ?v0) = Inr raw" "number_checked (tool_float t) raw = Inr (lv ?v0)"
    by blast
  have mounted: "grow_mounted t fx (w, []) = (Inr (), (w, []))"
  proof -
    from work obtain u where "u \<noteq> []" "run_tool (tool_findmnt t (fx_mount fx) ?v0) = Inr u" "run_tool (tool_blkid t (fx_lv fx) ?v0) = Inr u"
      by blast
    then show ?thesis by (simp add: grow_mounted_def act_then_def)
  qed
  have look: "\<exists>wanted. grow_lookup fl fx (w, []) = (Inr (Inr wanted), (w, []))"
    using same r find_operation_self [OF r(1)] ok
    by (auto simp: grow_lookup_def act_then_def growth_ok_def)
  have intent: "grow_intent t fl fx nano (lv ?v0) wanted (w, []) = (Inr (Some (op_id r, op_target r)), (w, []))" for wanted
    using same pending by (auto simp: grow_intent_def act_then_def)
  have grow: "\<exists>out. (if lv ?v0 < op_target r then call_tool ?ext else ret []) (w, []) = (Inr out, (w\<lparr>gw_volume := v1\<rparr>, []))"
    using call_tool_clean [of ?ext w] ext by (auto simp: v1_def)
  have resize: "\<exists>out. call_tool (tool_resize t (fx_lv fx)) (w\<lparr>gw_volume := v1\<rparr>, []) = (Inr out, (w\<lparr>gw_volume := v2\<rparr>, []))"
    using call_tool_clean [of "tool_resize t (fx_lv fx)" "w\<lparr>gw_volume := v1\<rparr>"] lv2(3) by (auto simp: v2_def)
  let ?n = "max (lv ?v0) (op_target r)"
  let ?w' = "w\<lparr>gw_ops := finish_op (op_id r) (gw_ops w), gw_volume := v2\<rparr>"
  have verify: "grow_verify t fl fx (op_id r, op_target r) (w\<lparr>gw_volume := v2\<rparr>, []) =
      (Inr (Grown (op_id r) (op_target r) ?n ?n), (?w', []))"
    using verify_clean [of t fx "w\<lparr>gw_volume := v2\<rparr>" ?n "op_target r" ?n fl "op_id r"] read lv1 lv2 flags(2) by simp
  have apply_it: "grow_apply t fl fx (lv ?v0) (op_id r, op_target r) (w, []) = (Inr (Grown (op_id r) (op_target r) ?n ?n), (?w', []))"
    using grow resize verify flags(2,3) by (auto simp: grow_apply_def act_then_def stop_after_def cap_of_def)
  have "grow_step t fl fx nano (w, []) = (Inr (Grown (op_id r) (op_target r) ?n ?n), (?w', []))"
    using mounted look intent apply_it raw by (auto simp: grow_step_def volume_size_def act_then_def)
  then have "run_clean (grow_main t (env, fl0, [nano])) w = (Inr [Grown (op_id r) (op_target r) ?n ?n], ?w')"
    using start flags(1) by (simp add: run_clean_def grow_main_def act_then_def grow_watch_def)
  then show ?thesis
    using finish_last [OF pending] ok lv1 lv2 by (auto simp: growth_ok_def)
qed

definition sample_fs :: "sample_volume \<Rightarrow> int" where
  "sample_fs v = int (4096 * snd v)"

definition sample_read_fixture :: fixture where
  "sample_read_fixture = \<lparr>fx_machine = ''m-1'', fx_devices = [''/dev/loop0'', ''/dev/loop1'', ''/dev/loop2'', ''/dev/loop3''],
     fx_lv = ''/dev/edgelab_r2/data'', fx_uuid = ''u-1'', fx_mount = ''/var/lib/edgelab-r2/volume''\<rparr>"

lemma newline_itoa: "newline \<notin> set (''Block count:'' @ itoa n)"
proof -
  have "digit_value newline = None" by code_simp
  then have "newline \<notin> set (itoa n)" using itoa_digits by blast
  moreover have "newline \<notin> set ''Block count:''" by code_simp
  ultimately show ?thesis by simp
qed

lemma sample_filesystem:
  assumes "4096 * int k \<le> 2 ^ 43"
  shows "filesystem_bytes other (''Block count:'' @ itoa k @ newline # ''Block size:4096'') = 4096 * int k"
proof -
  have nl: "newline \<notin> set ''Block size:4096''" by code_simp
  have four: "number other ''4096'' = (4096, None)"
    using number_itoa [of other 4096] by (simp add: itoa.simps [of 4096] itoa.simps [of 409] itoa.simps [of 40] itoa.simps [of 4] hex_digit_def)
  have "k \<le> 2 ^ 53" using assms by simp
  then have num: "fst (number other (itoa k)) = int k" by (simp add: number_itoa)
  have split: "split_on (char_of (10 :: nat)) (''Block count:'' @ itoa k @ newline # ''Block size:4096'')
      = [''Block count:'' @ itoa k, ''Block size:4096'']"
    using split_on_join [OF newline_itoa [of k], of "''Block size:4096''"] split_on_single [OF nl]
    by (simp add: newline_def)
  show ?thesis
    unfolding filesystem_bytes_def split using assms num four
    by (simp add: read_block_line_def trim_prefix_def int64_id)
qed

lemma sample_tools_work: "tools_work sample_tools sample_lv sample_fs fx"
  unfolding tools_work_def
proof (intro conjI allI impI)
  fix v
  assume "0 \<le> sample_fs v" "sample_fs v \<le> 2 ^ 43"
  then have "filesystem_bytes sample_float (''Block count:'' @ itoa (snd v) @ newline # ''Block size:4096'') = sample_fs v"
    using sample_filesystem by (simp add: sample_fs_def)
  moreover have "trim_space (''Block count:'' @ itoa (snd v) @ newline # ''Block size:4096'')
      = ''Block count:'' @ itoa (snd v) @ newline # ''Block size:4096''"
    by (simp add: trim_space_def is_space_def less_eq_char_def)
  ultimately show "filesystem_reading sample_tools fx v = Inr (sample_fs v)"
    by (simp add: filesystem_reading_def sample_tools_def run_tool_def)
next
  fix v n
  assume n: "n mod (4 * mib) = 0" "sample_lv v < n"
  show "is_ok (fst (tool_lvextend sample_tools (fx_devices fx) n (fx_lv fx) v))"
    using n(2) by (simp add: sample_tools_def sample_lv_def)
  show "sample_lv (snd (tool_lvextend sample_tools (fx_devices fx) n (fx_lv fx) v)) = n"
    using n sample_extend [OF n(1), of "fst v"] by (simp add: sample_tools_def sample_lv_def)
next
  fix v
  show "\<exists>u. u \<noteq> [] \<and> run_tool (tool_findmnt sample_tools (fx_mount fx) v) = Inr u \<and> run_tool (tool_blkid sample_tools (fx_lv fx) v) = Inr u"
    by (simp add: sample_tools_def run_tool_def trim_space_def is_space_def less_eq_char_def)
  assume "sample_lv v \<le> 2 ^ 43"
  then show "size_reading sample_tools fx v = Inr (sample_lv v)" by (simp add: sample_reading sample_lv_def)
qed (simp_all add: sample_tools_def sample_lv_def sample_fs_def)

lemma sample_started:
  "grow_start sample_tools sample_env (sample_flags ''g-1'' 2048 [])
     (\<lparr>gw_ops = [\<lparr>op_id = ''g-1'', op_uuid = ''u-1'', op_target = 2048 * mib, op_done = 0\<rparr>], gw_volume = (512 * 1024, 256 * 1024)\<rparr>, [])
   = (Inr (sample_flags ''g-1'' 2048 [], sample_read_fixture),
     (\<lparr>gw_ops = [\<lparr>op_id = ''g-1'', op_uuid = ''u-1'', op_target = 2048 * mib, op_done = 0\<rparr>], gw_volume = (512 * 1024, 256 * 1024)\<rparr>, []))"
  by code_simp

text \<open>The command of the sample died after lvextend; the next one completes it.\<close>

theorem interrupted_growth_completes_witness:
  "\<exists>v n. run_clean (grow_main sample_tools (sample_env, sample_flags ''g-1'' 2048 [], [1]))
      (growth_after sample_tools [sample_killed] sample_volume_world) = (Inr [Grown ''g-1'' (2048 * mib) n n],
      \<lparr>gw_ops = [\<lparr>op_id = ''g-1'', op_uuid = ''u-1'', op_target = 2048 * mib, op_done = 1\<rparr>], gw_volume = v\<rparr>) \<and> 2048 * mib \<le> n"
proof -
  let ?r = "\<lparr>op_id = ''g-1'', op_uuid = ''u-1'', op_target = 2048 * mib, op_done = 0\<rparr>"
  have ok: "growth_ok [?r]" by code_simp
  have cap: "op_target ?r \<le> cap_of (sample_flags ''g-1'' 2048 [])" by code_simp
  have tgt: "2048 * mib = int64 (2048 * mib)" by code_simp
  from interrupted_growth_completes [OF sample_tools_work sample_started, where r = ?r and nano = 1] ok cap tgt show ?thesis
    by (auto simp: sample_growth sample_flags_def sample_read_fixture_def first_pending_def sample_lv_def finish_op_def)
qed

subsection \<open>The reserve\<close>

text \<open>The reserve has no upper bound, and its size in bytes wraps around: with $2^{44}$ MiB it is no reserve at all.\<close>

lemma huge_reserve_is_no_reserve:
  "enough_backing (fl\<lparr>gf_reserve := 2 ^ 44\<rparr>) current wanted free \<longleftrightarrow> int64 (wanted - current) \<le> free"
  "grow_bounds 0 (sample_flags x 2048 crash\<lparr>gf_reserve := 2 ^ 44\<rparr>) = Inr (sample_flags x 2048 crash\<lparr>gf_reserve := 2 ^ 44\<rparr>)"
proof -
  have "int64 (2 ^ 44 * mib) = 0" by code_simp
  moreover have "int64 (int64 n) = int64 n" for n by (simp add: int64_def)
  ultimately show "enough_backing (fl\<lparr>gf_reserve := 2 ^ 44\<rparr>) current wanted free \<longleftrightarrow> int64 (wanted - current) \<le> free"
    by (simp add: enough_backing_def)
  show "grow_bounds 0 (sample_flags x 2048 crash\<lparr>gf_reserve := 2 ^ 44\<rparr>) = Inr (sample_flags x 2048 crash\<lparr>gf_reserve := 2 ^ 44\<rparr>)"
    by (simp add: grow_bounds_def sample_flags_def int64_def)
qed

end
