(* ===== verification/Publisher.thy ===== *)
theory Publisher
  imports Management Effects
begin

section \<open>The publication loop: publishLoop and reconcileWorkloads\<close>

text \<open>
  \<^verbatim>\<open>publishLoop\<close> and \<^verbatim>\<open>reconcileWorkloads\<close> of \<^verbatim>\<open>cmd/worker/serve.go\<close>. The loop acts on a host \<open>'e\<close>: the restore
  guard, the database as the HTTP handlers leave it at that moment, systemd, the health and identity
  endpoints of the workloads, the routers and the clock. Every call is answered by the host and moves it
  on, so that anything may happen between two calls. The calls and their answers are kept as a trace.
  Go visits the records of a snapshot in any order: the order is an argument.
\<close>

subsection \<open>The host\<close>

text \<open>
  An answer of systemctl is \<^const>\<open>None\<close> for success. The health endpoint answers a status and a document,
  a dialled workload a document, a router a status.
\<close>

record 'e host =
  host_guard :: "'e \<Rightarrow> stat_result \<times> 'e"
  host_state :: "'e \<Rightarrow> (sql_faults \<times> routing_db) \<times> 'e"
  host_clock :: "'e \<Rightarrow> int \<times> 'e"
  host_active :: "string \<Rightarrow> 'e \<Rightarrow> bool \<times> 'e"
  host_control :: "string \<Rightarrow> string \<Rightarrow> 'e \<Rightarrow> string option \<times> 'e"
  host_health :: "string \<Rightarrow> 'e \<Rightarrow> (nat \<times> json result) result \<times> 'e"
  host_dial :: "string \<Rightarrow> 'e \<Rightarrow> json result result \<times> 'e"
  host_post :: "string \<Rightarrow> string \<Rightarrow> json \<Rightarrow> 'e \<Rightarrow> nat result \<times> 'e"

datatype host_call =
    Stat stat_result
  | ReadState "routeSnapshot result"
  | IsActive string bool
  | Control string string "string option"
  | Health string "(nat \<times> json result) result"
  | Dial string "json result result"
  | Post string string json "nat result"

record 'e publisher =
  pb_daemon :: workerDaemon
  pb_host :: 'e
  pb_calls :: "host_call list"

type_synonym ('e, 'a) publishing = "('e publisher, 'a) action"

definition ask :: "('e \<Rightarrow> 'a \<times> 'e) \<Rightarrow> ('a \<Rightarrow> host_call list) \<Rightarrow> ('e, 'a) publishing" where
  "ask f note_of = direct (\<lambda>p. case f (pb_host p) of (x, e) \<Rightarrow>
     (x, p\<lparr>pb_host := e, pb_calls := pb_calls p @ note_of x\<rparr>))"

definition clock :: "'e host \<Rightarrow> ('e, int) publishing" where
  "clock h = ask (host_clock h) (\<lambda>_. [])"

definition change_identities ::
  "((string, instanceObservation) go_map \<Rightarrow> (string, instanceObservation) go_map) \<Rightarrow> ('e, unit) publishing" where
  "change_identities f = direct (\<lambda>p. ((), p\<lparr>pb_daemon := (pb_daemon p)\<lparr>dm_identities := f (dm_identities (pb_daemon p))\<rparr>\<rparr>))"

subsection \<open>One record\<close>

definition contains_any :: "string \<Rightarrow> string \<Rightarrow> bool" where
  "contains_any s chars \<longleftrightarrow> list_ex (\<lambda>c. c \<in> set chars) s"

text \<open>Lines 411 to 416: the configured workload and its unit name.\<close>

definition owned_workload :: "daemonConfig \<Rightarrow> string \<Rightarrow> routeRecord \<Rightarrow> workload result" where
  "owned_workload config i r =
     (case gm_get (cfg_workloads config) i of
        None \<Rightarrow> Inl ''workload requires ownership reconciliation''
      | Some expected \<Rightarrow>
          if wl_app expected \<noteq> rec_app r \<or> wl_endpoint expected \<noteq> rec_endpoint r
            \<or> \<not> prefix ''edgelab-'' (wl_unit expected) \<or> \<not> suffix ''.service'' (wl_unit expected)
            \<or> contains_any (wl_unit expected) [CHR ''/'', CHR '' '', CHR 0x09, CHR 0x0A]
          then Inl ''workload requires ownership reconciliation''
          else Inr expected)"

text \<open>Lines 417 to 431: the supervisor is asked, and told to start or stop only when it has to.\<close>

definition supervise :: "'e host \<Rightarrow> routeRecord \<Rightarrow> workload \<Rightarrow> ('e, unit) publishing" where
  "supervise h r expected =
     act_then (ask (host_active h (wl_unit expected)) (\<lambda>b. [IsActive (wl_unit expected) b])) (\<lambda>active.
     if rec_deleted r \<and> active \<or> \<not> rec_deleted r \<and> \<not> active then
       (let verb = (if rec_deleted r then ''stop'' else ''start'') in
        act_then (ask (host_control h verb (wl_unit expected)) (\<lambda>e. [Control verb (wl_unit expected) e])) (\<lambda>e.
        lift_result (case e of None \<Rightarrow> Inr () | Some m \<Rightarrow> Inl (''supervisor '' @ verb @ '': '' @ m))))
     else ret ())"

text \<open>\<^verbatim>\<open>map[string]string\<close>: a missing member reads as the empty string.\<close>

definition identity_of :: "json \<Rightarrow> (string, string) go_map result" where
  "identity_of doc = read_map read_str [] doc []"

definition member :: "(string, string) go_map \<Rightarrow> string \<Rightarrow> string" where
  "member m k = (case gm_get m k of None \<Rightarrow> [] | Some v \<Rightarrow> v)"

definition health_ready :: "string \<Rightarrow> nat \<times> json result \<Rightarrow> bool" where
  "health_ready i answer = (case answer of (status, doc) \<Rightarrow>
     (case and_then doc identity_of of Inl _ \<Rightarrow> False | Inr m \<Rightarrow> status = 200 \<and> member m ''owner'' = i))"

definition serving_ready :: "string \<Rightarrow> string \<Rightarrow> routeRecord \<Rightarrow> workload \<Rightarrow> json result \<Rightarrow> bool" where
  "serving_ready owner i r expected doc = (case and_then doc identity_of of Inl _ \<Rightarrow> False
     | Inr m \<Rightarrow> member m ''app'' = rec_app r \<and> member m ''instance'' = i \<and> member m ''worker'' = owner
         \<and> member m ''version'' = wl_version expected)"

text \<open>Lines 438 to 464: the identity the workload itself serves.\<close>

definition probe :: "'e host \<Rightarrow> string \<Rightarrow> string \<Rightarrow> routeRecord \<Rightarrow> workload \<Rightarrow> ('e, unit) publishing" where
  "probe h owner i r expected =
     (if wl_kind expected = ''objects'' then
        act_then (ask (host_health h (wl_endpoint expected)) (\<lambda>a. [Health (wl_endpoint expected) a])) (\<lambda>a.
        lift_result (and_then a (\<lambda>answer. guard (health_ready i answer) ''object ownership not ready'')))
      else if wl_kind expected = ''echo'' then
        act_then (ask (host_dial h (wl_endpoint expected)) (\<lambda>a. [Dial (wl_endpoint expected) a])) (\<lambda>a.
        lift_result (and_then a (\<lambda>doc. guard (serving_ready owner i r expected doc) ''workload serving identity not ready'')))
      else lift_result (Inl ''unsupported workload identity protocol''))"

definition unknown_at :: "int \<Rightarrow> instanceObservation" where
  "unknown_at now = \<lparr>obs_state = ''unknown'', obs_app = [], obs_instance = [], obs_version = [], obs_endpoint = [], obs_checked = now\<rparr>"

definition verified_at :: "string \<Rightarrow> routeRecord \<Rightarrow> workload \<Rightarrow> int \<Rightarrow> instanceObservation" where
  "verified_at i r expected now = \<lparr>obs_state = ''verified'', obs_app = rec_app r, obs_instance = i,
     obs_version = (if wl_kind expected = ''objects'' then [] else wl_version expected),
     obs_endpoint = rec_endpoint r, obs_checked = now\<rparr>"

definition reconcile_record :: "'e host \<Rightarrow> daemonConfig \<Rightarrow> string \<Rightarrow> string \<times> routeRecord \<Rightarrow> unit \<Rightarrow> ('e, unit) publishing" where
  "reconcile_record h config owner entry u = (case entry of (i, r) \<Rightarrow>
     act_then (if rec_deleted r then ret ()
       else act_then (clock h) (\<lambda>now. change_identities (gm_put i (unknown_at now)))) (\<lambda>_.
     act_then (lift_result (owned_workload config i r)) (\<lambda>expected.
     act_then (supervise h r expected) (\<lambda>_.
     if rec_deleted r then change_identities (gm_del i)
     else act_then (probe h owner i r expected) (\<lambda>_.
       act_then (clock h) (\<lambda>now. change_identities (gm_put i (verified_at i r expected now))))))))"

definition reconcileWorkloads :: "'e host \<Rightarrow> daemonConfig \<Rightarrow> string \<Rightarrow> (string \<times> routeRecord) list \<Rightarrow> ('e, unit) publishing" where
  "reconcileWorkloads h config owner visited = fold_act (reconcile_record h config owner) visited ()"

subsection \<open>One publication and the loop\<close>

definition publish_once :: "'e host \<Rightarrow> daemonConfig \<Rightarrow> ((string \<times> routeRecord) list \<Rightarrow> (string \<times> routeRecord) list) \<Rightarrow> string
    \<Rightarrow> ('e, unit) publishing" where
  "publish_once h config order router =
     act_then (ask (host_guard h) (\<lambda>s. [Stat s])) (\<lambda>st.
     act_then (lift_result (guard (\<not> guarded st) ''publication disabled by external restore guard'')) (\<lambda>_.
     act_then (ask (\<lambda>e. case host_state h e of ((faults, db), e') \<Rightarrow> (daemon_snapshot faults db, e')) (\<lambda>s. [ReadState s])) (\<lambda>read.
     act_then (lift_result read) (\<lambda>snapshot.
     act_then (reconcileWorkloads h config (snap_owner snapshot) (order (snap_records snapshot))) (\<lambda>_.
     let url = trim_right router CHR ''/'' @ ''/snapshot''; token = cfg_token config; body = marshal_snapshot snapshot in
     act_then (ask (host_post h url token body) (\<lambda>a. [Post url token body a])) (\<lambda>a.
     lift_result (and_then a (\<lambda>status. guard (status = 200) (''routing publication HTTP '' @ itoa status)))))))))"

definition set_publication :: "string \<Rightarrow> publication \<Rightarrow> ('e, unit) publishing" where
  "set_publication router x = direct (\<lambda>p. ((), p\<lparr>pb_daemon := (pb_daemon p)\<lparr>dm_publications :=
     gm_put router x (dm_publications (pb_daemon p))\<rparr>\<rparr>))"

text \<open>The body of the loop over the routers: a failed publication is recorded and the loop goes on.\<close>

definition publish_router :: "'e host \<Rightarrow> daemonConfig \<Rightarrow> ((string \<times> routeRecord) list \<Rightarrow> (string \<times> routeRecord) list) \<Rightarrow> string
    \<Rightarrow> unit \<Rightarrow> ('e, unit) publishing" where
  "publish_router h config order router u =
     act_then (try_act (publish_once h config order router)) (\<lambda>res.
     case res of Inl e \<Rightarrow> set_publication router (Unpublished e)
     | Inr _ \<Rightarrow> act_then (clock h) (\<lambda>now. set_publication router (Published now)))"

text \<open>Rounds of the endless loop, as many as the process lives for, each with its own visiting order.\<close>

definition publish_round :: "'e host \<Rightarrow> daemonConfig \<Rightarrow> ((string \<times> routeRecord) list \<Rightarrow> (string \<times> routeRecord) list)
    \<Rightarrow> unit \<Rightarrow> ('e, unit) publishing" where
  "publish_round h config order u = fold_act (publish_router h config order) (cfg_routers config) ()"

definition publishLoop :: "'e host \<Rightarrow> daemonConfig \<Rightarrow> ((string \<times> routeRecord) list \<Rightarrow> (string \<times> routeRecord) list) list
    \<Rightarrow> ('e, unit) publishing" where
  "publishLoop h config orders = fold_act (publish_round h config) orders ()"

end
