(* ===== verification/Publisher_Props.thy ===== *)
theory Publisher_Props
  imports Publisher
begin

section \<open>What the publication loop does, and when\<close>

text \<open>
  Every control of a unit and every publication in the trace of the loop is justified by what the host
  answered before it in the same publication; and a successful reconciliation leaves exactly the
  observations it verified.
\<close>

subsection \<open>Justified calls\<close>

definition probed :: "string \<Rightarrow> string \<Rightarrow> routeRecord \<Rightarrow> workload \<Rightarrow> host_call list \<Rightarrow> bool" where
  "probed owner i r w calls \<longleftrightarrow>
     wl_kind w = ''objects'' \<and> (\<exists>a. Health (wl_endpoint w) (Inr a) \<in> set calls \<and> health_ready i a)
   \<or> wl_kind w = ''echo'' \<and> (\<exists>doc. Dial (wl_endpoint w) (Inr doc) \<in> set calls \<and> serving_ready owner i r w doc)"

definition supervised :: "routeRecord \<Rightarrow> workload \<Rightarrow> host_call list \<Rightarrow> bool" where
  "supervised r w calls \<longleftrightarrow>
     (if rec_deleted r then IsActive (wl_unit w) False \<in> set calls \<or> Control ''stop'' (wl_unit w) None \<in> set calls
      else IsActive (wl_unit w) True \<in> set calls \<or> Control ''start'' (wl_unit w) None \<in> set calls)"

definition record_settled :: "daemonConfig \<Rightarrow> string \<Rightarrow> host_call list \<Rightarrow> string \<times> routeRecord \<Rightarrow> bool" where
  "record_settled c owner calls entry = (case entry of (i, r) \<Rightarrow>
     \<exists>w. owned_workload c i r = Inr w \<and> supervised r w calls \<and> (rec_deleted r \<or> probed owner i r w calls))"

text \<open>The calls since the last look at the guard, which found it absent, and the snapshot read right after.\<close>

definition since_guard :: "host_call list \<Rightarrow> routeSnapshot \<Rightarrow> host_call list \<Rightarrow> bool" where
  "since_guard calls s recent \<longleftrightarrow> (\<exists>before. calls = before @ [Stat Absent, ReadState (Inr s)] @ recent)
     \<and> (\<forall>st. Stat st \<notin> set recent)"

definition justified_control :: "daemonConfig \<Rightarrow> host_call list \<Rightarrow> string \<Rightarrow> string \<Rightarrow> bool" where
  "justified_control c calls verb unit_name \<longleftrightarrow> (\<exists>s recent i r w. since_guard calls s recent \<and> (i, r) \<in> set (snap_records s)
     \<and> owned_workload c i r = Inr w \<and> unit_name = wl_unit w \<and> verb = (if rec_deleted r then ''stop'' else ''start''))"

definition justified_post :: "daemonConfig \<Rightarrow> host_call list \<Rightarrow> string \<Rightarrow> string \<Rightarrow> json \<Rightarrow> bool" where
  "justified_post c calls url token body \<longleftrightarrow> (\<exists>s recent. since_guard calls s recent \<and> body = marshal_snapshot s
     \<and> token = cfg_token c \<and> url \<in> (\<lambda>router. trim_right router CHR ''/'' @ ''/snapshot'') ` set (cfg_routers c)
     \<and> list_all (record_settled c (snap_owner s) recent) (snap_records s))"

definition justified :: "daemonConfig \<Rightarrow> host_call list \<Rightarrow> host_call \<Rightarrow> bool" where
  "justified c calls x = (case x of
     Control verb u e \<Rightarrow> justified_control c calls verb u
   | Post url token body e \<Rightarrow> justified_post c calls url token body
   | _ \<Rightarrow> True)"

definition trace_ok :: "daemonConfig \<Rightarrow> host_call list \<Rightarrow> bool" where
  "trace_ok c t \<longleftrightarrow> (\<forall>before x after. t = before @ x # after \<longrightarrow> justified c before x)"

lemma trace_ok_Nil [simp]: "trace_ok c []"
  by (simp add: trace_ok_def)

lemma trace_ok_snoc [simp]: "trace_ok c (t @ [x]) \<longleftrightarrow> trace_ok c t \<and> justified c t x"
proof
  assume all: "trace_ok c (t @ [x])"
  then have "justified c t x" unfolding trace_ok_def by blast
  moreover have "justified c before y" if "t = before @ y # after" for before y after
    using all that unfolding trace_ok_def by (metis append_Cons append_assoc)
  ultimately show "trace_ok c t \<and> justified c t x" unfolding trace_ok_def by blast
next
  assume both: "trace_ok c t \<and> justified c t x"
  show "trace_ok c (t @ [x])"
    unfolding trace_ok_def
  proof (intro allI impI)
    fix before y after
    assume "t @ [x] = before @ y # after"
    then show "justified c before y"
      using both unfolding trace_ok_def by (cases after rule: rev_cases) auto
  qed
qed

subsection \<open>Rules for the calls of one publication\<close>

lemma interrupted_ask:
  assumes "\<And>p x e. P p \<Longrightarrow> f (pb_host p) = (x, e) \<Longrightarrow> Q x (p\<lparr>pb_host := e, pb_calls := pb_calls p @ note_of x\<rparr>)"
  shows "interrupted P (ask f note_of) Q I"
  unfolding ask_def by (rule interrupted_direct) (auto intro: assms split: prod.splits)

text \<open>A state within a publication of \<open>s\<close>, of which \<open>\<phi>\<close> holds of the recent calls and the observations.\<close>

definition publishing :: "daemonConfig \<Rightarrow> routeSnapshot
    \<Rightarrow> (host_call list \<Rightarrow> (string, instanceObservation) go_map \<Rightarrow> bool) \<Rightarrow> 'e publisher \<Rightarrow> bool" where
  "publishing c s \<phi> p \<longleftrightarrow> trace_ok c (pb_calls p) \<and> gm_ok (dm_identities (pb_daemon p))
     \<and> (\<exists>recent. since_guard (pb_calls p) s recent \<and> \<phi> recent (dm_identities (pb_daemon p)))"

definition call_mono :: "(host_call list \<Rightarrow> 'a \<Rightarrow> bool) \<Rightarrow> bool" where
  "call_mono \<phi> \<longleftrightarrow> (\<forall>calls x ids. \<phi> calls ids \<longrightarrow> \<phi> (calls @ [x]) ids)"

lemma since_guard_snoc: "since_guard calls s recent \<Longrightarrow> (\<And>st. x \<noteq> Stat st) \<Longrightarrow> since_guard (calls @ [x]) s (recent @ [x])"
  by (auto simp: since_guard_def)

abbreviation calm :: "daemonConfig \<Rightarrow> 'e publisher \<Rightarrow> bool" where
  "calm c p \<equiv> trace_ok c (pb_calls p) \<and> gm_ok (dm_identities (pb_daemon p))"

lemma publishing_calm: "publishing c s \<phi> p \<Longrightarrow> calm c p"
  by (simp add: publishing_def)

lemma publishing_weaken: "publishing c s \<phi> p \<Longrightarrow> (\<And>calls ids. \<phi> calls ids \<Longrightarrow> \<psi> calls ids) \<Longrightarrow> publishing c s \<psi> p"
  by (auto simp: publishing_def)

lemma ask_publishing:
  fixes f :: "'e \<Rightarrow> 'a \<times> 'e"
  assumes mono: "call_mono \<phi>" and guard: "\<And>x st. note_of x \<noteq> Stat st"
    and just: "\<And>(p :: 'e publisher) x recent. publishing c s \<phi> p \<Longrightarrow> since_guard (pb_calls p) s recent \<Longrightarrow> justified c (pb_calls p) (note_of x)"
  shows "interrupted (publishing c s \<phi>) (ask f (\<lambda>x. [note_of x])) (\<lambda>x. publishing c s (\<lambda>calls ids. \<phi> calls ids \<and> note_of x \<in> set calls)) I"
proof (rule interrupted_ask)
  fix p :: "'e publisher" and x e
  assume p: "publishing c s \<phi> p"
  then obtain recent where recent: "since_guard (pb_calls p) s recent" "\<phi> recent (dm_identities (pb_daemon p))"
    by (auto simp: publishing_def)
  have "trace_ok c (pb_calls p @ [note_of x])"
    using publishing_calm [OF p] just [OF p recent(1)] by simp
  moreover have "gm_ok (dm_identities (pb_daemon p))" using publishing_calm [OF p] by simp
  moreover have "\<phi> (recent @ [note_of x]) (dm_identities (pb_daemon p))"
    using mono recent(2) by (simp add: call_mono_def)
  ultimately show "publishing c s (\<lambda>calls ids. \<phi> calls ids \<and> note_of x \<in> set calls)
      (p\<lparr>pb_host := e, pb_calls := pb_calls p @ [note_of x]\<rparr>)"
    using since_guard_snoc [OF recent(1), of "note_of x"] guard by (auto simp: publishing_def)
qed

lemma clock_publishing: "interrupted (publishing c s \<phi>) (clock h) (\<lambda>_. publishing c s \<phi>) I"
  unfolding clock_def by (rule interrupted_ask) (simp add: publishing_def)

lemma change_publishing:
  assumes "\<And>calls ids. \<phi> calls ids \<Longrightarrow> gm_ok ids \<Longrightarrow> \<psi> calls (f ids)" "\<And>ids. gm_ok ids \<Longrightarrow> gm_ok (f ids)"
  shows "interrupted (publishing c s \<phi>) (change_identities f) (\<lambda>_. publishing c s \<psi>) I"
  unfolding change_identities_def by (rule interrupted_direct) (auto simp: publishing_def intro: assms)

subsection \<open>One record\<close>

definition entry_current :: "daemonConfig \<Rightarrow> (string, instanceObservation) go_map \<Rightarrow> string \<times> routeRecord \<Rightarrow> bool" where
  "entry_current c ids entry = (case entry of (i, r) \<Rightarrow>
     if rec_deleted r then gm_get ids i = None
     else \<exists>w now. owned_workload c i r = Inr w \<and> gm_get ids i = Some (verified_at i r w now))"

definition visited_ok :: "daemonConfig \<Rightarrow> string \<Rightarrow> (string \<times> routeRecord) list \<Rightarrow> host_call list
    \<Rightarrow> (string, instanceObservation) go_map \<Rightarrow> bool" where
  "visited_ok c owner done_entries calls ids \<longleftrightarrow> list_all (record_settled c owner calls) done_entries \<and> list_all (entry_current c ids) done_entries"

lemma supervised_mono: "supervised r w calls \<Longrightarrow> supervised r w (calls @ [x])"
  by (auto simp: supervised_def)

lemma probed_mono: "probed owner i r w calls \<Longrightarrow> probed owner i r w (calls @ [x])"
  by (auto simp: probed_def)

lemma settled_mono: "record_settled c owner calls e \<Longrightarrow> record_settled c owner (calls @ [x]) e"
  by (cases e) (auto simp: record_settled_def intro: supervised_mono probed_mono)

lemma visited_mono: "call_mono (visited_ok c owner es)"
  unfolding call_mono_def visited_ok_def
  by (intro allI impI conjI; elim conjE) (erule list.pred_mono_strong, erule settled_mono)

lemma visited_other:
  assumes "i \<notin> fst ` set es" "visited_ok c owner es calls ids"
    and "\<And>k. k \<noteq> i \<Longrightarrow> gm_get ids' k = gm_get ids k"
  shows "visited_ok c owner es calls ids'"
proof -
  have "entry_current c ids' e = entry_current c ids e" if "e \<in> set es" for e
  proof -
    have "fst e \<noteq> i" using assms(1) that by auto
    with assms(3) show ?thesis by (cases e) (simp add: entry_current_def)
  qed
  with assms(2) show ?thesis by (simp add: visited_ok_def list_all_iff)
qed

lemma supervise_publishing:
  assumes mem: "(i, r) \<in> set (snap_records s)" and own: "owned_workload c i r = Inr w" and mono: "call_mono \<phi>"
  shows "interrupted (publishing c s \<phi>) (supervise h r w)
    (\<lambda>_. publishing c s (\<lambda>calls ids. \<phi> calls ids \<and> supervised r w calls)) (calm c)"
proof -
  let ?verb = "if rec_deleted r then ''stop'' else ''start''"
  have active: "interrupted (publishing c s \<phi>) (ask (host_active h (wl_unit w)) (\<lambda>b. [IsActive (wl_unit w) b]))
      (\<lambda>b. publishing c s (\<lambda>calls ids. \<phi> calls ids \<and> IsActive (wl_unit w) b \<in> set calls)) (calm c)"
    by (rule ask_publishing [OF mono]) (auto simp: justified_def)
  have just: "justified c (pb_calls p) (Control ?verb (wl_unit w) e)" if "since_guard (pb_calls p) s recent" for p :: "'a publisher" and recent e
    using that mem own by (fastforce simp: justified_def justified_control_def)
  have control: "interrupted (publishing c s \<psi>) (ask (host_control h ?verb (wl_unit w)) (\<lambda>e. [Control ?verb (wl_unit w) e]))
      (\<lambda>e. publishing c s (\<lambda>calls ids. \<psi> calls ids \<and> Control ?verb (wl_unit w) e \<in> set calls)) (calm c)" if "call_mono \<psi>" for \<psi>
    by (rule ask_publishing [OF that]) (use just in auto)
  have told: "interrupted (publishing c s \<psi>) (act_then (ask (host_control h ?verb (wl_unit w)) (\<lambda>e. [Control ?verb (wl_unit w) e])) (\<lambda>e.
        lift_result (case e of None \<Rightarrow> Inr () | Some m \<Rightarrow> Inl (''supervisor '' @ ?verb @ '': '' @ m))))
      (\<lambda>_. publishing c s (\<lambda>calls ids. \<psi> calls ids \<and> Control ?verb (wl_unit w) None \<in> set calls)) (calm c)" if "call_mono \<psi>" for \<psi>
    by (rule interrupted_then [OF control [OF that]], rule interrupted_lift)
      (auto dest: publishing_calm split: option.splits)
  show ?thesis
    unfolding supervise_def Let_def
  proof (rule interrupted_then [OF active])
    fix b
    have mono_b: "call_mono (\<lambda>calls ids. \<phi> calls ids \<and> IsActive (wl_unit w) b \<in> set calls)"
      using mono by (auto simp: call_mono_def)
    show "interrupted (publishing c s (\<lambda>calls ids. \<phi> calls ids \<and> IsActive (wl_unit w) b \<in> set calls))
      (if rec_deleted r \<and> b \<or> \<not> rec_deleted r \<and> \<not> b then
         act_then (ask (host_control h ?verb (wl_unit w)) (\<lambda>e. [Control ?verb (wl_unit w) e])) (\<lambda>e.
           lift_result (case e of None \<Rightarrow> Inr () | Some m \<Rightarrow> Inl (''supervisor '' @ ?verb @ '': '' @ m)))
       else ret ()) (\<lambda>_. publishing c s (\<lambda>calls ids. \<phi> calls ids \<and> supervised r w calls)) (calm c)"
    proof (rule interrupted_if)
      show "interrupted (publishing c s (\<lambda>calls ids. \<phi> calls ids \<and> IsActive (wl_unit w) b \<in> set calls))
        (act_then (ask (host_control h ?verb (wl_unit w)) (\<lambda>e. [Control ?verb (wl_unit w) e])) (\<lambda>e.
           lift_result (case e of None \<Rightarrow> Inr () | Some m \<Rightarrow> Inl (''supervisor '' @ ?verb @ '': '' @ m))))
        (\<lambda>_. publishing c s (\<lambda>calls ids. \<phi> calls ids \<and> supervised r w calls)) (calm c)"
        by (rule interrupted_weaken [OF told [OF mono_b]]) (auto elim!: publishing_weaken simp: supervised_def split: if_splits)
      assume "\<not> (rec_deleted r \<and> b \<or> \<not> rec_deleted r \<and> \<not> b)"
      then show "interrupted (publishing c s (\<lambda>calls ids. \<phi> calls ids \<and> IsActive (wl_unit w) b \<in> set calls))
        (ret ()) (\<lambda>_. publishing c s (\<lambda>calls ids. \<phi> calls ids \<and> supervised r w calls)) (calm c)"
        by (intro interrupted_ret) (auto elim!: publishing_weaken simp: supervised_def)
    qed
  qed
qed

lemma probe_publishing:
  assumes mono: "call_mono \<phi>"
  shows "interrupted (publishing c s \<phi>) (probe h owner i r w)
    (\<lambda>_. publishing c s (\<lambda>calls ids. \<phi> calls ids \<and> probed owner i r w calls)) (calm c)"
  unfolding probe_def
proof (intro interrupted_if)
  have health: "interrupted (publishing c s \<phi>) (ask (host_health h (wl_endpoint w)) (\<lambda>a. [Health (wl_endpoint w) a]))
      (\<lambda>a. publishing c s (\<lambda>calls ids. \<phi> calls ids \<and> Health (wl_endpoint w) a \<in> set calls)) (calm c)"
    by (rule ask_publishing [OF mono]) (auto simp: justified_def)
  assume "wl_kind w = ''objects''"
  then show "interrupted (publishing c s \<phi>) (act_then (ask (host_health h (wl_endpoint w)) (\<lambda>a. [Health (wl_endpoint w) a])) (\<lambda>a.
        lift_result (and_then a (\<lambda>answer. guard (health_ready i answer) ''object ownership not ready''))))
      (\<lambda>_. publishing c s (\<lambda>calls ids. \<phi> calls ids \<and> probed owner i r w calls)) (calm c)"
    by (intro interrupted_then [OF health] interrupted_lift)
      (auto dest: publishing_calm elim!: publishing_weaken simp: and_then_eq_Inr probed_def split: sum.splits)
next
  have dial: "interrupted (publishing c s \<phi>) (ask (host_dial h (wl_endpoint w)) (\<lambda>a. [Dial (wl_endpoint w) a]))
      (\<lambda>a. publishing c s (\<lambda>calls ids. \<phi> calls ids \<and> Dial (wl_endpoint w) a \<in> set calls)) (calm c)"
    by (rule ask_publishing [OF mono]) (auto simp: justified_def)
  assume "wl_kind w = ''echo''"
  then show "interrupted (publishing c s \<phi>) (act_then (ask (host_dial h (wl_endpoint w)) (\<lambda>a. [Dial (wl_endpoint w) a])) (\<lambda>a.
        lift_result (and_then a (\<lambda>doc. guard (serving_ready owner i r w doc) ''workload serving identity not ready''))))
      (\<lambda>_. publishing c s (\<lambda>calls ids. \<phi> calls ids \<and> probed owner i r w calls)) (calm c)"
    by (intro interrupted_then [OF dial] interrupted_lift)
      (auto dest: publishing_calm elim!: publishing_weaken simp: and_then_eq_Inr probed_def split: sum.splits)
qed (auto intro!: interrupted_lift dest: publishing_calm)

lemma reconcile_record_publishing:
  assumes mem: "(i, r) \<in> set (snap_records s)" and new: "i \<notin> fst ` set es"
  shows "interrupted (publishing c s (visited_ok c (snap_owner s) es)) (reconcile_record h c (snap_owner s) (i, r) u)
    (\<lambda>_. publishing c s (visited_ok c (snap_owner s) (es @ [(i, r)]))) (calm c)"
proof -
  let ?V = "visited_ok c (snap_owner s) es" and ?V' = "visited_ok c (snap_owner s) (es @ [(i, r)])"
  let ?owner = "snap_owner s"
  have mark: "interrupted (publishing c s ?V) (if rec_deleted r then ret ()
       else act_then (clock h) (\<lambda>now. change_identities (gm_put i (unknown_at now)))) (\<lambda>_. publishing c s ?V) (calm c)"
  proof (rule interrupted_if)
    show "interrupted (publishing c s ?V) (act_then (clock h) (\<lambda>now. change_identities (gm_put i (unknown_at now))))
        (\<lambda>_. publishing c s ?V) (calm c)"
      by (rule interrupted_then [OF clock_publishing], rule change_publishing, rule visited_other [OF new]) (auto simp: gm.get_put gm.ok_put)
  qed (rule interrupted_ret)
  have rest: "interrupted (publishing c s ?V) (act_then (supervise h r w) (\<lambda>_.
      if rec_deleted r then change_identities (gm_del i)
      else act_then (probe h ?owner i r w) (\<lambda>_.
        act_then (clock h) (\<lambda>now. change_identities (gm_put i (verified_at i r w now)))))) (\<lambda>_. publishing c s ?V') (calm c)"
    if own: "owned_workload c i r = Inr w" for w
  proof (rule interrupted_then [OF supervise_publishing [OF mem own visited_mono]], rule interrupted_if)
    let ?S = "\<lambda>calls ids. ?V calls ids \<and> supervised r w calls"
    assume d: "rec_deleted r"
    show "interrupted (publishing c s ?S) (change_identities (gm_del i)) (\<lambda>_. publishing c s ?V') (calm c)"
    proof (rule change_publishing)
      fix calls ids
      assume "?S calls ids" and ok: "gm_ok ids"
      then have "visited_ok c ?owner es calls (gm_del i ids)" "supervised r w calls"
        using visited_other [OF new, of c ?owner calls ids "gm_del i ids"] by (auto simp: gm.get_del ok)
      then show "?V' calls (gm_del i ids)"
        using own d by (auto simp: visited_ok_def record_settled_def entry_current_def gm.get_del ok)
    qed (rule gm.ok_del)
  next
    let ?S = "\<lambda>calls ids. ?V calls ids \<and> supervised r w calls"
    assume d: "\<not> rec_deleted r"
    have "call_mono ?S" using visited_mono [of c ?owner es] supervised_mono unfolding call_mono_def by blast
    note probe_publishing [OF this]
    then show "interrupted (publishing c s ?S) (act_then (probe h ?owner i r w) (\<lambda>_.
        act_then (clock h) (\<lambda>now. change_identities (gm_put i (verified_at i r w now))))) (\<lambda>_. publishing c s ?V') (calm c)"
    proof (rule interrupted_then, intro interrupted_then [OF clock_publishing] change_publishing)
      fix x now calls ids
      assume a: "(?V calls ids \<and> supervised r w calls) \<and> probed ?owner i r w calls"
      then have "visited_ok c ?owner es calls (gm_put i (verified_at i r w now) ids)"
        using visited_other [OF new, of c ?owner calls ids "gm_put i (verified_at i r w now) ids"] by (auto simp: gm.get_put)
      with a own d show "?V' calls (gm_put i (verified_at i r w now) ids)"
        by (auto simp: visited_ok_def record_settled_def entry_current_def gm.get_put)
    qed (rule gm.ok_put)
  qed
  show ?thesis
    unfolding reconcile_record_def prod.case
    by (rule interrupted_then [OF mark], rule interrupted_then_lift [OF publishing_calm], assumption, erule rest)
qed

lemma reconcile_publishing:
  assumes sub: "set visited \<subseteq> set (snap_records s)" and dist: "distinct (map fst visited)"
  shows "interrupted (publishing c s (\<lambda>_ _. True)) (reconcileWorkloads h c (snap_owner s) visited)
    (\<lambda>_. publishing c s (visited_ok c (snap_owner s) visited)) (calm c)"
proof -
  have "interrupted (publishing c s (visited_ok c (snap_owner s) [])) (reconcileWorkloads h c (snap_owner s) visited)
      (\<lambda>_. publishing c s (visited_ok c (snap_owner s) visited)) (calm c)"
    unfolding reconcileWorkloads_def
  proof (rule interrupted_fold_visited [where R = "\<lambda>es _. publishing c s (visited_ok c (snap_owner s) es)"])
    fix before x after u
    assume v: "visited = before @ x # after"
    obtain i r where x: "x = (i, r)" by (cases x)
    show "interrupted (publishing c s (visited_ok c (snap_owner s) before)) (reconcile_record h c (snap_owner s) x u)
        (\<lambda>_. publishing c s (visited_ok c (snap_owner s) (before @ [x]))) (calm c)"
      unfolding x by (rule reconcile_record_publishing) (use sub dist v x in auto)
  qed
  then show ?thesis by (rule interrupted_pre) (auto elim!: publishing_weaken simp: visited_ok_def)
qed

subsection \<open>One publication, and the loop\<close>

definition reorders :: "((string \<times> routeRecord) list \<Rightarrow> (string \<times> routeRecord) list) \<Rightarrow> bool" where
  "reorders order \<longleftrightarrow> (\<forall>xs. mset (order xs) = mset xs)"

definition current_for :: "daemonConfig \<Rightarrow> routeSnapshot \<Rightarrow> 'e publisher \<Rightarrow> bool" where
  "current_for c s p \<longleftrightarrow> list_all (entry_current c (dm_identities (pb_daemon p))) (snap_records s)"

lemma daemon_snapshot_gm_ok: "daemon_snapshot faults db = Inr s \<Longrightarrow> gm_ok (snap_records s)"
  by (auto simp: daemon_snapshot_def and_then_eq_Inr intro: read_snapshot_gm_ok)

lemma interrupted_read_state:
  "interrupted (\<lambda>p. calm c p \<and> (\<exists>before. pb_calls p = before @ [Stat Absent]))
     (ask (\<lambda>e. case host_state h e of ((faults, db), e') \<Rightarrow> (daemon_snapshot faults db, e')) (\<lambda>s. [ReadState s]))
     (\<lambda>read p. case read of Inl _ \<Rightarrow> calm c p | Inr s \<Rightarrow> gm_ok (snap_records s) \<and> publishing c s (\<lambda>_ _. True) p) I"
proof (rule interrupted_ask)
  fix p :: "'a publisher" and x e
  assume p: "calm c p \<and> (\<exists>before. pb_calls p = before @ [Stat Absent])"
    and got: "(case host_state h (pb_host p) of ((faults, db), e') \<Rightarrow> (daemon_snapshot faults db, e')) = (x, e)"
  from got have ok: "gm_ok (snap_records s)" if "x = Inr s" for s
    using that daemon_snapshot_gm_ok by (auto split: prod.splits)
  have "since_guard (pb_calls p @ [ReadState (Inr s)]) s []" for s using p by (auto simp: since_guard_def)
  with p ok show "case x of Inl _ \<Rightarrow> calm c (p\<lparr>pb_host := e, pb_calls := pb_calls p @ [ReadState x]\<rparr>)
      | Inr s \<Rightarrow> gm_ok (snap_records s) \<and> publishing c s (\<lambda>_ _. True) (p\<lparr>pb_host := e, pb_calls := pb_calls p @ [ReadState x]\<rparr>)"
    by (auto simp: publishing_def justified_def split: sum.splits)
qed

lemma publish_once_calm:
  assumes order: "reorders order" and router: "router \<in> set (cfg_routers c)"
  shows "interrupted (calm c) (publish_once h c order router)
    (\<lambda>_ p. calm c p \<and> (\<exists>s url token. last (pb_calls p) = Post url token (marshal_snapshot s) (Inr 200) \<and> current_for c s p)) (calm c)"
    (is "interrupted _ _ ?Q _")
proof -
  have stat: "interrupted (calm c) (ask (host_guard h) (\<lambda>s. [Stat s])) (\<lambda>st p. calm c p \<and> (\<exists>before. pb_calls p = before @ [Stat st])) (calm c)"
    by (rule interrupted_ask) (auto simp: justified_def)
  have send: "interrupted (publishing c s (visited_ok c (snap_owner s) (order (snap_records s))))
      (act_then (ask (host_post h url token body) (\<lambda>a. [Post url token body a])) (\<lambda>a.
        lift_result (and_then a (\<lambda>status. guard (status = 200) (''routing publication HTTP '' @ itoa status))))) ?Q (calm c)"
    if "url = trim_right router CHR ''/'' @ ''/snapshot''" "token = cfg_token c" "body = marshal_snapshot s" for s url token body
  proof -
    have all: "set (order (snap_records s)) = set (snap_records s)"
      using order unfolding reorders_def by (metis set_mset_mset)
    let ?Done = "publishing c s (visited_ok c (snap_owner s) (order (snap_records s)))"
    have "justified c (pb_calls p) (Post url token body a)" if p: "?Done p" for p :: "'a publisher" and a
    proof -
      from p obtain recent where "since_guard (pb_calls p) s recent"
        "list_all (record_settled c (snap_owner s) recent) (order (snap_records s))"
        by (auto simp: publishing_def visited_ok_def)
      with that(1) show ?thesis
        using router all \<open>url = _\<close> \<open>token = _\<close> \<open>body = _\<close> unfolding justified_def justified_post_def
        by (auto simp: list_all_iff)
    qed
    moreover have "current_for c s p" if "?Done p" for p :: "'a publisher"
      using that all by (auto simp: publishing_def visited_ok_def current_for_def list_all_iff)
    ultimately have "interrupted ?Done (ask (host_post h url token body) (\<lambda>a. [Post url token body a]))
        (\<lambda>a p. calm c p \<and> last (pb_calls p) = Post url token body a \<and> current_for c s p) (calm c)"
      by (intro interrupted_ask) (auto simp: publishing_def current_for_def)
    then show ?thesis
      by (rule interrupted_then, intro interrupted_lift) (auto simp: and_then_eq_Inr that(3) split: sum.splits)
  qed
  have go: "interrupted (\<lambda>p. gm_ok (snap_records s) \<and> publishing c s (\<lambda>_ _. True) p)
      (act_then (reconcileWorkloads h c (snap_owner s) (order (snap_records s))) (\<lambda>_.
        let url = trim_right router CHR ''/'' @ ''/snapshot''; token = cfg_token c; body = marshal_snapshot s in
        act_then (ask (host_post h url token body) (\<lambda>a. [Post url token body a])) (\<lambda>a.
        lift_result (and_then a (\<lambda>status. guard (status = 200) (''routing publication HTTP '' @ itoa status)))))) ?Q (calm c)" for s
  proof (rule interrupted_assume)
    fix p :: "'a publisher"
    assume p: "gm_ok (snap_records s) \<and> publishing c s (\<lambda>_ _. True) p"
    have mset: "mset (order (snap_records s)) = mset (snap_records s)" using order by (simp add: reorders_def)
    then have sub: "set (order (snap_records s)) \<subseteq> set (snap_records s)" by (metis set_mset_mset order_refl)
    have dist: "distinct (map fst (order (snap_records s)))"
      using mset gm_ok_distinct [of "snap_records s"] p by (metis mset_eq_imp_distinct_iff mset_map)
    show "interrupted ((=) p) (act_then (reconcileWorkloads h c (snap_owner s) (order (snap_records s))) (\<lambda>_.
        let url = trim_right router CHR ''/'' @ ''/snapshot''; token = cfg_token c; body = marshal_snapshot s in
        act_then (ask (host_post h url token body) (\<lambda>a. [Post url token body a])) (\<lambda>a.
        lift_result (and_then a (\<lambda>status. guard (status = 200) (''routing publication HTTP '' @ itoa status)))))) ?Q (calm c)"
      unfolding Let_def
      by (rule interrupted_then [OF interrupted_pre [OF reconcile_publishing [OF sub dist]]])
        (use p send [OF refl refl refl] in auto)
  qed
  show ?thesis
    unfolding publish_once_def
  proof (rule interrupted_then [OF stat], rule interrupted_then_lift, simp, rule interrupted_then [OF interrupted_pre [OF interrupted_read_state]])
    fix x u :: unit and read :: "routeSnapshot result"
    show "interrupted (\<lambda>p. case read of Inl _ \<Rightarrow> calm c p | Inr s \<Rightarrow> gm_ok (snap_records s) \<and> publishing c s (\<lambda>_ _. True) p)
      (act_then (lift_result read) (\<lambda>snapshot.
        act_then (reconcileWorkloads h c (snap_owner snapshot) (order (snap_records snapshot))) (\<lambda>_.
        let url = trim_right router CHR ''/'' @ ''/snapshot''; token = cfg_token c; body = marshal_snapshot snapshot in
        act_then (ask (host_post h url token body) (\<lambda>a. [Post url token body a])) (\<lambda>a.
        lift_result (and_then a (\<lambda>status. guard (status = 200) (''routing publication HTTP '' @ itoa status))))))) ?Q (calm c)"
    proof (cases read)
      case (Inl e)
      then show ?thesis by (intro interrupted_then_lift) auto
    next
      case (Inr s)
      show ?thesis
        unfolding Inr sum.case
        by (rule interrupted_then_lift) (use go in \<open>auto dest: publishing_calm\<close>)
    qed
  qed (auto simp: guarded_def)
qed

lemma publish_router_calm:
  assumes "reorders order" "router \<in> set (cfg_routers c)"
  shows "interrupted (calm c) (publish_router h c order router u) (\<lambda>_. calm c) (calm c)"
proof -
  have put: "interrupted (calm c) (set_publication router x) (\<lambda>_. calm c) (calm c)" for x
    unfolding set_publication_def by (rule interrupted_direct) simp
  have clk: "interrupted (calm c) (clock h) (\<lambda>_. calm c) (calm c)"
    unfolding clock_def by (rule interrupted_ask) simp
  have caught: "interrupted (calm c) (try_act (publish_once h c order router)) (\<lambda>_. calm c) (calm c)"
    by (rule interrupted_weaken [OF interrupted_try [OF publish_once_calm [OF assms]]]) (auto split: sum.splits)
  show ?thesis
    unfolding publish_router_def
  proof (rule interrupted_then [OF caught])
    fix res :: "unit result"
    show "interrupted (calm c) (case res of Inl e \<Rightarrow> set_publication router (Unpublished e)
       | Inr _ \<Rightarrow> act_then (clock h) (\<lambda>now. set_publication router (Published now))) (\<lambda>_. calm c) (calm c)"
      by (cases res) (simp_all add: put interrupted_then [OF clk put])
  qed
qed

lemma publishLoop_calm:
  assumes "list_all reorders orders"
  shows "interrupted (calm c) (publishLoop h c orders) (\<lambda>_. calm c) (calm c)"
proof -
  have "interrupted (calm c) (publish_round h c order u) (\<lambda>_. calm c) (calm c)" if "order \<in> set orders" for order u
    unfolding publish_round_def
    by (rule interrupted_fold [where R = "\<lambda>_. calm c"], rule publish_router_calm)
      (use assms that in \<open>auto simp: list_all_iff\<close>)
  then show ?thesis
    unfolding publishLoop_def by (rule interrupted_fold [where R = "\<lambda>_. calm c"])
qed

lemma loop_trace_ok:
  assumes "list_all reorders orders" "pb_calls p = []" "dm_identities (pb_daemon p) = []"
    and "publishLoop h c orders (p, os) = (r, (p', os'))"
  shows "calm c p'"
proof -
  have "calm c p" using assms(2,3) by simp
  from interruptedD [OF publishLoop_calm [OF assms(1)] this assms(4)] show ?thesis by (cases r) auto
qed

subsection \<open>A host for the witnesses\<close>

definition sample_workload :: workload where
  "sample_workload = \<lparr>wl_unit = ''edgelab-echo-a.service'', wl_app = ''echo'', wl_endpoint = ''127.0.0.1:9101'', wl_version = ''v1'', wl_kind = ''echo''\<rparr>"

definition sample_publisher_config :: daemonConfig where
  "sample_publisher_config = \<lparr>cfg_router_admin_token = [], cfg_workloads = [(''echo-a'', sample_workload)], cfg_owner = ''w-1'',
     cfg_applications = [''echo''], cfg_token = ''t'', cfg_admin_token = ''a'', cfg_routers = [''http://r1/''], cfg_restore_guard = ''/g''\<rparr>"

definition sample_published :: routeSnapshot where
  "sample_published = \<lparr>snap_schema = 1, snap_owner = ''w-1'', snap_incarnation = 1, snap_revision = 2, snap_records =
     [(''echo-a'', \<lparr>rec_id = ''echo-a'', rec_app = ''echo'', rec_endpoint = ''127.0.0.1:9101'', rec_revision = 2, rec_deleted = False\<rparr>)]\<rparr>"

definition sample_host :: "unit host" where
  "sample_host = \<lparr>host_guard = (\<lambda>e. (Absent, e)),
     host_state = (\<lambda>e. ((no_faults, \<lparr>routing_state = Some (marshal_snapshot sample_published), routing_operations = []\<rparr>), e)),
     host_clock = (\<lambda>e. (7, e)), host_active = (\<lambda>u e. (False, e)), host_control = (\<lambda>v u e. (None, e)),
     host_health = (\<lambda>a e. (Inl ''refused'', e)),
     host_dial = (\<lambda>a e. (Inr (Inr (JObj [(''app'', JStr ''echo''), (''instance'', JStr ''echo-a''), (''worker'', JStr ''w-1''),
       (''version'', JStr ''v1'')])), e)),
     host_post = (\<lambda>u t b e. (Inr 200, e))\<rparr>"

definition sample_publisher :: "unit publisher" where
  "sample_publisher = \<lparr>pb_daemon = \<lparr>dm_config = sample_publisher_config, dm_allowed = [''echo''], dm_publications = [], dm_identities = [],
     dm_status_version = 1, dm_epoch = None\<rparr>, pb_host = (), pb_calls = []\<rparr>"

definition sample_trace :: "host_call list" where
  "sample_trace = [Stat Absent, ReadState (Inr sample_published), IsActive ''edgelab-echo-a.service'' False,
     Control ''start'' ''edgelab-echo-a.service'' None,
     Dial ''127.0.0.1:9101'' (Inr (Inr (JObj [(''app'', JStr ''echo''), (''instance'', JStr ''echo-a''), (''worker'', JStr ''w-1''),
       (''version'', JStr ''v1'')]))),
     Post ''http://r1/snapshot'' ''t'' (marshal_snapshot sample_published) (Inr 200)]"

lemma sample_round:
  "publishLoop sample_host sample_publisher_config [\<lambda>x. x] (sample_publisher, []) =
     (Inr (), (sample_publisher\<lparr>pb_daemon := (pb_daemon sample_publisher)\<lparr>
        dm_identities := [(''echo-a'', verified_at ''echo-a'' (snd (hd (snap_records sample_published))) sample_workload 7)],
        dm_publications := [(''http://r1/'', Published 7)]\<rparr>, pb_calls := sample_trace\<rparr>, []))"
  by code_simp

lemma sample_orders: "list_all reorders [\<lambda>x. x]"
  by (simp add: reorders_def)

subsection \<open>Properties\<close>

text \<open>C25. Publication follows verification. At every point of the loop, whatever the host answers and in whatever order
records are visited, a snapshot is sent to a router only if, since the guard was last found absent, exactly
that snapshot was read from the database and every record of it was settled: a live instance's configured
unit was found active or started and its own identity was served; a deleted one's was found inactive or
stopped. The snapshot goes to a configured router with the owner's token.\<close>

theorem publication_follows_verification:
  assumes orders: "list_all reorders orders" and start: "pb_calls p = []" "dm_identities (pb_daemon p) = []"
    and run: "publishLoop h c orders (p, os) = (r, (p', os'))" and sent: "pb_calls p' = before @ Post url token body answer # after"
  shows "justified_post c before url token body"
  using loop_trace_ok [OF orders start run] sent unfolding trace_ok_def justified_def by fastforce

theorem publication_follows_verification_witness:
  "justified_post sample_publisher_config (take 5 sample_trace) ''http://r1/snapshot'' ''t'' (marshal_snapshot sample_published)"
  by (rule publication_follows_verification [OF sample_orders _ _ sample_round, where answer = "Inr 200" and after = "[]"])
    (simp_all add: sample_publisher_def sample_trace_def)

text \<open>C26. The loop touches only units it owns: at every point, a unit is started or stopped only since the guard was last
found absent, and only if it is the configured \<open>edgelab-*.service\<close> unit of a record of the snapshot read then,
with the record's application and endpoint; it is stopped only for a deleted record and started only for a
live one.\<close>

theorem only_owned_units_are_controlled:
  assumes orders: "list_all reorders orders" and start: "pb_calls p = []" "dm_identities (pb_daemon p) = []"
    and run: "publishLoop h c orders (p, os) = (r, (p', os'))" and told: "pb_calls p' = before @ Control verb u answer # after"
  shows "justified_control c before verb u \<and> prefix ''edgelab-'' u \<and> suffix ''.service'' u"
proof -
  have just: "justified_control c before verb u"
    using loop_trace_ok [OF orders start run] told unfolding trace_ok_def justified_def by fastforce
  then show ?thesis by (auto simp: justified_control_def owned_workload_def split: option.splits if_splits)
qed

theorem only_owned_units_are_controlled_witness:
  "justified_control sample_publisher_config (take 3 sample_trace) ''start'' ''edgelab-echo-a.service''"
proof -
  have "justified_control sample_publisher_config (take 3 sample_trace) ''start'' ''edgelab-echo-a.service''
      \<and> prefix ''edgelab-'' ''edgelab-echo-a.service'' \<and> suffix ''.service'' ''edgelab-echo-a.service''"
    by (rule only_owned_units_are_controlled [OF sample_orders _ _ sample_round, where answer = None and after = "drop 4 sample_trace"])
      (simp_all add: sample_publisher_def sample_trace_def)
  then show ?thesis by simp
qed

text \<open>C27. After a successful publication at any point of the loop the observations are those of the published snapshot: each
live instance is verified with its configured application, endpoint and version, and no deleted instance has
an observation left.\<close>

theorem published_identities_are_current:
  assumes orders: "list_all reorders orders" and start: "pb_calls p = []" "dm_identities (pb_daemon p) = []"
    and run: "publishLoop h c orders (p, os) = (r, (p1, os1))"
    and one: "reorders order" "router \<in> set (cfg_routers c)" "publish_once h c order router (p1, os1) = (Inr u, (p2, os2))"
  shows "\<exists>s url token. last (pb_calls p2) = Post url token (marshal_snapshot s) (Inr 200) \<and> current_for c s p2"
  using interruptedD [OF publish_once_calm [OF one(1,2)] loop_trace_ok [OF orders start run] one(3)] by auto

lemma sample_once:
  "publish_once sample_host sample_publisher_config (\<lambda>x. x) ''http://r1/'' (sample_publisher, []) =
     (Inr (), (sample_publisher\<lparr>pb_daemon := (pb_daemon sample_publisher)\<lparr>
        dm_identities := [(''echo-a'', verified_at ''echo-a'' (snd (hd (snap_records sample_published))) sample_workload 7)]\<rparr>,
        pb_calls := sample_trace\<rparr>, []))"
  by code_simp

theorem published_identities_are_current_witness:
  "\<exists>s url token. last sample_trace = Post url token (marshal_snapshot s) (Inr 200)
     \<and> current_for sample_publisher_config s (sample_publisher\<lparr>pb_daemon := (pb_daemon sample_publisher)\<lparr>
        dm_identities := [(''echo-a'', verified_at ''echo-a'' (snd (hd (snap_records sample_published))) sample_workload 7)]\<rparr>,
        pb_calls := sample_trace\<rparr>)"
proof -
  have none: "publishLoop sample_host sample_publisher_config [] (sample_publisher, []) = (Inr (), (sample_publisher, []))"
    by (simp add: publishLoop_def)
  have "pb_calls sample_publisher = []" "dm_identities (pb_daemon sample_publisher) = []"
    "reorders (\<lambda>x. x)" "''http://r1/'' \<in> set (cfg_routers sample_publisher_config)"
    by (simp_all add: sample_publisher_def reorders_def sample_publisher_config_def)
  from published_identities_are_current [OF _ this(1,2) none this(3,4) sample_once] show ?thesis by simp
qed

end
