(* ===== verification/Files.thy ===== *)
theory Files
  imports Effects Go_Map
begin

section \<open>Files of one directory\<close>

text \<open>
  A directory as the finite map from the names of its files to their contents, the system calls on it, and
  \<^verbatim>\<open>durableFile\<close> of \<^verbatim>\<open>cmd/worker/image.go\<close>. A component that keeps a directory in its world says how to get at
  it. A write that breaks off leaves its temporary file, whose content no lemma speaks of.
\<close>

type_synonym dir = "(string, string) go_map"

definition is_pending :: "string \<Rightarrow> bool" where
  "is_pending k \<longleftrightarrow> prefix ''.pending-'' k"

text \<open>\<^verbatim>\<open>os.CreateTemp(dir, ".pending-")\<close>: the first of its random names that is free.\<close>

definition temp_in :: "string list \<Rightarrow> dir \<Rightarrow> string result \<times> dir" where
  "temp_in candidates d = (case find (\<lambda>x. gm_get d (''.pending-'' @ x) = None) candidates of
     None \<Rightarrow> (Inl ''file exists'', d)
   | Some x \<Rightarrow> (Inr (''.pending-'' @ x), gm_put (''.pending-'' @ x) [] d))"

definition remove_in :: "string \<Rightarrow> dir \<Rightarrow> unit result \<times> dir" where
  "remove_in name d = (if gm_get d name = None then (Inl ''no such file or directory'', d) else (Inr (), gm_del name d))"

definition rename_in :: "string \<Rightarrow> string \<Rightarrow> dir \<Rightarrow> unit result \<times> dir" where
  "rename_in old new d = (case gm_get d old of None \<Rightarrow> (Inl ''no such file or directory'', d)
   | Some b \<Rightarrow> (Inr (), gm_put new b (gm_del old d)))"

definition in_dir :: "('w \<Rightarrow> dir) \<Rightarrow> (dir \<Rightarrow> 'w \<Rightarrow> 'w) \<Rightarrow> (dir \<Rightarrow> 'a result \<times> dir) \<Rightarrow> ('w, 'a) action" where
  "in_dir get put f = perform (\<lambda>w. case f (get w) of (r, d) \<Rightarrow> (r, put d w))"

text \<open>Write, sync, close, rename, sync the directory; the temporary file is removed on every way out.\<close>

definition write_through :: "('w \<Rightarrow> dir) \<Rightarrow> (dir \<Rightarrow> 'w \<Rightarrow> 'w) \<Rightarrow> string \<Rightarrow> string \<Rightarrow> string \<Rightarrow> ('w, unit) action" where
  "write_through get put tmp name content =
     act_then (in_dir get put (\<lambda>d. (Inr (), gm_put tmp content d))) (\<lambda>_.
     act_then (read_world (\<lambda>_. Inr ())) (\<lambda>_.
     act_then (read_world (\<lambda>_. Inr ())) (\<lambda>_.
     act_then (in_dir get put (rename_in tmp name)) (\<lambda>_.
     read_world (\<lambda>_. Inr ())))))"

definition durableFile :: "('w \<Rightarrow> dir) \<Rightarrow> (dir \<Rightarrow> 'w \<Rightarrow> 'w) \<Rightarrow> string list \<Rightarrow> string \<Rightarrow> string \<Rightarrow> ('w, unit) action" where
  "durableFile get put candidates name content =
     act_then (in_dir get put (temp_in candidates)) (\<lambda>tmp.
     act_then (try_act (write_through get put tmp name content)) (\<lambda>res.
     act_then (try_act (in_dir get put (remove_in tmp))) (\<lambda>_.
     lift_result res)))"

subsection \<open>A durable file is replaced as a whole\<close>

text \<open>Apart from temporary files only \<open>name\<close> may have changed, and then its content is \<open>content\<close>.\<close>

definition replaces :: "string \<Rightarrow> string \<Rightarrow> dir \<Rightarrow> dir \<Rightarrow> bool" where
  "replaces name content d0 d \<longleftrightarrow> gm_ok d
     \<and> (\<forall>k. is_pending k \<or> gm_get d k = gm_get d0 k \<or> k = name \<and> gm_get d k = Some content)"

lemma replaces_refl: "gm_ok d \<Longrightarrow> replaces name content d d"
  by (simp add: replaces_def)

lemma replaces_pending:
  "replaces name content d0 d \<Longrightarrow> is_pending tmp \<Longrightarrow> replaces name content d0 (gm_put tmp b d)"
  "replaces name content d0 d \<Longrightarrow> is_pending tmp \<Longrightarrow> replaces name content d0 (gm_del tmp d)"
  by (auto simp: replaces_def gm.get_put gm.get_del gm.ok_put gm.ok_del)

lemma replaces_name: "replaces name content d0 d \<Longrightarrow> replaces name content d0 (gm_put name content d)"
  by (auto simp: replaces_def gm.get_put gm.ok_put)

lemma temp_in_ok:
  "temp_in xs d = (r, d') \<Longrightarrow> replaces name content d0 d \<Longrightarrow>
    replaces name content d0 d' \<and> (\<forall>tmp. r = Inr tmp \<longrightarrow> is_pending tmp)"
  by (auto simp: temp_in_def is_pending_def intro: replaces_pending split: option.splits)

text \<open>The interface of a component that keeps a directory: how it is read and replaced, and what of the world stays.\<close>

locale dir_in_world =
  fixes get :: "'w \<Rightarrow> dir" and put :: "dir \<Rightarrow> 'w \<Rightarrow> 'w" and J :: "'w \<Rightarrow> bool"
  assumes get_put: "get (put d w) = d" and J_put: "J (put d w) \<longleftrightarrow> J w"
begin

lemma in_dir_interrupted:
  assumes "\<And>d r d'. P d \<Longrightarrow> f d = (r, d') \<Longrightarrow> I d' \<and> (\<forall>x. r = Inr x \<longrightarrow> Q x d')" and "\<And>d. P d \<Longrightarrow> I d"
  shows "interrupted (\<lambda>w. J w \<and> P (get w)) (in_dir get put f) (\<lambda>x w. J w \<and> Q x (get w)) (\<lambda>w. J w \<and> I (get w))"
  unfolding in_dir_def
  by (rule interrupted_perform) (use assms get_put J_put in \<open>auto split: prod.splits\<close>)

lemma idle_interrupted:
  assumes "\<And>w. P w \<Longrightarrow> I w"
  shows "interrupted P (read_world (\<lambda>_. Inr ())) (\<lambda>_. P) I"
  by (rule interrupted_read) (use assms in auto)

lemma write_through_interrupted:
  assumes tmp: "is_pending tmp"
  shows "interrupted (\<lambda>w. J w \<and> replaces name content d0 (get w)) (write_through get put tmp name content)
    (\<lambda>_ w. J w \<and> replaces name content d0 (get w) \<and> (is_pending name \<or> gm_get (get w) name = Some content)) (\<lambda>w. J w \<and> replaces name content d0 (get w))"
    (is "interrupted ?P _ ?Q ?I")
proof -
  let ?W = "\<lambda>w. J w \<and> replaces name content d0 (get w) \<and> gm_get (get w) tmp = Some content"
  have w: "interrupted ?P (in_dir get put (\<lambda>d. (Inr (), gm_put tmp content d))) (\<lambda>_. ?W) ?I"
    by (rule in_dir_interrupted) (auto intro: replaces_pending tmp simp: gm.get_put)
  have ren: "interrupted ?W (in_dir get put (rename_in tmp name)) ?Q ?I"
    by (rule in_dir_interrupted)
      (auto simp: rename_in_def gm.get_put split: option.splits intro!: replaces_name replaces_pending tmp)
  have sync: "interrupted ?W (read_world (\<lambda>_. Inr ())) (\<lambda>_. ?W) ?I" by (rule idle_interrupted) auto
  have end_sync: "interrupted (?Q u) (read_world (\<lambda>_. Inr ())) ?Q ?I" for u by (rule interrupted_read) auto
  show ?thesis
    unfolding write_through_def
    by (rule interrupted_then [OF w], rule interrupted_then [OF sync], rule interrupted_then [OF sync],
        rule interrupted_then [OF ren], rule end_sync)
qed

lemma durableFile_interrupted:
  assumes name: "\<not> is_pending name"
  shows "interrupted (\<lambda>w. J w \<and> gm_ok (get w) \<and> get w = d0) (durableFile get put xs name content)
    (\<lambda>_ w. J w \<and> replaces name content d0 (get w) \<and> gm_get (get w) name = Some content) (\<lambda>w. J w \<and> replaces name content d0 (get w))"
    (is "interrupted _ _ ?Q ?I")
proof -
  have temp: "interrupted (\<lambda>w. J w \<and> gm_ok (get w) \<and> get w = d0) (in_dir get put (temp_in xs))
      (\<lambda>tmp w. J w \<and> replaces name content d0 (get w) \<and> is_pending tmp) ?I"
    by (rule in_dir_interrupted [where P = "\<lambda>d. gm_ok d \<and> d = d0" and Q = "\<lambda>tmp d. replaces name content d0 d \<and> is_pending tmp"])
      (auto dest: temp_in_ok [OF _ replaces_refl] intro: replaces_refl)
  have rest: "interrupted (\<lambda>w. J w \<and> replaces name content d0 (get w)) (act_then (try_act (write_through get put tmp name content)) (\<lambda>res.
     act_then (try_act (in_dir get put (remove_in tmp))) (\<lambda>_. lift_result res))) ?Q ?I" if tmp: "is_pending tmp" for tmp
  proof (rule interrupted_then [OF interrupted_try [OF write_through_interrupted [OF tmp]]])
    fix res :: "unit result"
    let ?R = "\<lambda>d. replaces name content d0 d \<and> (\<forall>u. res = Inr u \<longrightarrow> gm_get d name = Some content)"
    have "interrupted (\<lambda>w. J w \<and> ?R (get w)) (in_dir get put (remove_in tmp)) (\<lambda>_ w. J w \<and> ?R (get w)) (\<lambda>w. J w \<and> ?R (get w))"
      using name tmp
      by (intro in_dir_interrupted) (auto simp: remove_in_def replaces_def gm.get_del gm.ok_del split: if_splits)
    from interrupted_try [OF this, of ?I]
    have clean: "interrupted (\<lambda>w. J w \<and> ?R (get w)) (try_act (in_dir get put (remove_in tmp))) (\<lambda>_ w. J w \<and> ?R (get w)) ?I"
      by (rule interrupted_weaken) (auto split: sum.splits)
    show "interrupted (\<lambda>w. case res of Inl _ \<Rightarrow> J w \<and> replaces name content d0 (get w)
        | Inr u \<Rightarrow> J w \<and> replaces name content d0 (get w) \<and> (is_pending name \<or> gm_get (get w) name = Some content))
      (act_then (try_act (in_dir get put (remove_in tmp))) (\<lambda>_. lift_result res)) ?Q ?I"
      by (rule interrupted_then [OF interrupted_pre [OF clean]], use name in \<open>auto split: sum.splits\<close>, rule interrupted_lift)
        (auto split: sum.splits)
  qed
  show ?thesis
    unfolding durableFile_def
    by (rule interrupted_then [OF temp], rule interrupted_assume, rule interrupted_pre [OF rest]) auto
qed

end

end
