(* ===== verification/Objects.thy ===== *)
theory Objects
  imports Files Go_Json
begin

section \<open>The object store: cmd/objects\<close>

text \<open>
  \<^verbatim>\<open>cmd/objects/main.go\<close>: objects named by their SHA-256 in the root directory of a mounted volume. The world is
  that directory, the device numbers of it and of its parent, and the slots taken. Every system call can
  fail, or work and lose its answer; a process that dies is one whose remaining calls, the deferred ones
  included, all fail. SHA-256 is the parameter \<open>sha\<close>. Of an error reply only the status is kept.
\<close>

record object_store =
  st_root_dir :: "(string, string) go_map"
  st_device :: nat
  st_parent_device :: nat
  st_slots :: nat

record object_request =
  ob_method :: string
  ob_path :: string
  ob_body :: string
  ob_broken :: bool
  ob_suffixes :: "string list"

type_synonym 'a store_action = "(object_store, 'a) action"

type_synonym object_reply = "nat \<times> string"

text \<open>\<^verbatim>\<open>func (s *store) owned\<close>\<close>

definition read_file :: "string \<Rightarrow> string store_action" where
  "read_file name = read_world (\<lambda>w. case gm_get (st_root_dir w) name of None \<Rightarrow> Inl ''no such file or directory'' | Some b \<Rightarrow> Inr b)"

definition owned :: "string \<Rightarrow> unit store_action" where
  "owned owner =
     act_then (read_world (\<lambda>w. Inr (st_device w))) (\<lambda>here.
     act_then (read_world (\<lambda>w. Inr (st_parent_device w))) (\<lambda>parent.
     act_then (lift_result (guard (here \<noteq> parent) ''object volume is not mounted'')) (\<lambda>_.
     act_then (read_file ''.owner'') (\<lambda>b.
     lift_result (guard (trim_space b = owner) ''volume owner mismatch'')))))"

definition object_id :: "string \<Rightarrow> string option" where
  "object_id path = (let i = trim_prefix path ''/objects/'' in
     case hex_decode i of
       None \<Rightarrow> None
     | Some decoded \<Rightarrow> if \<not> prefix ''/objects/'' path \<or> length decoded \<noteq> 32 \<or> i \<noteq> to_lower i then None else Some i)"

subsection \<open>PUT\<close>

definition in_root :: "(dir \<Rightarrow> 'a result \<times> dir) \<Rightarrow> 'a store_action" where
  "in_root = in_dir st_root_dir (\<lambda>d w. w\<lparr>st_root_dir := d\<rparr>)"

definition create_temp :: "string list \<Rightarrow> string store_action" where
  "create_temp candidates = in_root (temp_in candidates)"

definition max_body :: nat where
  "max_body = 8 * 1024 * 1024"

text \<open>Lines 104 to 109: the body goes to the file and to the hash, up to the limit or until it breaks off.\<close>

definition copy_body :: "string \<Rightarrow> string \<Rightarrow> bool \<Rightarrow> string store_action" where
  "copy_body tmp body broken = perform (\<lambda>w. let written = take max_body body in
     (if max_body < length body \<or> broken then Inl ''request body'' else Inr written,
      w\<lparr>st_root_dir := gm_put tmp written (st_root_dir w)\<rparr>))"

definition sync_call :: "unit store_action" where
  "sync_call = read_world (\<lambda>_. Inr ())"

definition remove_file :: "string \<Rightarrow> unit store_action" where
  "remove_file name = in_root (remove_in name)"

text \<open>\<^verbatim>\<open>os.Link\<close>; the answer is whether the name was free.\<close>

definition link_file :: "string \<Rightarrow> string \<Rightarrow> bool store_action" where
  "link_file tmp i = perform (\<lambda>w. case gm_get (st_root_dir w) tmp of None \<Rightarrow> (Inl ''no such file or directory'', w)
     | Some b \<Rightarrow> if gm_get (st_root_dir w) i \<noteq> None then (Inr False, w)
         else (Inr True, w\<lparr>st_root_dir := gm_put i b (st_root_dir w)\<rparr>))"

definition verify_existing :: "(string \<Rightarrow> string) \<Rightarrow> string \<Rightarrow> unit store_action" where
  "verify_existing sha i = act_then (read_file i) (\<lambda>b.
     lift_result (guard (hex_encode (sha b) = i) ''existing object corrupted''))"

text \<open>Lines 114 to 147.\<close>

definition publish_object :: "(string \<Rightarrow> string) \<Rightarrow> string \<Rightarrow> string \<Rightarrow> unit store_action" where
  "publish_object sha tmp i =
     act_then sync_call (\<lambda>_. act_then sync_call (\<lambda>_.
     act_then (link_file tmp i) (\<lambda>new.
     act_then (if new then ret () else verify_existing sha i) (\<lambda>_.
     act_then (remove_file tmp) (\<lambda>_. sync_call)))))"

definition store_body :: "(string \<Rightarrow> string) \<Rightarrow> string \<Rightarrow> object_request \<Rightarrow> string \<Rightarrow> nat store_action" where
  "store_body sha i r tmp =
     act_then (try_act (copy_body tmp (ob_body r) (ob_broken r))) (\<lambda>copied.
     case copied of Inl _ \<Rightarrow> ret 400
     | Inr written \<Rightarrow>
       if hex_encode (sha written) \<noteq> i then ret 422
       else act_then (try_act (publish_object sha tmp i)) (\<lambda>res.
         ret (case res of Inl _ \<Rightarrow> 507 | Inr _ \<Rightarrow> 201)))"

definition put_object :: "(string \<Rightarrow> string) \<Rightarrow> string \<Rightarrow> object_request \<Rightarrow> object_reply store_action" where
  "put_object sha i r =
     act_then (try_act (create_temp (ob_suffixes r))) (\<lambda>created.
     case created of Inl _ \<Rightarrow> ret (507, [])
     | Inr tmp \<Rightarrow>
       act_then (store_body sha i r tmp) (\<lambda>status.
       act_then (try_act (remove_file tmp)) (\<lambda>_. ret (status, []))))"

subsection \<open>GET and the handler\<close>

definition get_object :: "string \<Rightarrow> object_reply store_action" where
  "get_object i =
     act_then (try_act (read_world (\<lambda>w. Inr (gm_get (st_root_dir w) i)))) (\<lambda>opened.
     case opened of Inl _ \<Rightarrow> ret (500, [])
     | Inr None \<Rightarrow> ret (404, [])
     | Inr (Some b) \<Rightarrow> act_then (try_act sync_call) (\<lambda>stat. ret (case stat of Inl _ \<Rightarrow> (500, []) | Inr _ \<Rightarrow> (200, b))))"

definition serve_owned :: "(string \<Rightarrow> string) \<Rightarrow> string \<Rightarrow> object_request \<Rightarrow> object_reply store_action" where
  "serve_owned sha owner r =
     act_then (try_act (owned owner)) (\<lambda>mine.
     case mine of Inl _ \<Rightarrow> ret (503, [])
     | Inr _ \<Rightarrow>
       if ob_path r = ''/health'' then ret (200, render (JObj [(''owner'', JStr owner)]) @ [CHR 0x0A])
       else case object_id (ob_path r) of
         None \<Rightarrow> ret (400, [])
       | Some i \<Rightarrow>
           if ob_method r = ''GET'' then get_object i
           else if ob_method r = ''PUT'' then put_object sha i r
           else ret (405, []))"

text \<open>\<^verbatim>\<open>ServeHTTP\<close>: a slot is taken, or the request is refused; it is given back on every way out.\<close>

definition object_slots :: nat where
  "object_slots = 16"

definition take_slot :: "bool store_action" where
  "take_slot = direct (\<lambda>w. if st_slots w < object_slots then (True, w\<lparr>st_slots := st_slots w + 1\<rparr>) else (False, w))"

definition give_slot :: "unit store_action" where
  "give_slot = direct (\<lambda>w. ((), w\<lparr>st_slots := st_slots w - 1\<rparr>))"

definition ServeHTTP :: "(string \<Rightarrow> string) \<Rightarrow> string \<Rightarrow> object_request \<Rightarrow> object_reply store_action" where
  "ServeHTTP sha owner r =
     act_then take_slot (\<lambda>free.
     if \<not> free then ret (503, [])
     else act_then (serve_owned sha owner r) (\<lambda>reply.
       act_then give_slot (\<lambda>_. ret reply)))"

text \<open>The start of the command: a store that is not its own is not served.\<close>

definition objects_start :: "string \<Rightarrow> string \<Rightarrow> unit store_action" where
  "objects_start root owner =
     act_then (lift_result (guard (root \<noteq> [] \<and> owner \<noteq> []) ''root and owner required'')) (\<lambda>_. owned owner)"

end
