(* ===== verification/Slots.thy ===== *)
theory Slots
  imports Objects Publisher
begin

section \<open>Bounded connections: workerListener, cmd/echo and the object slots\<close>

text \<open>
  Three places bound what they serve at once by a buffered channel: the management listener of the worker
  (\<^verbatim>\<open>workerListener\<close> and \<^verbatim>\<open>workerConnection\<close>, 32), the echo workload (\<^verbatim>\<open>cmd/echo/main.go\<close>, 512) and the handler of
  the object store (16). A send on a full channel takes the default branch; a receive from an empty one
  would block for ever, which is \<^const>\<open>None\<close> here. The locale is their contract: each slot taken has one
  holder, and the events of the holders keep it so.
\<close>

fun run_events :: "('ev \<Rightarrow> 's \<Rightarrow> 's option) \<Rightarrow> 'ev list \<Rightarrow> 's \<Rightarrow> 's option" where
  "run_events step [] s = Some s"
| "run_events step (ev # evs) s = (case step ev s of None \<Rightarrow> None | Some s' \<Rightarrow> run_events step evs s')"

locale slot_pool =
  fixes capacity :: nat
    and taken :: "'s \<Rightarrow> nat"
    and holders :: "'s \<Rightarrow> nat"
    and possible :: "'ev \<Rightarrow> 's \<Rightarrow> bool"
    and step :: "'ev \<Rightarrow> 's \<Rightarrow> 's option"
  assumes step_ok: "step ev s = Some s' \<Longrightarrow> taken s = holders s \<Longrightarrow> taken s \<le> capacity \<Longrightarrow> taken s' = holders s' \<and> taken s' \<le> capacity"
    and step_enabled: "possible ev s \<Longrightarrow> taken s = holders s \<Longrightarrow> step ev s \<noteq> None"
begin

definition balanced :: "'s \<Rightarrow> bool" where
  "balanced s \<longleftrightarrow> taken s = holders s \<and> taken s \<le> capacity"

lemma step_balanced: "step ev s = Some s' \<Longrightarrow> balanced s \<Longrightarrow> balanced s'"
  unfolding balanced_def using step_ok by blast

lemma run_balanced: "run_events step evs s = Some s' \<Longrightarrow> balanced s \<Longrightarrow> balanced s'"
  by (induction evs arbitrary: s) (auto split: option.splits dest: step_balanced)

lemma never_stuck: "run_events step evs s = Some s' \<Longrightarrow> balanced s \<Longrightarrow> possible ev s' \<Longrightarrow> step ev s' \<noteq> None"
  using run_balanced step_enabled unfolding balanced_def by blast

end

subsection \<open>The management listener\<close>

text \<open>A connection that was let in is remembered with whether its \<^verbatim>\<open>sync.Once\<close> has run.\<close>

record listener =
  ln_slots :: nat
  ln_released :: "bool list"

datatype listener_event = Connect | CloseConnection nat

definition listener_capacity :: nat where
  "listener_capacity = 32"

text \<open>One turn of the loop of \<^verbatim>\<open>Accept\<close>: the connection is wrapped and returned, or closed.\<close>

definition accept_connection :: "listener \<Rightarrow> listener" where
  "accept_connection l = (if ln_slots l < listener_capacity
     then l\<lparr>ln_slots := ln_slots l + 1, ln_released := ln_released l @ [False]\<rparr> else l)"

definition close_connection :: "nat \<Rightarrow> listener \<Rightarrow> listener option" where
  "close_connection i l =
     (if length (ln_released l) \<le> i then None
      else if ln_released l ! i then Some l
      else if ln_slots l = 0 then None
      else Some (l\<lparr>ln_slots := ln_slots l - 1, ln_released := (ln_released l)[i := True]\<rparr>))"

fun listener_step :: "listener_event \<Rightarrow> listener \<Rightarrow> listener option" where
  "listener_step Connect l = Some (accept_connection l)"
| "listener_step (CloseConnection i) l = close_connection i l"

definition open_connections :: "listener \<Rightarrow> nat" where
  "open_connections l = length (filter Not (ln_released l))"

fun listener_possible :: "listener_event \<Rightarrow> listener \<Rightarrow> bool" where
  "listener_possible Connect l = True"
| "listener_possible (CloseConnection i) l = (i < length (ln_released l))"

lemma filter_not_update:
  "i < length xs \<Longrightarrow> \<not> xs ! i \<Longrightarrow> length (filter Not xs) = Suc (length (filter Not (xs[i := True])))"
  by (induction xs arbitrary: i) (auto split: nat.splits)

lemma filter_not_pos: "i < length xs \<Longrightarrow> \<not> xs ! i \<Longrightarrow> length (filter Not xs) \<noteq> 0"
  using filter_not_update by fastforce

lemma filter_not_minus:
  "i < length xs \<Longrightarrow> \<not> xs ! i \<Longrightarrow> length (filter Not (xs[i := True])) = length (filter Not xs) - 1"
  using filter_not_update by fastforce

interpretation management: slot_pool listener_capacity ln_slots open_connections listener_possible listener_step
proof
  fix ev s s'
  assume "listener_step ev s = Some s'" "ln_slots s = open_connections s" "ln_slots s \<le> listener_capacity"
  then show "ln_slots s' = open_connections s' \<and> ln_slots s' \<le> listener_capacity"
    by (cases ev) (auto simp: accept_connection_def close_connection_def open_connections_def filter_not_minus not_le split: if_splits)
next
  fix ev s
  assume "listener_possible ev s" "ln_slots s = open_connections s"
  then show "listener_step ev s \<noteq> None"
    using filter_not_pos [of _ "ln_released s"]
    by (cases ev) (auto simp: close_connection_def open_connections_def)
qed

subsection \<open>The echo workload\<close>

definition echo_capacity :: nat where
  "echo_capacity = 512"

text \<open>The connections being served, by the order in which they came; the loop and the end of a goroutine.\<close>

record echo_server =
  ec_slots :: nat
  ec_serving :: "nat list"
  ec_next :: nat

datatype echo_event = EchoConnect | EchoFinish nat

fun echo_step :: "echo_event \<Rightarrow> echo_server \<Rightarrow> echo_server option" where
  "echo_step EchoConnect s = Some (if ec_slots s < echo_capacity
     then s\<lparr>ec_slots := ec_slots s + 1, ec_serving := ec_serving s @ [ec_next s], ec_next := ec_next s + 1\<rparr>
     else s\<lparr>ec_next := ec_next s + 1\<rparr>)"
| "echo_step (EchoFinish i) s = (if i \<notin> set (ec_serving s) \<or> ec_slots s = 0 then None
     else Some (s\<lparr>ec_slots := ec_slots s - 1, ec_serving := remove1 i (ec_serving s)\<rparr>))"

fun echo_possible :: "echo_event \<Rightarrow> echo_server \<Rightarrow> bool" where
  "echo_possible EchoConnect s = True"
| "echo_possible (EchoFinish i) s = (i \<in> set (ec_serving s))"

interpretation echo: slot_pool echo_capacity ec_slots "\<lambda>s. length (ec_serving s)" echo_possible echo_step
proof
  fix ev s s'
  assume "echo_step ev s = Some s'" "ec_slots s = length (ec_serving s)" "ec_slots s \<le> echo_capacity"
  then show "ec_slots s' = length (ec_serving s') \<and> ec_slots s' \<le> echo_capacity"
    by (cases ev) (auto simp: length_remove1 split: if_splits)
next
  fix ev s
  assume "echo_possible ev s" "ec_slots s = length (ec_serving s)"
  then show "echo_step ev s \<noteq> None" by (cases ev) auto
qed

text \<open>What one connection is sent: the identity, its own input back, and the end mark if the copy ended well.\<close>

definition echo_identity :: "string \<Rightarrow> string \<Rightarrow> string \<Rightarrow> string \<Rightarrow> string \<Rightarrow> json" where
  "echo_identity app inst worker region version = JObj [(''app'', JStr app), (''instance'', JStr inst),
     (''region'', JStr region), (''version'', JStr version), (''worker'', JStr worker)]"

definition echo_session :: "json \<Rightarrow> unit result \<Rightarrow> string \<Rightarrow> unit result \<Rightarrow> string" where
  "echo_session identity written input copied = (case written of Inl _ \<Rightarrow> []
     | Inr _ \<Rightarrow> render identity @ [CHR 0x0A] @ input @ (case copied of Inl _ \<Rightarrow> [] | Inr _ \<Rightarrow> [CHR 0x0A] @ ''EOF'' @ [CHR 0x0A]))"

text \<open>An echo workload serves exactly the identity that the worker's reconciliation asks for.\<close>

lemma echo_is_ready:
  "serving_ready owner i r w (Inr (echo_identity app inst worker region version)) \<longleftrightarrow>
     app = rec_app r \<and> inst = i \<and> worker = owner \<and> version = wl_version w"
  by (auto simp: serving_ready_def echo_identity_def identity_of_def read_map_def member_def)

subsection \<open>The object slots\<close>

text \<open>Requests enter and leave in any interleaving; the state is the store and the number of requests inside.\<close>

datatype object_event = Enter | Leave

fun object_step :: "object_event \<Rightarrow> object_store \<times> nat \<Rightarrow> (object_store \<times> nat) option" where
  "object_step Enter (w, n) = (case take_slot (w, []) of (r, (w', _)) \<Rightarrow> Some (w', if r = Inr True then n + 1 else n))"
| "object_step Leave (w, n) = (if n = 0 \<or> st_slots w = 0 then None
     else case give_slot (w, []) of (_, (w', _)) \<Rightarrow> Some (w', n - 1))"

fun object_possible :: "object_event \<Rightarrow> object_store \<times> nat \<Rightarrow> bool" where
  "object_possible Enter s = True"
| "object_possible Leave (w, n) = (0 < n)"

interpretation requests: slot_pool object_slots "\<lambda>(w, n). st_slots w" "\<lambda>(w, n). n" object_possible object_step
proof
  fix ev and s s' :: "object_store \<times> nat"
  assume "object_step ev s = Some s'" "(case s of (w, n) \<Rightarrow> st_slots w) = (case s of (w, n) \<Rightarrow> n)"
    "(case s of (w, n) \<Rightarrow> st_slots w) \<le> object_slots"
  then show "(case s' of (w, n) \<Rightarrow> st_slots w) = (case s' of (w, n) \<Rightarrow> n) \<and> (case s' of (w, n) \<Rightarrow> st_slots w) \<le> object_slots"
    by (cases ev; cases s) (auto simp: take_slot_def give_slot_def direct_def split: if_splits prod.splits)
next
  fix ev and s :: "object_store \<times> nat"
  assume "object_possible ev s" "(case s of (w, n) \<Rightarrow> st_slots w) = (case s of (w, n) \<Rightarrow> n)"
  then show "object_step ev s \<noteq> None"
    by (cases ev; cases s) (auto simp: take_slot_def give_slot_def direct_def split: if_splits prod.splits)
qed

subsection \<open>Property\<close>

text \<open>The management listener is bounded and leaks nothing: after any sequence of connections and closings, however
often each connection is closed, the slots taken are exactly the connections not yet closed, at most 32, and
no closing ever blocks.\<close>

theorem connection_slots_balance:
  assumes "run_events listener_step evs \<lparr>ln_slots = 0, ln_released = []\<rparr> = Some l"
  shows "ln_slots l = open_connections l \<and> open_connections l \<le> 32
    \<and> (i < length (ln_released l) \<longrightarrow> listener_step (CloseConnection i) l \<noteq> None)"
proof -
  have "management.balanced \<lparr>ln_slots = 0, ln_released = []\<rparr>"
    by (simp add: management.balanced_def open_connections_def)
  note bal = management.run_balanced [OF assms this] and stuck = management.never_stuck [OF assms this, of "CloseConnection i"]
  from bal have "ln_slots l = open_connections l \<and> open_connections l \<le> 32"
    unfolding management.balanced_def by (simp add: listener_capacity_def)
  with stuck show ?thesis by simp
qed

theorem connection_slots_balance_witness:
  "open_connections \<lparr>ln_slots = 1, ln_released = [True, False]\<rparr> = 1
    \<and> listener_step (CloseConnection 0) \<lparr>ln_slots = 1, ln_released = [True, False]\<rparr> \<noteq> None"
proof -
  have "run_events listener_step [Connect, Connect, CloseConnection 0, CloseConnection 0] \<lparr>ln_slots = 0, ln_released = []\<rparr>
      = Some \<lparr>ln_slots = 1, ln_released = [True, False]\<rparr>"
    by (simp add: accept_connection_def close_connection_def listener_capacity_def)
  from connection_slots_balance [OF this, of 0] show ?thesis by (simp add: open_connections_def)
qed

end
