(* ===== verification/Go_Path.thy ===== *)
theory Go_Path
  imports Go_Text
begin

section \<open>Slash-separated paths: the package path\<close>

text \<open>
  \<^verbatim>\<open>path.Clean\<close>, \<^verbatim>\<open>Base\<close>, \<^verbatim>\<open>Dir\<close> and \<^verbatim>\<open>Join\<close> as the sources call them, and what they do on the names that the
  image loader lets through: relative, without empty, dot or dot-dot components.
\<close>

abbreviation slash :: char where
  "slash \<equiv> CHR ''/''"

fun clean_parts :: "bool \<Rightarrow> string list \<Rightarrow> string list \<Rightarrow> string list" where
  "clean_parts rooted acc [] = rev acc"
| "clean_parts rooted acc (p # ps) =
     (if p = [] \<or> p = ''.'' then clean_parts rooted acc ps
      else if p = ''..'' then
        (if acc \<noteq> [] \<and> hd acc \<noteq> ''..'' then clean_parts rooted (tl acc) ps
         else if rooted then clean_parts rooted acc ps
         else clean_parts rooted (p # acc) ps)
      else clean_parts rooted (p # acc) ps)"

definition is_abs :: "string \<Rightarrow> bool" where
  "is_abs p \<longleftrightarrow> p \<noteq> [] \<and> hd p = slash"

definition path_clean :: "string \<Rightarrow> string" where
  "path_clean p = (let parts = clean_parts (is_abs p) [] (split_on slash p); body = join_with slash parts in
     if is_abs p then slash # body else if body = [] then ''.'' else body)"

definition path_base :: "string \<Rightarrow> string" where
  "path_base p = (if p = [] then ''.''
     else let b = last (split_on slash (trim_right p slash)) in if b = [] then ''/'' else b)"

definition path_dir :: "string \<Rightarrow> string" where
  "path_dir p = path_clean (take (length p - length (last (split_on slash p))) p)"

definition path_join :: "string \<Rightarrow> string \<Rightarrow> string" where
  "path_join a b = (if a = [] \<and> b = [] then []
     else path_clean (if a = [] then b else if b = [] then a else a @ slash # b))"

subsection \<open>Plain names\<close>

definition plain_part :: "string \<Rightarrow> bool" where
  "plain_part p \<longleftrightarrow> p \<noteq> [] \<and> p \<noteq> ''.'' \<and> p \<noteq> ''..'' \<and> slash \<notin> set p"

definition plain_name :: "string \<Rightarrow> bool" where
  "plain_name n \<longleftrightarrow> list_all plain_part (split_on slash n)"

lemma split_join: "ps \<noteq> [] \<Longrightarrow> \<forall>p \<in> set ps. c \<notin> set p \<Longrightarrow> split_on c (join_with c ps) = ps"
proof (induction c ps rule: join_with.induct)
  case (2 c s)
  then show ?case by (simp add: split_on_single)
next
  case (3 c s t ss)
  then show ?case by (simp add: split_on_join)
qed simp

lemma join_eq_Nil: "list_all plain_part ps \<Longrightarrow> join_with c ps = [] \<longleftrightarrow> ps = []"
  by (cases "(c, ps)" rule: join_with.cases) (auto simp: plain_part_def)

lemma plain_join: "ps \<noteq> [] \<Longrightarrow> list_all plain_part ps \<Longrightarrow> plain_name (join_with slash ps)"
  by (simp add: plain_name_def split_join list_all_iff plain_part_def)

lemma plain_split: "plain_name n \<Longrightarrow> split_on slash n \<noteq> [] \<and> list_all plain_part (split_on slash n) \<and> join_with slash (split_on slash n) = n"
  by (simp add: plain_name_def join_split)

text \<open>Without dot-dot components cleaning is a filter, and does nothing to a plain name.\<close>

lemma clean_parts_filter:
  "''..'' \<notin> set ps \<Longrightarrow> clean_parts rooted acc ps = rev acc @ filter (\<lambda>p. p \<noteq> [] \<and> p \<noteq> ''.'') ps"
  by (induction ps arbitrary: acc) auto

lemma clean_plain_parts: "list_all plain_part ps \<Longrightarrow> clean_parts rooted acc ps = rev acc @ ps"
  by (induction ps arbitrary: acc) (auto simp: plain_part_def)

lemma hd_join: "ps \<noteq> [] \<Longrightarrow> hd ps \<noteq> [] \<Longrightarrow> hd (join_with c ps) = hd (hd ps)"
  by (cases "(c, ps)" rule: join_with.cases) auto

lemma plain_not_abs: "plain_name n \<Longrightarrow> \<not> is_abs n"
proof
  assume n: "plain_name n" and abs: "is_abs n"
  then obtain cs where "n = slash # cs" by (cases n) (auto simp: is_abs_def)
  with n show False by (simp add: plain_name_def plain_part_def)
qed

lemma clean_plain: "plain_name n \<Longrightarrow> path_clean n = n"
  using plain_split [of n] plain_not_abs [of n] join_eq_Nil [of "split_on slash n" slash]
  by (simp add: path_clean_def clean_plain_parts Let_def)

lemma clean_relative:
  assumes "\<not> is_abs n" "''..'' \<notin> set (split_on slash n)"
  shows "path_clean n = ''.'' \<or> plain_name (path_clean n)"
proof -
  let ?ps = "filter (\<lambda>p. p \<noteq> [] \<and> p \<noteq> ''.'') (split_on slash n)"
  have plain: "list_all plain_part ?ps"
    using assms(2) by (auto simp: list_all_iff plain_part_def dest: split_on_no_sep)
  have "path_clean n = (if join_with slash ?ps = [] then ''.'' else join_with slash ?ps)"
    using assms by (simp add: path_clean_def clean_parts_filter Let_def)
  with plain show ?thesis using plain_join [OF _ plain] by (auto simp: join_eq_Nil)
qed

lemma join_snoc: "join_with c (ps @ [b]) = (if ps = [] then b else join_with c ps @ c # b)"
  by (induction c ps rule: join_with.induct) auto

text \<open>The parts of a plain name.\<close>

lemma plain_snoc:
  assumes "plain_name n"
  obtains ps b where "split_on slash n = ps @ [b]" "list_all plain_part ps" "plain_part b"
    "n = (if ps = [] then b else join_with slash ps @ slash # b)"
proof -
  obtain ps b where ps: "split_on slash n = ps @ [b]" by (metis rev_exhaust split_on_ne)
  with assms join_split [of slash n] show ?thesis
    by (intro that [of ps b]) (auto simp: plain_name_def join_snoc)
qed

lemma base_plain: "plain_name n \<Longrightarrow> path_base n = last (split_on slash n)"
proof (erule plain_snoc)
  fix ps b
  assume ps: "split_on slash n = ps @ [b]" "plain_part b" "n = (if ps = [] then b else join_with slash ps @ slash # b)"
  then have "b \<noteq> []" "slash \<notin> set b" by (simp_all add: plain_part_def)
  then have "last b \<noteq> slash" by (metis last_in_set)
  with ps have "last n \<noteq> slash" "n \<noteq> []" by (auto simp: plain_part_def)
  then have "trim_right n slash = n" by (cases n rule: rev_cases) (auto simp: trim_right_def)
  with ps \<open>n \<noteq> []\<close> show "path_base n = last (split_on slash n)" by (auto simp: path_base_def plain_part_def Let_def)
qed

definition parent_parts :: "string \<Rightarrow> string list" where
  "parent_parts n = butlast (split_on slash n)"

lemma dir_plain: "plain_name n \<Longrightarrow> path_dir n = (if parent_parts n = [] then ''.'' else join_with slash (parent_parts n))"
proof (erule plain_snoc)
  fix ps b
  assume ps: "split_on slash n = ps @ [b]" "list_all plain_part ps" "plain_part b" "n = (if ps = [] then b else join_with slash ps @ slash # b)"
  show "path_dir n = (if parent_parts n = [] then ''.'' else join_with slash (parent_parts n))"
  proof (cases "ps = []")
    case True
    then show ?thesis using ps by (simp add: path_dir_def parent_parts_def path_clean_def is_abs_def Let_def)
  next
    case False
    let ?d = "join_with slash ps"
    have d: "plain_name ?d" using False ps(2) by (rule plain_join)
    have "path_clean (?d @ [slash]) = ?d"
    proof -
      have "split_on slash (?d @ slash # []) = split_on slash ?d @ [[]]"
      proof -
        have "split_on slash (join_with slash qs @ [slash]) = qs @ [[]]" if "qs \<noteq> []" "\<forall>p \<in> set qs. slash \<notin> set p" for qs
          using split_join [of "qs @ [[]]" slash] that by (simp add: join_snoc)
        then show ?thesis using False ps(2) split_join [of ps slash] by (auto simp: list_all_iff plain_part_def)
      qed
      moreover have "split_on slash ?d = ps" using False ps(2) by (intro split_join) (auto simp: list_all_iff plain_part_def)
      moreover have "\<not> is_abs (?d @ [slash])"
        using plain_not_abs [OF d] join_eq_Nil [OF ps(2), of slash] False by (auto simp: is_abs_def)
      moreover have "clean_parts False [] (ps @ [[]]) = ps"
      proof -
        have "''..'' \<notin> set (ps @ [[]])" using ps(2) by (auto simp: list_all_iff plain_part_def)
        then show ?thesis using ps(2) by (auto simp: clean_parts_filter list_all_iff plain_part_def intro!: filter_True)
      qed
      ultimately show ?thesis using join_eq_Nil [OF ps(2), of slash] False by (simp add: path_clean_def Let_def)
    qed
    moreover have "take (length n - length b) n = ?d @ [slash]" using ps(4) False by simp
    ultimately show ?thesis using ps(1) False by (simp add: path_dir_def parent_parts_def)
  qed
qed

lemma join_plain:
  assumes "plain_name d" "plain_part b"
  shows "path_join d b = d @ slash # b" "path_join ''.'' b = b"
    "split_on slash (d @ slash # b) = split_on slash d @ [b]" "split_on slash b = [b]"
proof -
  note d = plain_split [OF assms(1)]
  have snoc: "d @ slash # b = join_with slash (split_on slash d @ [b])" using d by (simp add: join_snoc)
  show sp: "split_on slash (d @ slash # b) = split_on slash d @ [b]"
    unfolding snoc using d assms(2) by (intro split_join) (auto simp: list_all_iff plain_part_def)
  show sb: "split_on slash b = [b]" using assms(2) by (simp add: plain_part_def split_on_single)
  have "plain_name (d @ slash # b)" using sp d assms(2) by (simp add: plain_name_def)
  from clean_plain [OF this] show "path_join d b = d @ slash # b" using plain_split [OF assms(1)] assms(2)
    by (auto simp: path_join_def plain_part_def)
  have "split_on slash (''.'' @ slash # b) = [''.'', b]"
    using split_join [of "[''.'', b]" slash] assms(2) by (simp add: plain_part_def)
  then have "path_clean (''.'' @ slash # b) = b"
    using assms(2) by (simp add: path_clean_def is_abs_def Let_def plain_part_def)
  then show "path_join ''.'' b = b" using assms(2) by (auto simp: path_join_def plain_part_def)
qed

end
