(* ===== verification/Image.thy ===== *)
theory Image
  imports Files Go_Path Go_Json
begin

section \<open>Images: verified blobs and the entries of their layers\<close>

text \<open>
  \<^verbatim>\<open>cmd/worker/image.go\<close> up to \<^verbatim>\<open>loadLayers\<close>: blobs are fetched into a cache directory under their SHA-256, and
  a manifest, a configuration and up to four layers become lists of checked entries. SHA-256, the JSON
  text, gzip and the tar stream are parameters: what those decoders give for some bytes. The blob store
  is a web \<open>'n\<close> that answers each request and moves on. Every external call can fail.
\<close>

subsection \<open>Data\<close>

record descriptor =
  ds_media :: string
  ds_digest :: string
  ds_size :: int

record manifest =
  mf_schema :: int
  mf_media :: string
  mf_config :: descriptor
  mf_layers :: "descriptor list"

record image_config =
  ic_architecture :: string
  ic_os :: string
  ic_type :: string
  ic_diff_ids :: "string list"

record entry =
  en_name :: string
  en_directory :: bool
  en_mode :: u64
  en_data :: string
  en_modified :: int

datatype tar_type = TypeReg | TypeDir | TypeOther

record tar_header =
  th_name :: string
  th_type :: tar_type
  th_uid :: int
  th_gid :: int
  th_mode :: u64
  th_pax :: bool
  th_size :: int
  th_modified :: int

text \<open>The decoders: a tar stream is what \<^verbatim>\<open>Next\<close> and reading return until the end of the archive.\<close>

record codec =
  cd_sha :: "string \<Rightarrow> string"
  cd_json :: "string \<Rightarrow> json result"
  cd_gunzip :: "string \<Rightarrow> string result"
  cd_untar :: "string \<Rightarrow> (tar_header \<times> string result) result list"

type_synonym 'n web = "string \<Rightarrow> 'n \<Rightarrow> (nat \<times> string result) result \<times> 'n"

record 'n image_world =
  iw_cache :: dir
  iw_net :: 'n

type_synonym ('n, 'a) image_action = "('n image_world, 'a) action"

definition layer_type :: string where
  "layer_type = ''application/vnd.oci.image.layer.v1.tar+gzip''"

definition max_blob :: int where
  "max_blob = 16 * 2 ^ 20"

definition max_expanded :: int where
  "max_expanded = 64 * 2 ^ 20"

definition digest :: "(string \<Rightarrow> string) \<Rightarrow> string \<Rightarrow> string" where
  "digest sha bytes = hex_encode (sha bytes)"

definition validDigest :: "string \<Rightarrow> bool" where
  "validDigest s = (case hex_decode (trim_prefix s ''sha256:'') of
     None \<Rightarrow> False
   | Some b \<Rightarrow> prefix ''sha256:'' s \<and> length b = 32 \<and> s = to_lower s)"

subsection \<open>JSON\<close>

definition read_slice :: "(json \<Rightarrow> 'a \<Rightarrow> 'a result) \<Rightarrow> 'a \<Rightarrow> json \<Rightarrow> 'a list result" where
  "read_slice elem zero j = (case j of JNull \<Rightarrow> Inr []
     | JArr js \<Rightarrow> fold_result (\<lambda>x acc. and_then (elem x zero) (\<lambda>y. Inr (acc @ [y]))) js []
     | _ \<Rightarrow> Inl type_error)"

definition zero_descriptor :: descriptor where
  "zero_descriptor = \<lparr>ds_media = [], ds_digest = [], ds_size = 0\<rparr>"

definition descriptor_field :: "string \<times> json \<Rightarrow> descriptor \<Rightarrow> descriptor result" where
  "descriptor_field kv d = (case kv of (k, j) \<Rightarrow>
     if names_field k ''mediaType'' then and_then (read_str j (ds_media d)) (\<lambda>x. Inr (d\<lparr>ds_media := x\<rparr>))
     else if names_field k ''digest'' then and_then (read_str j (ds_digest d)) (\<lambda>x. Inr (d\<lparr>ds_digest := x\<rparr>))
     else if names_field k ''size'' then and_then (read_int j (ds_size d)) (\<lambda>x. Inr (d\<lparr>ds_size := x\<rparr>))
     else unknown_field False k d)"

definition manifest_field :: "string \<times> json \<Rightarrow> manifest \<Rightarrow> manifest result" where
  "manifest_field kv m = (case kv of (k, j) \<Rightarrow>
     if names_field k ''schemaVersion'' then and_then (read_int j (mf_schema m)) (\<lambda>x. Inr (m\<lparr>mf_schema := x\<rparr>))
     else if names_field k ''mediaType'' then and_then (read_str j (mf_media m)) (\<lambda>x. Inr (m\<lparr>mf_media := x\<rparr>))
     else if names_field k ''config'' then and_then (read_struct descriptor_field j (mf_config m)) (\<lambda>x. Inr (m\<lparr>mf_config := x\<rparr>))
     else if names_field k ''layers'' then
       and_then (read_slice (read_struct descriptor_field) zero_descriptor j) (\<lambda>x. Inr (m\<lparr>mf_layers := x\<rparr>))
     else unknown_field False k m)"

definition read_manifest :: "json \<Rightarrow> manifest result" where
  "read_manifest j = read_struct manifest_field j
     \<lparr>mf_schema = 0, mf_media = [], mf_config = zero_descriptor, mf_layers = []\<rparr>"

definition rootfs_field :: "string \<times> json \<Rightarrow> image_config \<Rightarrow> image_config result" where
  "rootfs_field kv c = (case kv of (k, j) \<Rightarrow>
     if names_field k ''type'' then and_then (read_str j (ic_type c)) (\<lambda>x. Inr (c\<lparr>ic_type := x\<rparr>))
     else if names_field k ''diff_ids'' then and_then (read_strings j) (\<lambda>x. Inr (c\<lparr>ic_diff_ids := x\<rparr>))
     else unknown_field False k c)"

definition image_config_field :: "string \<times> json \<Rightarrow> image_config \<Rightarrow> image_config result" where
  "image_config_field kv c = (case kv of (k, j) \<Rightarrow>
     if names_field k ''architecture'' then and_then (read_str j (ic_architecture c)) (\<lambda>x. Inr (c\<lparr>ic_architecture := x\<rparr>))
     else if names_field k ''os'' then and_then (read_str j (ic_os c)) (\<lambda>x. Inr (c\<lparr>ic_os := x\<rparr>))
     else if names_field k ''rootfs'' then read_struct rootfs_field j c
     else unknown_field False k c)"

definition read_image_config :: "json \<Rightarrow> image_config result" where
  "read_image_config j = read_struct image_config_field j
     \<lparr>ic_architecture = [], ic_os = [], ic_type = [], ic_diff_ids = []\<rparr>"

subsection \<open>Blobs\<close>

definition in_cache :: "(dir \<Rightarrow> 'a result \<times> dir) \<Rightarrow> ('n, 'a) image_action" where
  "in_cache = in_dir iw_cache (\<lambda>d w. w\<lparr>iw_cache := d\<rparr>)"

definition ask_web :: "'n web \<Rightarrow> string \<Rightarrow> ('n, nat \<times> string result) image_action" where
  "ask_web web url = perform (\<lambda>w. case web url (iw_net w) of (r, n) \<Rightarrow> (r, w\<lparr>iw_net := n\<rparr>))"

definition read_in :: "string \<Rightarrow> dir \<Rightarrow> string result \<times> dir" where
  "read_in name d = (case gm_get d name of None \<Rightarrow> Inl ''no such file or directory'' | Some b \<Rightarrow> Inr b, d)"

definition cache_size :: "dir \<Rightarrow> int" where
  "cache_size d = int (sum_list (map (\<lambda>(k, b). length b) d))"

text \<open>Lines 106 to 128: the body is read up to one byte beyond the size.\<close>

definition download :: "codec \<Rightarrow> 'n web \<Rightarrow> string list \<Rightarrow> string \<Rightarrow> descriptor \<Rightarrow> string \<Rightarrow> ('n, string) image_action" where
  "download cd web temps store d i =
     act_then (ask_web web (trim_right store CHR ''/'' @ ''/blobs/sha256/'' @ i)) (\<lambda>(status, body).
     act_then (lift_result (guard (status = 200) (''fetch HTTP '' @ itoa status))) (\<lambda>_.
     act_then (lift_result (and_then body (\<lambda>b. Inr (take (nat (ds_size d + 1)) b)))) (\<lambda>bytes.
     act_then (lift_result (guard (int (length bytes) = ds_size d) ''blob length mismatch'')) (\<lambda>_.
     act_then (lift_result (guard (digest (cd_sha cd) bytes = i) ''blob digest mismatch'')) (\<lambda>_.
     act_then (durableFile iw_cache (\<lambda>d w. w\<lparr>iw_cache := d\<rparr>) temps i bytes) (\<lambda>_.
     ret bytes))))))"

definition fetch :: "codec \<Rightarrow> 'n web \<Rightarrow> string list \<Rightarrow> string \<Rightarrow> descriptor \<Rightarrow> ('n, string) image_action" where
  "fetch cd web temps store d =
     (if \<not> validDigest (ds_digest d) \<or> ds_size d < 1 \<or> max_blob < ds_size d then lift_result (Inl ''invalid descriptor'')
      else let i = trim_prefix (ds_digest d) ''sha256:'' in
        act_then (try_act (in_cache (read_in i))) (\<lambda>cached.
        case cached of
          Inr bytes \<Rightarrow> lift_result (if int (length bytes) = ds_size d \<and> digest (cd_sha cd) bytes = i then Inr bytes
            else Inl ''corrupt cached blob'')
        | Inl _ \<Rightarrow>
          act_then (read_world (\<lambda>w. Inr (cache_size (iw_cache w)))) (\<lambda>size.
          act_then (lift_result (guard (size + ds_size d \<le> 512 * 2 ^ 20) ''blob cache capacity reached'')) (\<lambda>_.
          download cd web temps store d i))))"

subsection \<open>Entries\<close>

text \<open>What is checked of a name before and after cleaning; \<^const>\<open>None\<close> is the directory entry of the root.\<close>

definition check_name :: "tar_header \<Rightarrow> string list \<Rightarrow> string option result" where
  "check_name h seen =
     (let name = trim_suffix (th_name h) ''/'' in
      if name = ''.'' \<or> name = [] then (if th_type h = TypeDir then Inr None else Inl ''invalid root entry'')
      else if is_abs name \<or> CHR 0x5C \<in> set name then Inl ''path escape''
      else if ''..'' \<in> set (split_on slash name) then Inl ''path escape''
      else let clean = path_clean name in
        if clean = ''.'' \<or> clean = ''lost+found'' \<or> prefix ''lost+found/'' clean \<or> prefix ''.edgelab'' clean \<or> clean \<in> set seen
        then Inl ''reserved or duplicate path'' else Inr (Some clean))"

definition is_whiteout :: "string \<Rightarrow> bool" where
  "is_whiteout name \<longleftrightarrow> prefix ''.wh.'' (path_base name)"

text \<open>Lines 227 to 250: type, owner, mode and size; \<open>used\<close> is the running sum of sizes.\<close>

definition check_entry :: "tar_header \<Rightarrow> string result \<Rightarrow> string \<Rightarrow> int \<Rightarrow> entry result" where
  "check_entry h content name used =
     (if th_type h = TypeOther then Inl ''unsupported link or special file''
      else if th_uid h \<noteq> 0 \<or> th_gid h \<noteq> 0 \<or> and (th_mode h) 3584 \<noteq> 0 \<or> th_pax h then Inl ''unsupported file attributes''
      else if th_size h < 0 \<or> max_expanded < th_size h then Inl ''expanded size limit''
      else if max_expanded < used + th_size h then Inl ''expanded size limit''
      else and_then content (\<lambda>bytes.
        if int (length bytes) \<noteq> th_size h then Inl ''truncated entry''
        else if is_whiteout name \<and> (th_type h \<noteq> TypeReg \<or> th_size h \<noteq> 0) then Inl ''invalid whiteout''
        else Inr \<lparr>en_name = name, en_directory = (th_type h = TypeDir), en_mode = and (th_mode h) 511,
          en_data = bytes, en_modified = th_modified h\<rparr>))"

record layer_state =
  ls_entries :: "entry list"
  ls_seen :: "string list"
  ls_total :: int
  ls_count :: nat

definition read_item :: "(tar_header \<times> string result) result \<Rightarrow> layer_state \<Rightarrow> layer_state result" where
  "read_item item s = and_then item (\<lambda>(h, content).
     if 4096 < ls_count s + 1 then Inl ''file count limit''
     else let s' = s\<lparr>ls_count := ls_count s + 1\<rparr> in
       and_then (check_name h (ls_seen s)) (\<lambda>checked.
       case checked of None \<Rightarrow> Inr s'
       | Some name \<Rightarrow> and_then (check_entry h content name (ls_total s)) (\<lambda>e.
           Inr (s'\<lparr>ls_seen := name # ls_seen s, ls_total := ls_total s + th_size h, ls_entries := ls_entries s @ [e]\<rparr>))))"

text \<open>One layer (lines 165 to 253): the state carries the sums over all layers.\<close>

definition unpack_layer :: "codec \<Rightarrow> string \<Rightarrow> string \<Rightarrow> int \<times> nat \<Rightarrow> (entry list \<times> int \<times> nat) result" where
  "unpack_layer cd diff_id blob sums = (case sums of (used, number) \<Rightarrow>
     and_then (cd_gunzip cd blob) (\<lambda>all.
     let plain = take (nat (max_expanded + 1)) all in
     if max_expanded < int (length plain) then Inl ''expanded size limit''
     else if \<not> validDigest diff_id \<or> ''sha256:'' @ digest (cd_sha cd) plain \<noteq> diff_id then Inl ''diff ID mismatch''
     else and_then (fold_result read_item (cd_untar cd plain) \<lparr>ls_entries = [], ls_seen = [], ls_total = used, ls_count = number\<rparr>)
       (\<lambda>s. Inr (ls_entries s, ls_total s, ls_count s))))"

definition fault_point :: "string \<Rightarrow> string \<Rightarrow> ('w, unit) action" where
  "fault_point crash point = lift_result (guard (crash \<noteq> point) ''exit status 77'')"

type_synonym image_source = "string \<times> string \<times> string list"

definition load_layer :: "codec \<Rightarrow> 'n web \<Rightarrow> image_source \<Rightarrow> image_config \<Rightarrow> nat \<times> descriptor \<Rightarrow> entry list list \<times> int \<times> nat
    \<Rightarrow> ('n, entry list list \<times> int \<times> nat) image_action" where
  "load_layer cd web src c layer acc = (case src of (store, crash, temps) \<Rightarrow> case layer of (k, d) \<Rightarrow> case acc of (layers, sums) \<Rightarrow>
     act_then (lift_result (guard (ds_media d = layer_type) ''unsupported layer media type'')) (\<lambda>_.
     act_then (fetch cd web temps store d) (\<lambda>blob.
     act_then (fault_point crash (''layer-'' @ itoa k)) (\<lambda>_.
     act_then (lift_result (unpack_layer cd (ic_diff_ids c ! k) blob sums)) (\<lambda>(entries, sums').
     ret (layers @ [entries], sums'))))))"

definition manifest_ok :: "manifest \<Rightarrow> bool" where
  "manifest_ok m \<longleftrightarrow> mf_schema m = 2 \<and> mf_media m = ''application/vnd.oci.image.manifest.v1+json''
     \<and> 1 \<le> length (mf_layers m) \<and> length (mf_layers m) \<le> 4
     \<and> ds_media (mf_config m) = ''application/vnd.oci.image.config.v1+json''"

definition image_config_ok :: "manifest \<Rightarrow> image_config \<Rightarrow> bool" where
  "image_config_ok m c \<longleftrightarrow> ic_architecture c = ''arm64'' \<and> ic_os c = ''linux'' \<and> ic_type c = ''layers''
     \<and> length (ic_diff_ids c) = length (mf_layers m)"

definition loadLayers :: "codec \<Rightarrow> 'n web \<Rightarrow> image_source \<Rightarrow> descriptor \<Rightarrow> ('n, manifest \<times> entry list list) image_action" where
  "loadLayers cd web src desc = (case src of (store, crash, temps) \<Rightarrow>
     act_then (fetch cd web temps store desc) (\<lambda>bytes.
     act_then (fault_point crash ''manifest'') (\<lambda>_.
     act_then (lift_result (and_then (cd_json cd bytes) read_manifest)) (\<lambda>m.
     act_then (lift_result (guard (manifest_ok m) ''unsupported image manifest'')) (\<lambda>_.
     act_then (fetch cd web temps store (mf_config m)) (\<lambda>config.
     act_then (fault_point crash ''config'') (\<lambda>_.
     act_then (lift_result (and_then (cd_json cd config) read_image_config)) (\<lambda>c.
     act_then (lift_result (guard (image_config_ok m c) ''unsupported image configuration'')) (\<lambda>_.
     act_then (fold_act (load_layer cd web src c) (enumerate 0 (mf_layers m)) ([], 0, 0)) (\<lambda>(layers, sums).
     ret (m, layers)))))))))))"

end
