(* ===== verification/Extract.thy ===== *)
theory Extract
  imports Image
begin

section \<open>Extraction of layers\<close>

text \<open>
  \<^verbatim>\<open>applyLayers\<close> of \<^verbatim>\<open>cmd/worker/image.go\<close> on the filesystem of an image. A filesystem maps the components of a
  path to a directory or a regular file; a formatted volume holds nothing else, and the extraction adds nothing
  else. The time of a file is \<^const>\<open>None\<close> when it was last written rather than set; those of directories and
  access times are not modelled. The umask of the process is an argument. Every system call can fail.
\<close>

subsection \<open>The filesystem\<close>

datatype node = Dir u64 | File u64 "int option" string

type_synonym fs = "(string list, node) go_map"

fun is_file :: "node option \<Rightarrow> bool" where
  "is_file (Some (File m t d)) = True"
| "is_file _ = False"

fun is_dir :: "node option \<Rightarrow> bool" where
  "is_dir (Some (Dir m)) = True"
| "is_dir _ = False"

definition path_parts :: "string \<Rightarrow> string list" where
  "path_parts p = (if p = ''.'' then [] else split_on slash p)"

definition file_above :: "string list \<Rightarrow> fs \<Rightarrow> bool" where
  "file_above p f \<longleftrightarrow> list_ex (\<lambda>k. is_file (gm_get f (take k p))) [0..<length p]"

definition children :: "string list \<Rightarrow> fs \<Rightarrow> string list" where
  "children p f = map last (filter (\<lambda>q. q \<noteq> [] \<and> butlast q = p) (map fst f))"

text \<open>\<^verbatim>\<open>os.ReadDir\<close>; \<^const>\<open>None\<close> stands for the error that \<^verbatim>\<open>os.IsNotExist\<close> recognises.\<close>

definition read_dir :: "string list \<Rightarrow> fs \<Rightarrow> string list option result \<times> fs" where
  "read_dir p f = (case gm_get f p of
     Some (Dir m) \<Rightarrow> Inr (Some (children p f))
   | Some (File m t d) \<Rightarrow> Inl ''not a directory''
   | None \<Rightarrow> if file_above p f then Inl ''not a directory'' else Inr None, f)"

definition remove_all :: "string list \<Rightarrow> fs \<Rightarrow> unit result \<times> fs" where
  "remove_all p f = (if file_above p f then (Inl ''not a directory'', f) else (Inr (), filter (\<lambda>(q, n). \<not> prefix p q) f))"

definition mkdir_step :: "u64 \<Rightarrow> string list \<Rightarrow> fs \<Rightarrow> unit result \<times> fs" where
  "mkdir_step umask p f = (case gm_get f p of
     Some (Dir m) \<Rightarrow> (Inr (), f)
   | Some (File m t d) \<Rightarrow> (Inl ''not a directory'', f)
   | None \<Rightarrow> (Inr (), gm_put p (Dir (and 493 (not umask))) f))"

text \<open>\<^verbatim>\<open>os.MkdirAll(path, 0755)\<close>: one directory after the other.\<close>

definition mkdir_all :: "u64 \<Rightarrow> string list \<Rightarrow> (fs, unit) action" where
  "mkdir_all umask p = fold_act (\<lambda>k _. perform (mkdir_step umask (take k p))) [1..<length p + 1] ()"

definition lstat :: "string list \<Rightarrow> fs \<Rightarrow> node result \<times> fs" where
  "lstat p f = (case gm_get f p of None \<Rightarrow> Inl ''no such file or directory'' | Some n \<Rightarrow> Inr n, f)"

text \<open>\<^verbatim>\<open>os.OpenFile\<close> with \<^verbatim>\<open>O_CREATE\<close> and \<^verbatim>\<open>O_TRUNC\<close> and the mode \<^verbatim>\<open>0600\<close> of a new file.\<close>

definition open_trunc :: "u64 \<Rightarrow> string list \<Rightarrow> fs \<Rightarrow> unit result \<times> fs" where
  "open_trunc umask p f = (case gm_get f p of
     Some (Dir m) \<Rightarrow> (Inl ''is a directory'', f)
   | Some (File m t d) \<Rightarrow> (Inr (), gm_put p (File m None []) f)
   | None \<Rightarrow> if is_dir (gm_get f (butlast p)) then (Inr (), gm_put p (File (and 384 (not umask)) None []) f)
       else (Inl ''no such file or directory'', f))"

definition write_bytes :: "string list \<Rightarrow> string \<Rightarrow> fs \<Rightarrow> unit result \<times> fs" where
  "write_bytes p b f = (case gm_get f p of
     Some (File m t d) \<Rightarrow> (Inr (), gm_put p (File m None (d @ b)) f)
   | _ \<Rightarrow> (Inl ''bad file descriptor'', f))"

definition chmod :: "string list \<Rightarrow> u64 \<Rightarrow> fs \<Rightarrow> unit result \<times> fs" where
  "chmod p m f = (case gm_get f p of
     None \<Rightarrow> (Inl ''no such file or directory'', f)
   | Some (Dir m') \<Rightarrow> (Inr (), gm_put p (Dir m) f)
   | Some (File m' t d) \<Rightarrow> (Inr (), gm_put p (File m t d) f))"

definition chtimes :: "string list \<Rightarrow> int \<Rightarrow> fs \<Rightarrow> unit result \<times> fs" where
  "chtimes p t f = (case gm_get f p of
     None \<Rightarrow> (Inl ''no such file or directory'', f)
   | Some (Dir m) \<Rightarrow> (Inr (), f)
   | Some (File m t' d) \<Rightarrow> (Inr (), gm_put p (File m (Some t) d) f))"

subsection \<open>applyLayers\<close>

definition whiteout_item :: "entry \<Rightarrow> unit \<Rightarrow> (fs, unit) action" where
  "whiteout_item item u = (let base = path_base (en_name item); parent = path_dir (en_name item) in
     if base = ''.wh..wh..opq'' then
       act_then (perform (read_dir (path_parts parent))) (\<lambda>names.
       fold_act (\<lambda>child _. perform (remove_all (path_parts (path_join parent child))))
         (case names of None \<Rightarrow> [] | Some cs \<Rightarrow> cs) ())
     else if prefix ''.wh.'' base then
       (let target = trim_prefix base ''.wh.'' in
        if target = [] \<or> target = ''.'' \<or> target = ''..'' then lift_result (Inl ''invalid whiteout target'')
        else perform (remove_all (path_parts (path_join parent target))))
     else ret ())"

definition install_file :: "u64 \<Rightarrow> string \<Rightarrow> entry \<Rightarrow> (fs, unit) action" where
  "install_file umask crash item = (let p = path_parts (en_name item) in
     act_then (perform (open_trunc umask p)) (\<lambda>_.
     act_then (try_act (act_then (perform (write_bytes p (en_data item))) (\<lambda>_. read_world (\<lambda>_. Inr ())))) (\<lambda>e.
     act_then (try_act (read_world (\<lambda>_. Inr ()))) (\<lambda>close_err.
     act_then (lift_result e) (\<lambda>_.
     act_then (lift_result close_err) (\<lambda>_.
     fault_point crash ''unpack-partial''))))))"

definition install_item :: "u64 \<Rightarrow> string \<Rightarrow> entry \<Rightarrow> unit \<Rightarrow> (fs, unit) action" where
  "install_item umask crash item u = (if is_whiteout (en_name item) then ret () else
     act_then (mkdir_all umask (path_parts (path_dir (en_name item)))) (\<lambda>_.
     act_then (try_act (perform (lstat (path_parts (en_name item))))) (\<lambda>info.
     act_then (case info of Inl _ \<Rightarrow> ret ()
         | Inr n \<Rightarrow> if is_dir (Some n) \<noteq> en_directory item then perform (remove_all (path_parts (en_name item))) else ret ()) (\<lambda>_.
     if en_directory item then mkdir_all umask (path_parts (en_name item)) else install_file umask crash item))))"

definition set_metadata :: "entry \<Rightarrow> unit \<Rightarrow> (fs, unit) action" where
  "set_metadata item u = (if is_whiteout (en_name item) then ret () else
     act_then (perform (chmod (path_parts (en_name item)) (en_mode item))) (\<lambda>_.
     perform (chtimes (path_parts (en_name item)) (en_modified item))))"

definition apply_layer :: "u64 \<Rightarrow> string \<Rightarrow> entry list \<Rightarrow> unit \<Rightarrow> (fs, unit) action" where
  "apply_layer umask crash entries u =
     act_then (fold_act whiteout_item entries ()) (\<lambda>_.
     act_then (fold_act (install_item umask crash) entries ()) (\<lambda>_.
     fold_act set_metadata (rev entries) ()))"

definition applyLayers :: "u64 \<Rightarrow> string \<Rightarrow> entry list list \<Rightarrow> (fs, unit) action" where
  "applyLayers umask crash layers = fold_act (apply_layer umask crash) layers ()"

end
