(* ===== verification/Storage.thy ===== *)
theory Storage
  imports Extract
begin

section \<open>Thin volumes and the digest of a tree\<close>

text \<open>
  \<^verbatim>\<open>cmd/worker/storage.go\<close>: the volumes of the worker through the command line of LVM, mounting, and the digest
  of a mounted tree. The machine \<open>'h\<close> that runs the commands is a parameter: a command is its argument list, its
  answer the trimmed output or an error. Floating point numbers \<open>'f\<close> are a parameter too.
\<close>

subsection \<open>The machine\<close>

datatype tree_item = TreeDir u64 | TreeFile u64 string | TreeOther

text \<open>
  A mounted tree is seen in two ways: as what \<^verbatim>\<open>filepath.WalkDir\<close> visits under a path, in the order of the visit,
  and as the filesystem of a process that has its root there.
\<close>

record ('h, 'f) machine =
  mc_run :: "string list \<Rightarrow> 'h \<Rightarrow> string result \<times> 'h"
  mc_read :: "string \<Rightarrow> 'h \<Rightarrow> string result"
  mc_mkdir :: "string \<Rightarrow> 'h \<Rightarrow> unit result \<times> 'h"
  mc_walk :: "string \<Rightarrow> 'h \<Rightarrow> (string list \<times> tree_item) list"
  mc_fs :: "string \<Rightarrow> 'h \<Rightarrow> fs"
  mc_put_fs :: "string \<Rightarrow> fs \<Rightarrow> 'h \<Rightarrow> 'h"
  mc_private :: "string \<Rightarrow> 'h \<Rightarrow> bool"
  mc_device :: "string \<Rightarrow> 'h \<Rightarrow> bool"
  mc_umask :: u64
  mc_parse :: "string \<Rightarrow> 'f result"
  mc_num :: "int \<Rightarrow> 'f"
  mc_add :: "'f \<Rightarrow> 'f \<Rightarrow> 'f"
  mc_mul :: "'f \<Rightarrow> 'f \<Rightarrow> 'f"
  mc_div :: "'f \<Rightarrow> 'f \<Rightarrow> 'f"
  mc_le :: "'f \<Rightarrow> 'f \<Rightarrow> bool"
  mc_eq :: "'f \<Rightarrow> 'f \<Rightarrow> bool"

subsection \<open>Data\<close>

record pool =
  pl_machine :: string
  pl_device :: string
  pl_uuid :: string

record volume =
  vl_name :: string
  vl_uuid :: string
  vl_tags :: string
  vl_pool :: string
  vl_origin :: string
  vl_attr :: string
  vl_size :: string
  vl_data :: string
  vl_meta :: string

record 'f storage =
  sg_root :: string
  sg_pool :: pool
  sg_data_limit :: 'f
  sg_meta_limit :: 'f

definition pool_field :: "string \<times> json \<Rightarrow> pool \<Rightarrow> pool result" where
  "pool_field kv p = (case kv of (k, j) \<Rightarrow>
     if names_field k ''machine'' then and_then (read_str j (pl_machine p)) (\<lambda>x. Inr (p\<lparr>pl_machine := x\<rparr>))
     else if names_field k ''device'' then and_then (read_str j (pl_device p)) (\<lambda>x. Inr (p\<lparr>pl_device := x\<rparr>))
     else if names_field k ''uuid'' then and_then (read_str j (pl_uuid p)) (\<lambda>x. Inr (p\<lparr>pl_uuid := x\<rparr>))
     else unknown_field False k p)"

definition read_pool :: "json \<Rightarrow> pool result" where
  "read_pool j = read_struct pool_field j \<lparr>pl_machine = [], pl_device = [], pl_uuid = []\<rparr>"

definition zero_volume :: volume where
  "zero_volume = \<lparr>vl_name = [], vl_uuid = [], vl_tags = [], vl_pool = [], vl_origin = [], vl_attr = [], vl_size = [],
     vl_data = [], vl_meta = []\<rparr>"

definition volume_field :: "string \<times> json \<Rightarrow> volume \<Rightarrow> volume result" where
  "volume_field kv v = (case kv of (k, j) \<Rightarrow>
     if names_field k ''lv_name'' then and_then (read_str j (vl_name v)) (\<lambda>x. Inr (v\<lparr>vl_name := x\<rparr>))
     else if names_field k ''lv_uuid'' then and_then (read_str j (vl_uuid v)) (\<lambda>x. Inr (v\<lparr>vl_uuid := x\<rparr>))
     else if names_field k ''lv_tags'' then and_then (read_str j (vl_tags v)) (\<lambda>x. Inr (v\<lparr>vl_tags := x\<rparr>))
     else if names_field k ''pool_lv'' then and_then (read_str j (vl_pool v)) (\<lambda>x. Inr (v\<lparr>vl_pool := x\<rparr>))
     else if names_field k ''origin'' then and_then (read_str j (vl_origin v)) (\<lambda>x. Inr (v\<lparr>vl_origin := x\<rparr>))
     else if names_field k ''lv_attr'' then and_then (read_str j (vl_attr v)) (\<lambda>x. Inr (v\<lparr>vl_attr := x\<rparr>))
     else if names_field k ''lv_size'' then and_then (read_str j (vl_size v)) (\<lambda>x. Inr (v\<lparr>vl_size := x\<rparr>))
     else if names_field k ''data_percent'' then and_then (read_str j (vl_data v)) (\<lambda>x. Inr (v\<lparr>vl_data := x\<rparr>))
     else if names_field k ''metadata_percent'' then and_then (read_str j (vl_meta v)) (\<lambda>x. Inr (v\<lparr>vl_meta := x\<rparr>))
     else unknown_field False k v)"

text \<open>The report of \<^verbatim>\<open>lvs\<close>: a list of groups, each with a list of volumes under \<^verbatim>\<open>lv\<close>.\<close>

definition group_field :: "string \<times> json \<Rightarrow> volume list \<Rightarrow> volume list result" where
  "group_field kv vs = (case kv of (k, j) \<Rightarrow>
     if names_field k ''lv'' then read_slice (read_struct volume_field) zero_volume j else unknown_field False k vs)"

definition report_field :: "string \<times> json \<Rightarrow> volume list list \<Rightarrow> volume list list result" where
  "report_field kv gs = (case kv of (k, j) \<Rightarrow>
     if names_field k ''report'' then read_slice (read_struct group_field) [] j else unknown_field False k gs)"

definition read_report :: "json \<Rightarrow> volume list list result" where
  "read_report j = read_struct report_field j []"

subsection \<open>Commands\<close>

type_synonym ('h, 'a) machine_action = "('h, 'a) action"

definition run_command :: "('h, 'f) machine \<Rightarrow> string list \<Rightarrow> ('h, string) machine_action" where
  "run_command t argv = perform (mc_run t argv)"

definition lvs_args :: "'f storage \<Rightarrow> string list" where
  "lvs_args s = [''lvs'', ''--devices'', pl_device (sg_pool s), ''--reportformat'', ''json'', ''--units'', ''b'', ''--nosuffix'',
     ''-o'', ''lv_name,lv_uuid,lv_tags,pool_lv,origin,lv_attr,lv_size,data_percent,metadata_percent'', ''edgelab_worker'']"

text \<open>\<^verbatim>\<open>inspect\<close>; \<^const>\<open>None\<close> is the error that \<^verbatim>\<open>os.IsNotExist\<close> recognises.\<close>

definition find_volume :: "codec \<Rightarrow> string \<Rightarrow> string \<Rightarrow> volume option result" where
  "find_volume cd name text = and_then (and_then (cd_json cd text) read_report)
     (\<lambda>groups. Inr (find (\<lambda>v. vl_name v = name) (concat groups)))"

definition inspect :: "('h, 'f) machine \<Rightarrow> codec \<Rightarrow> 'f storage \<Rightarrow> string \<Rightarrow> ('h, volume option) machine_action" where
  "inspect t cd s name = act_then (run_command t (lvs_args s)) (\<lambda>data. lift_result (find_volume cd name data))"

definition must_exist :: "volume option \<Rightarrow> volume result" where
  "must_exist v = (case v of None \<Rightarrow> Inl ''file does not exist'' | Some v \<Rightarrow> Inr v)"

definition over_threshold :: "('h, 'f) machine \<Rightarrow> 'f storage \<Rightarrow> int \<Rightarrow> volume \<Rightarrow> unit result" where
  "over_threshold t s reserve p =
     and_then (mc_parse t (vl_data p)) (\<lambda>data.
     and_then (mc_parse t (vl_meta p)) (\<lambda>meta.
     and_then (mc_parse t (vl_size p)) (\<lambda>bytes.
     if mc_le t (sg_data_limit s) (mc_add t data (mc_div t (mc_mul t (mc_num t 100) (mc_num t reserve)) bytes))
     then Inl ''thinpool data threshold''
     else if mc_le t (sg_meta_limit s) (mc_add t meta (mc_num t 5)) then Inl ''thinpool metadata threshold'' else Inr ())))"

definition capacity :: "('h, 'f) machine \<Rightarrow> codec \<Rightarrow> 'f storage \<Rightarrow> int \<Rightarrow> ('h, unit) machine_action" where
  "capacity t cd s reserve =
     act_then (inspect t cd s ''pool'') (\<lambda>found.
     act_then (lift_result (must_exist found)) (\<lambda>p.
     act_then (lift_result (guard (vl_uuid p = pl_uuid (sg_pool s)) ''thinpool identity mismatch'')) (\<lambda>_.
     lift_result (over_threshold t s reserve p))))"

definition contains :: "string list \<Rightarrow> string \<Rightarrow> bool" where
  "contains items want \<longleftrightarrow> list_ex (\<lambda>x. x = want) items"

definition validate :: "('h, 'f) machine \<Rightarrow> volume \<Rightarrow> string \<Rightarrow> string \<Rightarrow> unit result" where
  "validate t v tag origin = (let tags = sort (split_on CHR '','' (vl_tags v)) in
     if \<not> contains tags ''edgelab_worker'' \<or> \<not> contains tags tag \<or> vl_pool v \<noteq> ''pool'' \<or> vl_origin v \<noteq> origin
     then Inl ''volume identity conflict''
     else (case mc_parse t (vl_size v) of
         Inl e \<Rightarrow> Inl ''volume size conflict''
       | Inr bytes \<Rightarrow> if mc_eq t bytes (mc_num t (256 * 2 ^ 20)) then Inr () else Inl ''volume size conflict''))"

definition create_args :: "'f storage \<Rightarrow> string \<Rightarrow> string \<Rightarrow> string \<Rightarrow> string list" where
  "create_args s name tag origin = [''lvcreate'', ''--devices'', pl_device (sg_pool s), ''--addtag'', ''edgelab_worker'', ''--addtag'', tag, ''-n'', name]
     @ (if origin = [] then [''-V'', ''256M'', ''-T'', ''edgelab_worker/pool''] else [''-s'', ''edgelab_worker/'' @ origin])"

definition create :: "('h, 'f) machine \<Rightarrow> codec \<Rightarrow> 'f storage \<Rightarrow> string \<Rightarrow> string \<Rightarrow> string \<Rightarrow> ('h, volume) machine_action" where
  "create t cd s name tag origin =
     act_then (inspect t cd s name) (\<lambda>found.
     case found of
       Some v \<Rightarrow> act_then (lift_result (validate t v tag origin)) (\<lambda>_. ret v)
     | None \<Rightarrow>
       act_then (capacity t cd s (64 * 2 ^ 20)) (\<lambda>_.
       act_then (run_command t (create_args s name tag origin)) (\<lambda>_.
       act_then (inspect t cd s name) (\<lambda>found.
       act_then (lift_result (must_exist found)) (\<lambda>v.
       act_then (lift_result (validate t v tag origin)) (\<lambda>_. ret v))))))"

subsection \<open>Mounting\<close>

definition mount_path :: "'f storage \<Rightarrow> string \<Rightarrow> string" where
  "mount_path s name = path_join (path_join (sg_root s) ''mounts'') name"

definition volume_path :: "string \<Rightarrow> string" where
  "volume_path name = ''/dev/edgelab_worker/'' @ name"

definition mount :: "('h, 'f) machine \<Rightarrow> 'f storage \<Rightarrow> string \<Rightarrow> bool \<Rightarrow> ('h, string) machine_action" where
  "mount t s name readonly = (let root = mount_path s name in
     act_then (perform (mc_mkdir t root)) (\<lambda>_.
     act_then (try_act (run_command t [''findmnt'', ''--noheadings'', ''--mountpoint'', root, ''-o'', ''SOURCE''])) (\<lambda>existing.
     case existing of
       Inr source \<Rightarrow>
         act_then (run_command t [''readlink'', ''-f'', volume_path name]) (\<lambda>expected.
         act_then (try_act (run_command t [''readlink'', ''-f'', source])) (\<lambda>actual.
         if actual \<noteq> Inr expected then lift_result (Inl ''mount identity conflict'') else ret root))
     | Inl _ \<Rightarrow>
         act_then (run_command t [''mount'', ''-o'', if readonly then ''ro,nosuid,nodev,noexec'' else ''rw,nosuid,nodev,noexec'',
           volume_path name, root]) (\<lambda>_. ret root))))"

definition unmount :: "('h, 'f) machine \<Rightarrow> 'f storage \<Rightarrow> string \<Rightarrow> ('h, unit) machine_action" where
  "unmount t s name = (let root = mount_path s name in
     act_then (try_act (run_command t [''findmnt'', ''--mountpoint'', root])) (\<lambda>found.
     case found of Inl _ \<Rightarrow> ret ()
     | Inr _ \<Rightarrow> act_then (run_command t [''umount'', root]) (\<lambda>_. ret ())))"

subsection \<open>treeDigest\<close>

text \<open>The permission bits in octal, as \<^verbatim>\<open>%o\<close> writes them.\<close>

fun octal :: "nat \<Rightarrow> string" where
  "octal n = (if n < 8 then [hex_digit n] else octal (n div 8) @ [hex_digit (n mod 8)])"

declare octal.simps [simp del]

definition perm_text :: "u64 \<Rightarrow> string" where
  "perm_text mode = octal (unat (and mode 511))"

text \<open>
  The walk in its order. \<^verbatim>\<open>SkipDir\<close> on a directory skips what is below it, on any other file the rest of the
  directory that holds it, which is the root here.
\<close>

fun tree_records :: "(string \<Rightarrow> string) \<Rightarrow> (string list \<times> tree_item) list \<Rightarrow> (string, string) go_map \<Rightarrow> (string, string) go_map result" where
  "tree_records sha [] records = Inr records"
| "tree_records sha ((p, item) # rest) records =
     (if p = [] then tree_records sha rest records
      else if p = [''lost+found''] then
        (case item of TreeDir m \<Rightarrow> tree_records sha (filter (\<lambda>(q, i). \<not> prefix [''lost+found''] q) rest) records | _ \<Rightarrow> Inr records)
      else if p = [''.edgelab-image.json''] then tree_records sha rest records
      else (case item of
          TreeDir m \<Rightarrow> tree_records sha rest (gm_put (join_with slash p) (''directory:'' @ perm_text m) records)
        | TreeFile m b \<Rightarrow> tree_records sha rest (gm_put (join_with slash p) (perm_text m @ '':'' @ digest sha b) records)
        | TreeOther \<Rightarrow> Inl ''unexpected filesystem entry''))"

definition treeDigest :: "(string \<Rightarrow> string) \<Rightarrow> (string list \<times> tree_item) list \<Rightarrow> string result" where
  "treeDigest sha walk = and_then (tree_records sha walk [])
     (\<lambda>records. Inr (digest sha (render (JObj (map (\<lambda>(k, v). (k, JStr v)) records)))))"

end
