(* ===== verification/Prepare.thy ===== *)
theory Prepare
  imports Storage
begin

section \<open>Preparing an instance: the worker command\<close>

text \<open>
  \<^verbatim>\<open>main\<close> of \<^verbatim>\<open>cmd/worker/main.go\<close> without its two subcommands: the checks of the environment, the extraction
  child, and an operation from its row in SQLite to a registered writable snapshot of a sealed image. The parent
  runs the child as a command; both are modelled, on the same world. A process that \<^verbatim>\<open>faultPoint\<close> ends does no
  more work: its error is told apart from those that the code handles.
\<close>

subsection \<open>The world\<close>

record op_row =
  ro_image :: string
  ro_size :: int
  ro_phase :: string
  ro_snapshot :: string
  ro_uuid :: string
  ro_error :: string

record ('n, 'h) worker_world =
  ww_image :: "'n image_world"
  ww_ops :: "(string, op_row) go_map"
  ww_host :: 'h

record 'f worker_args =
  wa_euid :: nat
  wa_root :: string
  wa_store :: string
  wa_operation :: string
  wa_manifest :: string
  wa_bytes :: int
  wa_crash :: string
  wa_unpack :: string
  wa_data :: 'f
  wa_meta :: 'f

text \<open>An action on a part of the world.\<close>

definition focus :: "('w \<Rightarrow> 'p) \<Rightarrow> ('p \<Rightarrow> 'w \<Rightarrow> 'w) \<Rightarrow> ('p, 'a) action \<Rightarrow> ('w, 'a) action" where
  "focus get put a s = (case s of (w, os) \<Rightarrow> case a (get w, os) of (r, (p, os')) \<Rightarrow> (r, (put p w, os')))"

definition on_host :: "('h, 'a) action \<Rightarrow> (('n, 'h) worker_world, 'a) action" where
  "on_host = focus ww_host (\<lambda>h w. w\<lparr>ww_host := h\<rparr>)"

definition on_image :: "('n, 'a) image_action \<Rightarrow> (('n, 'h) worker_world, 'a) action" where
  "on_image = focus ww_image (\<lambda>i w. w\<lparr>ww_image := i\<rparr>)"

definition on_ops :: "((string, op_row) go_map, 'a) action \<Rightarrow> (('n, 'h) worker_world, 'a) action" where
  "on_ops = focus ww_ops (\<lambda>d w. w\<lparr>ww_ops := d\<rparr>)"

text \<open>A process whose root is at a path.\<close>

definition in_root :: "('h, 'f) machine \<Rightarrow> string \<Rightarrow> (fs, 'a) action \<Rightarrow> ('h, 'a) action" where
  "in_root t path = focus (mc_fs t path) (mc_put_fs t path)"

text \<open>\<^verbatim>\<open>durableFile\<close> in the root directory of a filesystem, call by call as in the theory of files.\<close>

definition temp_at :: "u64 \<Rightarrow> string list \<Rightarrow> fs \<Rightarrow> string result \<times> fs" where
  "temp_at umask candidates f = (case find (\<lambda>x. gm_get f [''.pending-'' @ x] = None) candidates of
     None \<Rightarrow> (Inl ''file exists'', f)
   | Some x \<Rightarrow> (Inr (''.pending-'' @ x), gm_put [''.pending-'' @ x] (File (and 384 (not umask)) None []) f))"

definition rename_at :: "string \<Rightarrow> string \<Rightarrow> fs \<Rightarrow> unit result \<times> fs" where
  "rename_at old new f = (case gm_get f [old] of
     None \<Rightarrow> (Inl ''no such file or directory'', f)
   | Some n \<Rightarrow> if is_dir (gm_get f [new]) then (Inl ''file exists'', f) else (Inr (), gm_put [new] n (gm_del [old] f)))"

definition remove_at :: "string \<Rightarrow> fs \<Rightarrow> unit result \<times> fs" where
  "remove_at name f = (if gm_get f [name] = None then (Inl ''no such file or directory'', f) else (Inr (), gm_del [name] f))"

definition durable_at :: "u64 \<Rightarrow> string list \<Rightarrow> string \<Rightarrow> string \<Rightarrow> (fs, unit) action" where
  "durable_at umask candidates name content =
     act_then (perform (temp_at umask candidates)) (\<lambda>tmp.
     act_then (try_act (
       act_then (perform (write_bytes [tmp] content)) (\<lambda>_.
       act_then (read_world (\<lambda>_. Inr ())) (\<lambda>_.
       act_then (read_world (\<lambda>_. Inr ())) (\<lambda>_.
       act_then (perform (rename_at tmp name)) (\<lambda>_.
       read_world (\<lambda>_. Inr ()))))))) (\<lambda>res.
     act_then (try_act (perform (remove_at tmp))) (\<lambda>_.
     lift_result res)))"

subsection \<open>The start of every run\<close>

definition id_char :: "char \<Rightarrow> bool" where
  "id_char c \<longleftrightarrow> is_alnum c \<or> c = CHR ''_'' \<or> c = CHR ''-''"

definition in_limit :: "('h, 'f) machine \<Rightarrow> 'f \<Rightarrow> int \<Rightarrow> bool" where
  "in_limit t x most \<longleftrightarrow> mc_eq t x x \<and> \<not> mc_le t x (mc_num t 0) \<and> mc_le t x (mc_num t most)"

definition worker_args_ok :: "('h, 'f) machine \<Rightarrow> 'f worker_args \<Rightarrow> bool" where
  "worker_args_ok t a \<longleftrightarrow> wa_euid a = 0 \<and> wa_root a = ''/var/lib/edgelab-worker'' \<and> validDigest (wa_manifest a)
     \<and> 1 \<le> wa_bytes a \<and> wa_bytes a \<le> max_blob
     \<and> 1 \<le> length (wa_operation a) \<and> length (wa_operation a) \<le> 64 \<and> list_all id_char (wa_operation a)
     \<and> in_limit t (wa_data a) 80 \<and> in_limit t (wa_meta a) 70"

definition worker_start :: "('h, 'f) machine \<Rightarrow> codec \<Rightarrow> 'f worker_args \<Rightarrow> ('h, 'f storage) action" where
  "worker_start t cd a = (let root = wa_root a in
     act_then (lift_result (guard (worker_args_ok t a) ''invalid worker arguments'')) (\<lambda>_.
     act_then (read_world (\<lambda>h. guard (mc_private t root h) ''untrusted worker directory'')) (\<lambda>_.
     act_then (read_world (mc_read t (path_join root ''pool.json''))) (\<lambda>blob.
     act_then (lift_result (and_then (cd_json cd blob) read_pool)) (\<lambda>p.
     act_then (try_act (read_world (mc_read t ''/etc/machine-id''))) (\<lambda>machine.
     act_then (lift_result (guard (case machine of Inl _ \<Rightarrow> False | Inr m \<Rightarrow> trim_space m = pl_machine p) ''worker ownership mismatch'')) (\<lambda>_.
     act_then (try_act (run_command t [''losetup'', ''-n'', ''-O'', ''BACK-FILE'', pl_device p])) (\<lambda>backing.
     act_then (lift_result (guard (backing = Inr (path_join root ''disk'')) ''worker device outside allowlist'')) (\<lambda>_.
     let s = \<lparr>sg_root = root, sg_pool = p, sg_data_limit = wa_data a, sg_meta_limit = wa_meta a\<rparr> in
     act_then (inspect t cd s ''pool'') (\<lambda>found.
     act_then (lift_result (must_exist found)) (\<lambda>_.
     act_then (perform (mc_mkdir t (path_join root ''blobs''))) (\<lambda>_.
     ret s))))))))))))"

definition manifest_desc :: "'f worker_args \<Rightarrow> descriptor" where
  "manifest_desc a = \<lparr>ds_media = ''application/vnd.oci.image.manifest.v1+json'', ds_digest = wa_manifest a, ds_size = wa_bytes a\<rparr>"

definition base_name :: "string \<Rightarrow> string" where
  "base_name img = ''image_'' @ take 24 (trim_prefix img ''sha256:'')"

subsection \<open>The extraction child\<close>

definition marker_text :: "string \<Rightarrow> string \<Rightarrow> string" where
  "marker_text img hash = render (JObj [(''manifest'', JStr img), (''tree'', JStr hash)])"

definition write_marker :: "('h, 'f) machine \<Rightarrow> string \<Rightarrow> string list \<Rightarrow> string \<Rightarrow> ('h, unit) action" where
  "write_marker t path temps marker =
     in_root t path (durable_at (mc_umask t) temps ''.edgelab-image.json'' marker)"

definition unpack_main :: "('h, 'f) machine \<Rightarrow> codec \<Rightarrow> 'n web \<Rightarrow> string list \<Rightarrow> 'f worker_args \<Rightarrow> (('n, 'h) worker_world, unit) action" where
  "unpack_main t cd web temps a =
     act_then (on_host (worker_start t cd a)) (\<lambda>s.
     let expected = mount_path s (base_name (wa_manifest a)) in
     act_then (lift_result (guard (wa_unpack a = expected) ''invalid extraction root'')) (\<lambda>_.
     act_then (on_host (run_command t [''findmnt'', ''--mountpoint'', expected])) (\<lambda>_.
     act_then (on_image (loadLayers cd web (wa_store a, wa_crash a, temps) (manifest_desc a))) (\<lambda>(m, layers).
     act_then (read_world (\<lambda>_. Inr ())) (\<lambda>_.
     act_then (read_world (\<lambda>_. Inr ())) (\<lambda>_.
     act_then (on_host (in_root t expected (applyLayers (mc_umask t) (wa_crash a) layers))) (\<lambda>_.
     act_then (on_host (read_world (\<lambda>h. treeDigest (cd_sha cd) (mc_walk t expected h)))) (\<lambda>hash.
     on_host (write_marker t expected temps (marker_text (wa_manifest a) hash))))))))))"

subsection \<open>The table of operations\<close>

definition snapshot_name :: "(string \<Rightarrow> string) \<Rightarrow> string \<Rightarrow> string" where
  "snapshot_name sha operation = ''operation_'' @ take 24 (digest sha operation)"

definition count_others :: "string \<Rightarrow> (string, op_row) go_map \<Rightarrow> nat" where
  "count_others k ops = length (filter (\<lambda>(i, r). i \<noteq> k) ops)"

definition insert_or_ignore_op :: "string \<Rightarrow> op_row \<Rightarrow> (string, op_row) go_map \<Rightarrow> (string, op_row) go_map" where
  "insert_or_ignore_op k r ops = (if gm_get ops k = None then gm_put k r ops else ops)"

definition update_op :: "string \<Rightarrow> (op_row \<Rightarrow> op_row) \<Rightarrow> (string, op_row) go_map \<Rightarrow> (string, op_row) go_map" where
  "update_op k f ops = (case gm_get ops k of None \<Rightarrow> ops | Some r \<Rightarrow> gm_put k (f r) ops)"

text \<open>Lines 119 to 166: the row of the operation, new or as an earlier run left it.\<close>

definition admit_operation :: "string \<Rightarrow> op_row \<Rightarrow> ((string, op_row) go_map, op_row) action" where
  "admit_operation k fresh =
     act_then (read_world (\<lambda>_. Inr ())) (\<lambda>_.
     act_then (read_world (\<lambda>ops. Inr (count_others k ops))) (\<lambda>number.
     act_then (lift_result (guard (number < 128) ''operation capacity reached'')) (\<lambda>_.
     act_then (write_world (insert_or_ignore_op k fresh)) (\<lambda>_.
     act_then (read_world (\<lambda>ops. case gm_get ops k of None \<Rightarrow> Inl ''sql: no rows in result set'' | Some r \<Rightarrow> Inr r)) (\<lambda>old.
     act_then (lift_result (guard (ro_image old = ro_image fresh \<and> ro_size old = ro_size fresh \<and> ro_snapshot old = ro_snapshot fresh)
       ''operation conflict'')) (\<lambda>_. ret old))))))"

abbreviation exited :: string where
  "exited \<equiv> ''exit status 77''"

definition stage :: "string \<Rightarrow> string \<Rightarrow> string \<Rightarrow> (('n, 'h) worker_world, unit) action" where
  "stage crash k next =
     act_then (on_ops (write_world (update_op k (\<lambda>r. r\<lparr>ro_phase := next, ro_error := []\<rparr>)))) (\<lambda>_.
     fault_point crash next)"

text \<open>An error goes to the row, if it can be written, and ends the run; a process that has exited writes nothing.\<close>

definition or_failed :: "string \<Rightarrow> (('n, 'h) worker_world, 'a) action \<Rightarrow> (('n, 'h) worker_world, 'a) action" where
  "or_failed k a s = (case a s of
     (Inr x, s') \<Rightarrow> (Inr x, s')
   | (Inl e, s') \<Rightarrow> if e = exited then (Inl e, s')
       else (case try_act (on_ops (write_world (update_op k (\<lambda>r. r\<lparr>ro_error := e\<rparr>)))) s' of (r, s'') \<Rightarrow> (Inl e, s'')))"

subsection \<open>The image volume\<close>

definition read_marker :: "codec \<Rightarrow> string \<Rightarrow> (string, string) go_map result" where
  "read_marker cd b = and_then (cd_json cd b) (\<lambda>j. read_map read_str [] j [])"

text \<open>Lines 204 to 211: whether a mounted image is the one its marker says it is; every error counts as no.\<close>

definition marker_valid :: "('h, 'f) machine \<Rightarrow> codec \<Rightarrow> string \<Rightarrow> string \<Rightarrow> ('h, bool) action" where
  "marker_valid t cd img path =
     act_then (try_act (read_world (mc_read t (path_join path ''.edgelab-image.json'')))) (\<lambda>b.
     case and_then b (read_marker cd) of
       Inl _ \<Rightarrow> ret False
     | Inr marker \<Rightarrow>
       if gm_get marker ''manifest'' \<noteq> Some img then ret False
       else act_then (try_act (read_world (\<lambda>h. treeDigest (cd_sha cd) (mc_walk t path h)))) (\<lambda>hash.
         ret (hash = Inr (case gm_get marker ''tree'' of None \<Rightarrow> [] | Some x \<Rightarrow> x))))"

text \<open>Lines 196 to 215: mount read-only, check, unmount. A volume that cannot be mounted and is no ext4 is to be formatted.\<close>

definition verify_image :: "('h, 'f) machine \<Rightarrow> codec \<Rightarrow> 'f storage \<Rightarrow> string \<Rightarrow> ('h, bool) action" where
  "verify_image t cd s img = (let base = base_name img in
     act_then (try_act (mount t s base True)) (\<lambda>mounted.
     case mounted of
       Inl e \<Rightarrow>
         act_then (try_act (run_command t [''blkid'', ''-s'', ''TYPE'', ''-o'', ''value'', volume_path base])) (\<lambda>kind.
         if kind = Inr ''ext4'' then lift_result (Inl e) else ret False)
     | Inr path \<Rightarrow>
         act_then (marker_valid t cd img path) (\<lambda>valid.
         act_then (unmount t s base) (\<lambda>_. ret valid))))"

definition has_attr :: "nat \<Rightarrow> char \<Rightarrow> volume \<Rightarrow> bool" where
  "has_attr k c v \<longleftrightarrow> k < length (vl_attr v) \<and> vl_attr v ! k = c"

text \<open>The child, run as a command with the arguments of line 236; the limits are those of its defaults.\<close>

definition child_args :: "('h, 'f) machine \<Rightarrow> 'f worker_args \<Rightarrow> string \<Rightarrow> 'f worker_args" where
  "child_args t a path = a\<lparr>wa_root := ''/var/lib/edgelab-worker'', wa_unpack := path, wa_data := mc_num t 80, wa_meta := mc_num t 70\<rparr>"

definition run_child :: "('h, 'f) machine \<Rightarrow> codec \<Rightarrow> 'n web \<Rightarrow> string list \<Rightarrow> 'f worker_args \<Rightarrow> string \<Rightarrow> (('n, 'h) worker_world, unit) action" where
  "run_child t cd web temps a path =
     act_then (try_act (unpack_main t cd web temps (child_args t a path))) (\<lambda>r.
     lift_result (case r of Inr u \<Rightarrow> Inr u
       | Inl e \<Rightarrow> Inl (if wa_crash a = ''unpack-partial'' \<and> e = exited then exited else ''worker: '' @ e)))"

text \<open>Lines 216 to 248.\<close>

definition build_image :: "('h, 'f) machine \<Rightarrow> codec \<Rightarrow> 'n web \<Rightarrow> string list \<Rightarrow> 'f worker_args \<Rightarrow> 'f storage \<Rightarrow> (('n, 'h) worker_world, unit) action" where
  "build_image t cd web temps a s = (let base = base_name (wa_manifest a); k = wa_operation a; crash = wa_crash a in
     act_then (or_failed k (on_host (capacity t cd s max_expanded))) (\<lambda>_.
     act_then (or_failed k (on_host (run_command t [''mkfs.ext4'', ''-q'', ''-F'', volume_path base]))) (\<lambda>_.
     act_then (fault_point crash ''format'') (\<lambda>_.
     act_then (or_failed k (on_host (mount t s base False))) (\<lambda>path.
     act_then (fault_point crash ''mount'') (\<lambda>_.
     act_then (or_failed k (read_world (\<lambda>_. Inr ()))) (\<lambda>_.
     act_then (or_failed k (run_child t cd web temps a path)) (\<lambda>_.
     act_then (fault_point crash ''unpack'') (\<lambda>_.
     act_then (or_failed k (on_host (unmount t s base))) (\<lambda>_.
     fault_point crash ''unmounted''))))))))))"

definition lvchange :: "('h, 'f) machine \<Rightarrow> 'f storage \<Rightarrow> string list \<Rightarrow> string \<Rightarrow> ('h, string) action" where
  "lvchange t s flags name = run_command t ([''lvchange'', ''--devices'', pl_device (sg_pool s)] @ flags @ [''edgelab_worker/'' @ name])"

text \<open>Lines 249 to 262.\<close>

definition seal_image :: "('h, 'f) machine \<Rightarrow> codec \<Rightarrow> 'f worker_args \<Rightarrow> 'f storage \<Rightarrow> (('n, 'h) worker_world, unit) action" where
  "seal_image t cd a s = (let base = base_name (wa_manifest a); k = wa_operation a in
     act_then (or_failed k (act_then (on_host (inspect t cd s base)) (\<lambda>found. lift_result (must_exist found)))) (\<lambda>origin.
     act_then (or_failed k (lift_result (guard (2 \<le> length (vl_attr origin)) ''invalid origin attributes''))) (\<lambda>_.
     act_then (if vl_attr origin ! 1 \<noteq> CHR ''r'' then or_failed k (on_host (lvchange t s [''-pr''] base)) else ret []) (\<lambda>_.
     act_then (fault_point (wa_crash a) ''seal'') (\<lambda>_.
     stage (wa_crash a) k ''sealed'')))))"

text \<open>Lines 263 to 295.\<close>

definition open_snapshot :: "('h, 'f) machine \<Rightarrow> codec \<Rightarrow> 'f worker_args \<Rightarrow> 'f storage \<Rightarrow> string \<Rightarrow> (('n, 'h) worker_world, volume) action" where
  "open_snapshot t cd a s old_uuid = (let k = wa_operation a; crash = wa_crash a; name = snapshot_name (cd_sha cd) k in
     act_then (or_failed k (on_host (create t cd s name (''operation_'' @ digest (cd_sha cd) k) (base_name (wa_manifest a))))) (\<lambda>snap.
     act_then (fault_point crash ''snapshot'') (\<lambda>_.
     act_then (or_failed k (lift_result (guard (old_uuid = [] \<or> old_uuid = vl_uuid snap) ''snapshot UUID changed''))) (\<lambda>_.
     act_then (or_failed k (lift_result (guard (2 \<le> length (vl_attr snap)) ''invalid snapshot attributes''))) (\<lambda>_.
     act_then (if vl_attr snap ! 1 \<noteq> CHR ''w'' then or_failed k (on_host (lvchange t s [''-prw''] name)) else ret []) (\<lambda>_.
     act_then (fault_point crash ''writable'') (\<lambda>_.
     act_then (or_failed k (act_then (on_host (inspect t cd s name)) (\<lambda>found. lift_result (must_exist found)))) (\<lambda>snap.
     act_then (or_failed k (lift_result (guard (5 \<le> length (vl_attr snap)) ''invalid snapshot activation state''))) (\<lambda>_.
     act_then (if vl_attr snap ! 4 \<noteq> CHR ''a'' then or_failed k (on_host (lvchange t s [''-ay'', ''-K''] name)) else ret []) (\<lambda>_.
     act_then (or_failed k (on_host (read_world (\<lambda>h. guard (mc_device t (volume_path name) h) ''snapshot device is not active'')))) (\<lambda>_.
     act_then (fault_point crash ''activated'') (\<lambda>_. ret snap))))))))))))"

subsection \<open>An operation\<close>

definition fresh_op :: "(string \<Rightarrow> string) \<Rightarrow> 'f worker_args \<Rightarrow> op_row" where
  "fresh_op sha a = \<lparr>ro_image = wa_manifest a, ro_size = wa_bytes a, ro_phase = ''requested'', ro_snapshot = snapshot_name sha (wa_operation a),
     ro_uuid = [], ro_error = []\<rparr>"

definition prepare_main :: "('h, 'f) machine \<Rightarrow> codec \<Rightarrow> 'n web \<Rightarrow> string list \<Rightarrow> 'f worker_args \<Rightarrow> (('n, 'h) worker_world, string) action" where
  "prepare_main t cd web temps a = (let k = wa_operation a; crash = wa_crash a; base = base_name (wa_manifest a) in
     act_then (on_host (worker_start t cd a)) (\<lambda>s.
     act_then (on_ops (admit_operation k (fresh_op (cd_sha cd) a))) (\<lambda>old.
     act_then (fault_point crash ''requested'') (\<lambda>_.
     act_then (or_failed k (on_host (capacity t cd s 0))) (\<lambda>_.
     act_then (or_failed k (on_image (loadLayers cd web (wa_store a, crash, temps) (manifest_desc a)))) (\<lambda>loaded.
     act_then (stage crash k ''verified'') (\<lambda>_.
     act_then (or_failed k (on_host (create t cd s base (''image_'' @ trim_prefix (wa_manifest a) ''sha256:'') []))) (\<lambda>origin.
     act_then (fault_point crash ''lv'') (\<lambda>_.
     act_then (or_failed k (on_host (verify_image t cd s (wa_manifest a)))) (\<lambda>valid.
     act_then (if valid then ret ()
       else act_then (or_failed k (lift_result (guard (\<not> has_attr 1 CHR ''r'' origin) ''sealed image verification failed''))) (\<lambda>_.
         build_image t cd web temps a s)) (\<lambda>_.
     act_then (seal_image t cd a s) (\<lambda>_.
     act_then (open_snapshot t cd a s (ro_uuid old)) (\<lambda>snap.
     act_then (or_failed k (on_ops (write_world (update_op k (\<lambda>r. r\<lparr>ro_phase := ''registered'', ro_uuid := vl_uuid snap, ro_error := []\<rparr>))))) (\<lambda>_.
     act_then (fault_point crash ''registered'') (\<lambda>_.
     ret (vl_uuid snap))))))))))))))))"

end
