(* ===== verification/Image_Props.thy ===== *)
theory Image_Props
  imports Image
begin

section \<open>What a loaded image is\<close>

text \<open>
  The blob cache under any faults and answers of the store, the image that a manifest digest pins, and the
  names, modes and sizes of the entries that reach the extraction.
\<close>

subsection \<open>The cache\<close>

text \<open>Every file but the temporary ones carries its own hash as its name.\<close>

definition cache_ok :: "(string \<Rightarrow> string) \<Rightarrow> dir \<Rightarrow> bool" where
  "cache_ok sha d \<longleftrightarrow> gm_ok d \<and> (\<forall>k b. gm_get d k = Some b \<longrightarrow> is_pending k \<or> digest sha b = k)"

definition keeps_blobs :: "dir \<Rightarrow> dir \<Rightarrow> bool" where
  "keeps_blobs d0 d \<longleftrightarrow> (\<forall>k. is_pending k \<or> gm_get d0 k = None \<or> gm_get d k \<noteq> None)"

text \<open>A descriptor pins the bytes it names.\<close>

definition pinned :: "(string \<Rightarrow> string) \<Rightarrow> descriptor \<Rightarrow> string \<Rightarrow> bool" where
  "pinned sha d b \<longleftrightarrow> ds_digest d = ''sha256:'' @ digest sha b \<and> int (length b) = ds_size d
     \<and> 1 \<le> ds_size d \<and> ds_size d \<le> max_blob"

definition cache_inv :: "codec \<Rightarrow> dir \<Rightarrow> 'n image_world \<Rightarrow> bool" where
  "cache_inv cd d0 w \<longleftrightarrow> cache_ok (cd_sha cd) (iw_cache w) \<and> keeps_blobs d0 (iw_cache w)"

lemma hex_not_pending: "\<not> is_pending (hex_encode b)"
proof
  assume "is_pending (hex_encode b)"
  then obtain s where "hex_encode b = ''.pending-'' @ s" by (auto simp: is_pending_def prefix_def)
  moreover have "hex_decode (''.pending-'' @ s) = None" by (simp add: hex_value_def)
  ultimately show False by (metis hex_decode_encode option.distinct(1))
qed

lemma valid_digest_split: "validDigest s \<Longrightarrow> s = ''sha256:'' @ trim_prefix s ''sha256:''"
  by (auto simp: validDigest_def trim_prefix_def prefix_def split: option.splits)

interpretation blobs: dir_in_world iw_cache "\<lambda>d w. w\<lparr>iw_cache := d\<rparr>" "\<lambda>_. True"
  by unfold_locales simp_all

lemma cache_inv_ok: "cache_inv cd d0 w \<Longrightarrow> gm_ok (iw_cache w)"
  by (simp add: cache_inv_def cache_ok_def)

lemma replaces_cache_inv:
  assumes "cache_inv cd d0 w0" "replaces (digest (cd_sha cd) b) b (iw_cache w0) (iw_cache w)"
  shows "cache_inv cd d0 w"
proof -
  have cases: "is_pending k \<or> gm_get (iw_cache w) k = gm_get (iw_cache w0) k
      \<or> k = digest (cd_sha cd) b \<and> gm_get (iw_cache w) k = Some b" for k
    using assms(2) unfolding replaces_def by blast
  have "gm_ok (iw_cache w)" using assms(2) by (simp add: replaces_def)
  moreover have "is_pending k \<or> digest (cd_sha cd) c = k" if "gm_get (iw_cache w) k = Some c" for k c
    using cases [of k] that assms(1) unfolding cache_inv_def cache_ok_def by (metis option.inject)
  moreover have "is_pending k \<or> gm_get d0 k = None \<or> gm_get (iw_cache w) k \<noteq> None" for k
    using cases [of k] assms(1) unfolding cache_inv_def keeps_blobs_def by (metis option.distinct(1))
  ultimately show ?thesis by (simp add: cache_inv_def cache_ok_def keeps_blobs_def)
qed

lemma download_interrupted:
  fixes web :: "'n web"
  assumes "ds_digest d = ''sha256:'' @ i" "1 \<le> ds_size d" "ds_size d \<le> max_blob"
  shows "interrupted (cache_inv cd d0) (download cd web temps store d i)
    (\<lambda>b w. cache_inv cd d0 w \<and> pinned (cd_sha cd) d b) (cache_inv cd d0)"
proof -
  have web: "interrupted (cache_inv cd d0) (ask_web web url) (\<lambda>_. cache_inv cd d0) (cache_inv cd d0)" for url
    unfolding ask_web_def by (rule interrupted_perform) (auto simp: cache_inv_def split: prod.splits)
  have keep: "interrupted (\<lambda>w. cache_inv cd d0 w) (durableFile iw_cache (\<lambda>d w. w\<lparr>iw_cache := d\<rparr>) temps i b)
      (\<lambda>_. cache_inv cd d0) (cache_inv cd d0)" if "digest (cd_sha cd) b = i" for b
  proof (rule interrupted_assume)
    fix w0
    assume w0: "cache_inv cd d0 w0"
    from that have "\<not> is_pending i" by (auto simp: digest_def hex_not_pending)
    from blobs.durableFile_interrupted [OF this, of "iw_cache w0" temps b]
    show "interrupted ((=) w0) (durableFile iw_cache (\<lambda>d w. w\<lparr>iw_cache := d\<rparr>) temps i b)
      (\<lambda>_. cache_inv cd d0) (cache_inv cd d0)"
      by (rule interrupted_weaken) (use w0 that in \<open>auto intro: cache_inv_ok replaces_cache_inv\<close>)
  qed
  show ?thesis
    unfolding download_def
  proof (rule interrupted_then [OF web], clarify)
    fix status and body :: "string result"
    show "interrupted (cache_inv cd d0)
      (act_then (lift_result (guard (status = 200) (''fetch HTTP '' @ itoa status))) (\<lambda>_.
       act_then (lift_result (and_then body (\<lambda>b. Inr (take (nat (ds_size d + 1)) b)))) (\<lambda>bytes.
       act_then (lift_result (guard (int (length bytes) = ds_size d) ''blob length mismatch'')) (\<lambda>_.
       act_then (lift_result (guard (digest (cd_sha cd) bytes = i) ''blob digest mismatch'')) (\<lambda>_.
       act_then (durableFile iw_cache (\<lambda>d w. w\<lparr>iw_cache := d\<rparr>) temps i bytes) (\<lambda>_. ret bytes))))))
      (\<lambda>b w. cache_inv cd d0 w \<and> pinned (cd_sha cd) d b) (cache_inv cd d0)"
      by (intro interrupted_then_lift, assumption+, rule interrupted_then [OF keep])
        (use assms in \<open>auto intro!: interrupted_ret simp: pinned_def\<close>)
  qed
qed

lemma fetch_interrupted:
  fixes web :: "'n web"
  shows "interrupted (cache_inv cd d0) (fetch cd web temps store d)
    (\<lambda>b w. cache_inv cd d0 w \<and> pinned (cd_sha cd) d b) (cache_inv cd d0)"
proof (cases "validDigest (ds_digest d) \<and> 1 \<le> ds_size d \<and> ds_size d \<le> max_blob")
  case True
  let ?i = "trim_prefix (ds_digest d) ''sha256:''"
  from True have i: "ds_digest d = ''sha256:'' @ ?i" by (blast intro: valid_digest_split)
  note down = download_interrupted [OF i]
  have cached: "interrupted (cache_inv cd d0) (try_act (in_cache (read_in ?i))) (\<lambda>_. cache_inv cd d0) (cache_inv cd d0)"
  proof -
    have "interrupted (cache_inv cd d0) (in_cache (read_in ?i)) (\<lambda>_. cache_inv cd d0) (cache_inv cd d0)"
      unfolding in_cache_def in_dir_def
      by (rule interrupted_perform) (auto simp: read_in_def cache_inv_def split: option.splits)
    from interrupted_try [OF this] show ?thesis by (rule interrupted_weaken) (auto split: sum.splits)
  qed
  show ?thesis
    unfolding fetch_def Let_def
  proof (rule interrupted_if)
    assume "\<not> validDigest (ds_digest d) \<or> ds_size d < 1 \<or> max_blob < ds_size d"
    with True show "interrupted (cache_inv cd d0) (lift_result (Inl ''invalid descriptor'')) (\<lambda>b w. cache_inv cd d0 w \<and> pinned (cd_sha cd) d b) (cache_inv cd d0)"
      by auto
  next
    show "interrupted (cache_inv cd d0) (act_then (try_act (in_cache (read_in ?i))) (\<lambda>cached.
        case cached of
          Inr bytes \<Rightarrow> lift_result (if int (length bytes) = ds_size d \<and> digest (cd_sha cd) bytes = ?i then Inr bytes
            else Inl ''corrupt cached blob'')
        | Inl _ \<Rightarrow>
          act_then (read_world (\<lambda>w. Inr (cache_size (iw_cache w)))) (\<lambda>size.
          act_then (lift_result (guard (size + ds_size d \<le> 512 * 2 ^ 20) ''blob cache capacity reached'')) (\<lambda>_.
          download cd web temps store d ?i))))
      (\<lambda>b w. cache_inv cd d0 w \<and> pinned (cd_sha cd) d b) (cache_inv cd d0)"
    proof (rule interrupted_then [OF cached])
      fix c :: "string result"
      show "interrupted (cache_inv cd d0) (case c of
          Inr bytes \<Rightarrow> lift_result (if int (length bytes) = ds_size d \<and> digest (cd_sha cd) bytes = ?i then Inr bytes
            else Inl ''corrupt cached blob'')
        | Inl _ \<Rightarrow>
          act_then (read_world (\<lambda>w. Inr (cache_size (iw_cache w)))) (\<lambda>size.
          act_then (lift_result (guard (size + ds_size d \<le> 512 * 2 ^ 20) ''blob cache capacity reached'')) (\<lambda>_.
          download cd web temps store d ?i)))
        (\<lambda>b w. cache_inv cd d0 w \<and> pinned (cd_sha cd) d b) (cache_inv cd d0)"
      proof (cases c)
        case (Inr b)
        with True i show ?thesis
          unfolding Inr sum.case by (intro interrupted_lift) (auto simp: pinned_def)
      next
        case (Inl e)
        show ?thesis
          unfolding Inl sum.case
          by (rule interrupted_then_read, assumption, rule interrupted_then_lift, blast, rule interrupted_pre [OF down])
            (use True in auto)
      qed
    qed
  qed
qed (auto simp: fetch_def intro!: interrupted_lift)

subsection \<open>The image of some blobs\<close>

text \<open>The reference: what the blobs of an image amount to, without a store, a cache or faults.\<close>

definition unpack_blob :: "codec \<Rightarrow> string \<times> string \<Rightarrow> entry list list \<times> int \<times> nat \<Rightarrow> (entry list list \<times> int \<times> nat) result" where
  "unpack_blob cd x acc = (case x of (diff_id, blob) \<Rightarrow> case acc of (layers, sums) \<Rightarrow>
     and_then (unpack_layer cd diff_id blob sums) (\<lambda>(entries, sums'). Inr (layers @ [entries], sums')))"

definition image_of :: "codec \<Rightarrow> string \<Rightarrow> string \<Rightarrow> string list \<Rightarrow> (manifest \<times> entry list list) result" where
  "image_of cd bytes config blobs = and_then (and_then (cd_json cd bytes) read_manifest) (\<lambda>m.
     if \<not> manifest_ok m then Inl ''unsupported image manifest''
     else and_then (and_then (cd_json cd config) read_image_config) (\<lambda>c.
       if \<not> image_config_ok m c then Inl ''unsupported image configuration''
       else and_then (fold_result (unpack_blob cd) (zip (ic_diff_ids c) blobs) ([], 0, 0)) (\<lambda>(layers, sums). Inr (m, layers))))"

definition layers_read :: "codec \<Rightarrow> image_config \<Rightarrow> (nat \<times> descriptor) list \<Rightarrow> entry list list \<times> int \<times> nat \<Rightarrow> bool" where
  "layers_read cd c visited acc \<longleftrightarrow> (\<exists>blobs. list_all2 (pinned (cd_sha cd)) (map snd visited) blobs
     \<and> list_all (\<lambda>(k, d). ds_media d = layer_type) visited
     \<and> fold_result (unpack_blob cd) (zip (ic_diff_ids c) blobs) ([], 0, 0) = Inr acc)"

lemma layers_read_snoc:
  assumes "layers_read cd c before (layers, sums)" "pinned (cd_sha cd) d blob" "ds_media d = layer_type"
    and "unpack_layer cd (ic_diff_ids c ! k) blob sums = Inr (entries, sums')" "k = length before" "k < length (ic_diff_ids c)"
  shows "layers_read cd c (before @ [(k, d)]) (layers @ [entries], sums')"
proof -
  from assms(1) obtain blobs where b: "list_all2 (pinned (cd_sha cd)) (map snd before) blobs"
      "list_all (\<lambda>(k, d). ds_media d = layer_type) before"
      "fold_result (unpack_blob cd) (zip (ic_diff_ids c) blobs) ([], 0, 0) = Inr (layers, sums)"
    unfolding layers_read_def by blast
  have n: "length blobs = k" using list_all2_lengthD [OF b(1)] assms(5) by simp
  have "zip (ic_diff_ids c) (blobs @ [blob]) = zip (ic_diff_ids c) blobs @ [(ic_diff_ids c ! k, blob)]"
    using n assms(6) zip_append2 [of "ic_diff_ids c" blobs "[blob]"] zip_append2 [of "ic_diff_ids c" blobs "[]"]
    by (simp add: Cons_nth_drop_Suc [symmetric])
  then show ?thesis
    using b assms(2-4) unfolding layers_read_def
    by (intro exI [of _ "blobs @ [blob]"]) (simp add: list_all2_appendI fold_result_append unpack_blob_def)
qed

lemma load_layer_interrupted:
  fixes web :: "'n web"
  assumes "k = length before" "k < length (ic_diff_ids c)"
  shows "interrupted (\<lambda>w. cache_inv cd d0 w \<and> layers_read cd c before acc) (load_layer cd web (store, crash, temps) c (k, d) acc)
    (\<lambda>acc w. cache_inv cd d0 w \<and> layers_read cd c (before @ [(k, d)]) acc) (cache_inv cd d0)"
proof (rule interrupted_pure)
  assume read: "layers_read cd c before acc"
  obtain layers sums where acc: "acc = (layers, sums)" by (cases acc)
  show "interrupted (cache_inv cd d0) (load_layer cd web (store, crash, temps) c (k, d) acc)
    (\<lambda>acc w. cache_inv cd d0 w \<and> layers_read cd c (before @ [(k, d)]) acc) (cache_inv cd d0)"
    unfolding load_layer_def acc prod.case fault_point_def
  proof (rule interrupted_then_lift, assumption, rule interrupted_then [OF fetch_interrupted], rule interrupted_pure,
      rule interrupted_then_lift, assumption, rule interrupted_then_lift, assumption, clarify,
      rule interrupted_ret, intro conjI, assumption)
    fix u v blob entries sum' count'
    assume "guard (ds_media d = layer_type) ''unsupported layer media type'' = Inr u" "pinned (cd_sha cd) d blob"
      "unpack_layer cd (ic_diff_ids c ! k) blob sums = Inr (entries, sum', count')"
    with read assms acc show "layers_read cd c (before @ [(k, d)]) (layers @ [entries], sum', count')"
      by (intro layers_read_snoc) auto
  qed
qed

definition image_pinned :: "codec \<Rightarrow> descriptor \<Rightarrow> manifest \<Rightarrow> entry list list \<Rightarrow> bool" where
  "image_pinned cd desc m layers \<longleftrightarrow> (\<exists>bytes config blobs. pinned (cd_sha cd) desc bytes \<and> pinned (cd_sha cd) (mf_config m) config
     \<and> list_all2 (pinned (cd_sha cd)) (mf_layers m) blobs \<and> list_all (\<lambda>d. ds_media d = layer_type) (mf_layers m)
     \<and> image_of cd bytes config blobs = Inr (m, layers))"

lemma image_pinnedI:
  assumes "pinned (cd_sha cd) desc bytes" "and_then (cd_json cd bytes) read_manifest = Inr m" "manifest_ok m"
    and "pinned (cd_sha cd) (mf_config m) config" "and_then (cd_json cd config) read_image_config = Inr c" "image_config_ok m c"
    and "layers_read cd c (enumerate 0 (mf_layers m)) (layers, sums)"
  shows "image_pinned cd desc m layers"
proof -
  from assms(7) obtain blobs where "list_all2 (pinned (cd_sha cd)) (mf_layers m) blobs"
      "list_all (\<lambda>(k, d). ds_media d = layer_type) (enumerate 0 (mf_layers m))"
      "fold_result (unpack_blob cd) (zip (ic_diff_ids c) blobs) ([], 0, 0) = Inr (layers, sums)"
    unfolding layers_read_def by (metis map_snd_enumerate)
  moreover from this(2) have "list_all (\<lambda>d. ds_media d = layer_type) (map snd (enumerate 0 (mf_layers m)))"
    unfolding list_all_iff set_map by (simp add: split_beta)
  ultimately show ?thesis
    using assms(1-6) unfolding image_pinned_def image_of_def
    by (intro exI [of _ bytes] exI [of _ config] exI [of _ blobs]) simp
qed

lemma loadLayers_interrupted:
  fixes web :: "'n web"
  shows "interrupted (cache_inv cd d0) (loadLayers cd web src desc)
    (\<lambda>(m, layers) w. cache_inv cd d0 w \<and> image_pinned cd desc m layers) (cache_inv cd d0)"
proof -
  obtain store crash temps where src: "src = (store, crash, temps)" by (cases src)
  have layers: "interrupted (cache_inv cd d0) (fold_act (load_layer cd web src c) (enumerate 0 (mf_layers m)) ([], 0, 0))
      (\<lambda>acc w. cache_inv cd d0 w \<and> layers_read cd c (enumerate 0 (mf_layers m)) acc) (cache_inv cd d0)"
    if "image_config_ok m c" for m c
  proof (rule interrupted_pre [OF interrupted_fold_visited [where R = "\<lambda>visited acc w. cache_inv cd d0 w \<and> layers_read cd c visited acc"]])
    fix before x after acc
    assume at: "enumerate 0 (mf_layers m) = before @ x # after"
    from arg_cong [OF at, of "\<lambda>xs. xs ! length before"] arg_cong [OF at, of length]
    have "fst x = length before" "length before < length (mf_layers m)"
      by (auto simp: nth_enumerate_eq nth_append)
    then show "interrupted (\<lambda>w. cache_inv cd d0 w \<and> layers_read cd c before acc) (load_layer cd web src c x acc)
        (\<lambda>acc w. cache_inv cd d0 w \<and> layers_read cd c (before @ [x]) acc) (cache_inv cd d0)"
      using load_layer_interrupted [of "fst x" before c cd d0 acc web store crash temps "snd x"] that
      by (cases x) (simp add: image_config_ok_def src)
  qed (simp add: layers_read_def)
  show ?thesis
    unfolding loadLayers_def src prod.case fault_point_def
  proof (rule interrupted_then [OF fetch_interrupted], rule interrupted_pure, rule interrupted_then_lift, assumption,
      rule interrupted_then_lift, assumption, rule interrupted_then_lift, assumption,
      rule interrupted_then [OF fetch_interrupted], rule interrupted_pure, rule interrupted_then_lift, assumption,
      rule interrupted_then_lift, assumption, rule interrupted_then_lift, assumption)
    fix bytes u m v config x c y
    assume h: "pinned (cd_sha cd) desc bytes" "and_then (cd_json cd bytes) read_manifest = Inr m"
      "guard (manifest_ok m) ''unsupported image manifest'' = Inr v" "pinned (cd_sha cd) (mf_config m) config"
      "and_then (cd_json cd config) read_image_config = Inr c"
      "guard (image_config_ok m c) ''unsupported image configuration'' = Inr y"
    show "interrupted (cache_inv cd d0) (act_then (fold_act (load_layer cd web (store, crash, temps) c) (enumerate 0 (mf_layers m)) ([], 0, 0))
        (\<lambda>(layers, sums). ret (m, layers)))
      (\<lambda>(m, layers) w. cache_inv cd d0 w \<and> image_pinned cd desc m layers) (cache_inv cd d0)"
      by (rule interrupted_then [OF layers [unfolded src]])
        (use h in \<open>auto intro!: interrupted_ret intro: image_pinnedI split: prod.splits\<close>)
  qed
qed

lemma cache_inv_start: "cache_ok (cd_sha cd) (iw_cache w) \<Longrightarrow> cache_inv cd (iw_cache w) w"
  by (auto simp: cache_inv_def keeps_blobs_def)

lemma loaded_pinned:
  assumes "cache_ok (cd_sha cd) (iw_cache w)" "loadLayers cd web src desc (w, os) = (Inr (m, layers), (w', os'))"
  shows "image_pinned cd desc m layers"
  using interruptedD [OF loadLayers_interrupted cache_inv_start [OF assms(1)] assms(2)] by simp

subsection \<open>The entries that reach the extraction\<close>

definition entry_safe :: "entry \<Rightarrow> bool" where
  "entry_safe e \<longleftrightarrow> plain_name (en_name e) \<and> en_name e \<noteq> ''lost+found'' \<and> \<not> prefix ''lost+found/'' (en_name e)
     \<and> \<not> prefix ''.edgelab'' (en_name e) \<and> en_mode e \<le> 511 \<and> (is_whiteout (en_name e) \<longrightarrow> \<not> en_directory e \<and> en_data e = [])"

definition layer_safe :: "entry list \<Rightarrow> bool" where
  "layer_safe es \<longleftrightarrow> list_all entry_safe es \<and> distinct (map en_name es)"

definition data_bytes :: "entry list \<Rightarrow> nat" where
  "data_bytes es = sum_list (map (length \<circ> en_data) es)"

definition layers_safe :: "entry list list \<times> int \<times> nat \<Rightarrow> bool" where
  "layers_safe acc \<longleftrightarrow> (case acc of (layers, used, number) \<Rightarrow> list_all layer_safe layers
     \<and> used = int (sum_list (map data_bytes layers)) \<and> used \<le> max_expanded
     \<and> sum_list (map length layers) \<le> number \<and> number \<le> 4096)"

lemma check_name_safe:
  assumes "check_name h seen = Inr (Some name)"
  shows "plain_name name \<and> name \<noteq> ''lost+found'' \<and> \<not> prefix ''lost+found/'' name \<and> \<not> prefix ''.edgelab'' name \<and> name \<notin> set seen"
  using assms clean_relative [of "trim_suffix (th_name h) ''/''"]
  by (auto simp: check_name_def Let_def split: if_splits)

lemma check_entry_safe:
  assumes "check_entry h content name used = Inr e"
  shows "en_name e = name \<and> int (length (en_data e)) = th_size h \<and> used + th_size h \<le> max_expanded
    \<and> en_mode e \<le> 511 \<and> (is_whiteout name \<longrightarrow> \<not> en_directory e \<and> en_data e = [])"
  using assms by (cases content) (auto simp: check_entry_def word_and_le1 split: if_splits)

lemma read_item_safe:
  assumes "read_item item s = Inr s'" "layers_safe (layers @ [ls_entries s], ls_total s, ls_count s)"
    and "ls_seen s = rev (map en_name (ls_entries s))"
  shows "layers_safe (layers @ [ls_entries s'], ls_total s', ls_count s') \<and> ls_seen s' = rev (map en_name (ls_entries s'))"
proof -
  obtain h content where item: "item = Inr (h, content)" and few: "\<not> 4096 < ls_count s + 1"
    using assms(1) by (cases item) (auto simp: read_item_def split: if_splits prod.splits)
  from assms(1) item few obtain checked where checked: "check_name h (ls_seen s) = Inr checked"
    by (cases "check_name h (ls_seen s)") (auto simp: read_item_def Let_def)
  show ?thesis
  proof (cases checked)
    case None
    with assms item few checked show ?thesis by (auto simp: read_item_def Let_def layers_safe_def)
  next
    case (Some name)
    with assms(1) item few checked obtain e where e: "check_entry h content name (ls_total s) = Inr e"
      by (cases "check_entry h content name (ls_total s)") (auto simp: read_item_def Let_def)
    with assms(1) item few checked Some have s': "s' = s\<lparr>ls_count := ls_count s + 1, ls_seen := name # ls_seen s,
        ls_total := ls_total s + th_size h, ls_entries := ls_entries s @ [e]\<rparr>"
      by (simp add: read_item_def Let_def)
    note e = check_entry_safe [OF e] and n = check_name_safe [OF checked [unfolded Some]]
    from e n have "entry_safe e" by (simp add: entry_safe_def)
    moreover from n e assms(3) have "en_name e \<notin> set (map en_name (ls_entries s))" by simp
    ultimately have "layer_safe (ls_entries s @ [e])" if "layer_safe (ls_entries s)"
      using that by (auto simp: layer_safe_def)
    with assms(2,3) e few show ?thesis by (auto simp: s' layers_safe_def data_bytes_def)
  qed
qed

lemma unpack_layer_safe:
  assumes "unpack_layer cd diff_id blob sums = Inr (entries, sums')" "layers_safe (layers, sums)"
  shows "layers_safe (layers @ [entries], sums')"
proof -
  obtain used number where sums: "sums = (used, number)" by (cases sums)
  with assms(1) obtain items s where
    s: "fold_result read_item items \<lparr>ls_entries = [], ls_seen = [], ls_total = used, ls_count = number\<rparr> = Inr s"
      "entries = ls_entries s" "sums' = (ls_total s, ls_count s)"
    by (auto simp: unpack_layer_def Let_def and_then_def split: sum.splits if_splits)
  let ?P = "\<lambda>s. layers_safe (layers @ [ls_entries s], ls_total s, ls_count s) \<and> ls_seen s = rev (map en_name (ls_entries s))"
  have "?P s"
    by (rule fold_result_invariant [where P = ?P, OF s(1)])
      (use assms(2) sums in \<open>auto simp: layers_safe_def layer_safe_def data_bytes_def dest: read_item_safe\<close>)
  with s show ?thesis by simp
qed

lemma unpack_blobs_safe:
  assumes "fold_result (unpack_blob cd) xs ([], 0, 0) = Inr acc"
  shows "layers_safe acc"
proof (rule fold_result_invariant [where P = layers_safe, OF assms])
  show "layers_safe ([], 0, 0)" by (simp add: layers_safe_def max_expanded_def)
next
  fix x acc acc'
  assume "unpack_blob cd x acc = Inr acc'" "layers_safe acc"
  then show "layers_safe acc'"
    by (auto simp: unpack_blob_def and_then_def split: prod.splits sum.splits dest: unpack_layer_safe)
qed

lemma pinned_layers_safe:
  assumes "image_pinned cd desc m layers"
  shows "list_all layer_safe layers \<and> sum_list (map length layers) \<le> 4096 \<and> sum_list (map data_bytes layers) \<le> 64 * 2 ^ 20"
proof -
  from assms obtain bytes config blobs where "image_of cd bytes config blobs = Inr (m, layers)"
    by (auto simp: image_pinned_def)
  then obtain c :: image_config and used number where "fold_result (unpack_blob cd) (zip (ic_diff_ids c) blobs) ([], 0, 0) = Inr (layers, used, number)"
    by (auto simp: image_of_def and_then_def split: sum.splits if_splits)
  from unpack_blobs_safe [OF this] show ?thesis by (simp add: layers_safe_def max_expanded_def)
qed

subsection \<open>Properties\<close>

text \<open>A sample store whose three blobs make an image of one layer; its decoders know just these texts.\<close>

definition img_sha :: "string \<Rightarrow> string" where
  "img_sha s = take 32 (s @ replicate 32 CHR ''x'')"

definition img_digest :: "string \<Rightarrow> string" where
  "img_digest s = ''sha256:'' @ digest img_sha s"

definition img_header :: "string \<Rightarrow> tar_type \<Rightarrow> u64 \<Rightarrow> int \<Rightarrow> tar_header" where
  "img_header name kind mode len = \<lparr>th_name = name, th_type = kind, th_uid = 0, th_gid = 0, th_mode = mode, th_pax = False,
     th_size = len, th_modified = 0\<rparr>"

definition img_describe :: "string \<Rightarrow> string \<Rightarrow> json" where
  "img_describe media b = JObj [(''mediaType'', JStr media), (''digest'', JStr (img_digest b)), (''size'', JNum (int (length b)))]"

definition img_json :: "string \<Rightarrow> json result" where
  "img_json b =
     (if b = ''M'' then Inr (JObj [(''schemaVersion'', JNum 2), (''mediaType'', JStr ''application/vnd.oci.image.manifest.v1+json''),
        (''config'', img_describe ''application/vnd.oci.image.config.v1+json'' ''C''), (''layers'', JArr [img_describe layer_type ''L''])])
      else if b = ''C'' then Inr (JObj [(''architecture'', JStr ''arm64''), (''os'', JStr ''linux''),
        (''rootfs'', JObj [(''type'', JStr ''layers''), (''diff_ids'', JArr [JStr (img_digest ''T'')])])])
      else Inl ''invalid character'')"

definition img_codec :: codec where
  "img_codec = \<lparr>cd_sha = img_sha, cd_json = img_json, cd_gunzip = (\<lambda>b. if b = ''L'' then Inr ''T'' else Inl ''gzip: invalid header''),
     cd_untar = (\<lambda>_. [Inr (img_header ''./'' TypeDir 493 0, Inr []), Inr (img_header ''bin/'' TypeDir 493 0, Inr []),
       Inr (img_header ''bin/run'' TypeReg 493 2, Inr ''ok''), Inr (img_header ''.wh.old'' TypeReg 420 0, Inr [])])\<rparr>"

definition img_web :: "unit web" where
  "img_web url n = (Inr (if url = ''http://store/blobs/sha256/'' @ digest img_sha ''M'' then (200, Inr ''M'')
     else if url = ''http://store/blobs/sha256/'' @ digest img_sha ''C'' then (200, Inr ''C'')
     else if url = ''http://store/blobs/sha256/'' @ digest img_sha ''L'' then (200, Inr ''L'') else (404, Inr [])), n)"

definition img_desc :: descriptor where
  "img_desc = \<lparr>ds_media = ''application/vnd.oci.image.manifest.v1+json'', ds_digest = img_digest ''M'', ds_size = 1\<rparr>"

definition img_start :: "unit image_world" where
  "img_start = \<lparr>iw_cache = [], iw_net = ()\<rparr>"

definition img_source :: image_source where
  "img_source = (''http://store/'', [], [''1''])"

definition img_layers :: "entry list list" where
  "img_layers = [[\<lparr>en_name = ''bin'', en_directory = True, en_mode = 493, en_data = [], en_modified = 0\<rparr>,
     \<lparr>en_name = ''bin/run'', en_directory = False, en_mode = 493, en_data = ''ok'', en_modified = 0\<rparr>,
     \<lparr>en_name = ''.wh.old'', en_directory = False, en_mode = 420, en_data = [], en_modified = 0\<rparr>]]"

definition img_manifest :: manifest where
  "img_manifest = \<lparr>mf_schema = 2, mf_media = ''application/vnd.oci.image.manifest.v1+json'',
     mf_config = \<lparr>ds_media = ''application/vnd.oci.image.config.v1+json'', ds_digest = img_digest ''C'', ds_size = 1\<rparr>,
     mf_layers = [\<lparr>ds_media = layer_type, ds_digest = img_digest ''L'', ds_size = 1\<rparr>]\<rparr>"

definition img_end :: "unit image_world" where
  "img_end = \<lparr>iw_cache = [(digest img_sha ''C'', ''C''), (digest img_sha ''L'', ''L''), (digest img_sha ''M'', ''M'')], iw_net = ()\<rparr>"

lemma img_run: "loadLayers img_codec img_web img_source img_desc (img_start, []) = (Inr (img_manifest, img_layers), (img_end, []))"
  by code_simp

text \<open>C30. The blob cache is content-addressed whatever happens: after any number of loads of any images from any
  stores with any answers, each cut short anywhere by a fault or a crash, every file of the cache but the temporary
  ones still hashes to its name, and no blob that was there has disappeared.\<close>

theorem image_cache_is_content_addressed:
  assumes "cache_ok (cd_sha cd) (iw_cache w)"
  shows "cache_ok (cd_sha cd) (iw_cache (run_attempts (\<lambda>(web, src, desc). loadLayers cd web src desc) loads w))
    \<and> keeps_blobs (iw_cache w) (iw_cache (run_attempts (\<lambda>(web, src, desc). loadLayers cd web src desc) loads w))"
proof -
  have "cache_inv cd (iw_cache w) (run_attempts (\<lambda>(web, src, desc). loadLayers cd web src desc) loads w)"
  proof (rule run_attempts_inv)
    show "interrupted (cache_inv cd (iw_cache w)) (case i of (web, src, desc) \<Rightarrow> loadLayers cd web src desc)
        (\<lambda>_. cache_inv cd (iw_cache w)) (cache_inv cd (iw_cache w))" for i
      by (cases i) (auto intro: interrupted_weaken [OF loadLayers_interrupted])
    show "cache_inv cd (iw_cache w) w" using assms by (rule cache_inv_start)
  qed
  then show ?thesis by (simp add: cache_inv_def)
qed

theorem image_cache_is_content_addressed_witness:
  "cache_ok img_sha (iw_cache (run_attempts (\<lambda>(web, src, desc). loadLayers img_codec web src desc)
     [((img_web, img_source, img_desc), [Works, Works, Works, Works, Works, Lost ''power'']), ((img_web, img_source, img_desc), [])] img_start))"
  using image_cache_is_content_addressed [of img_codec img_start
      "[((img_web, img_source, img_desc), [Works, Works, Works, Works, Works, Lost ''power'']), ((img_web, img_source, img_desc), [])]"]
  by (simp add: img_start_def img_codec_def cache_ok_def gm_ok_def)

text \<open>C31. A loaded image is the one its manifest digest pins: a successful load returns exactly what the reference
  function makes of bytes with the requested digest and length, of the configuration that those bytes pin and of the
  layers that they pin, so that no answer of the store, no content of the cache and no fault adds anything to it.\<close>

theorem loaded_image_is_pinned:
  assumes "cache_ok (cd_sha cd) (iw_cache w)"
    and "loadLayers cd web src desc (w, os) = (Inr (m, layers), (w', os'))"
  shows "\<exists>bytes config blobs. pinned (cd_sha cd) desc bytes \<and> pinned (cd_sha cd) (mf_config m) config
     \<and> list_all2 (pinned (cd_sha cd)) (mf_layers m) blobs \<and> list_all (\<lambda>d. ds_media d = layer_type) (mf_layers m)
     \<and> image_of cd bytes config blobs = Inr (m, layers)"
  using loaded_pinned [OF assms] by (simp add: image_pinned_def)

theorem loaded_image_is_pinned_witness:
  "\<exists>bytes config blobs. pinned img_sha img_desc bytes \<and> pinned img_sha (mf_config img_manifest) config
     \<and> list_all2 (pinned img_sha) (mf_layers img_manifest) blobs \<and> list_all (\<lambda>d. ds_media d = layer_type) (mf_layers img_manifest)
     \<and> image_of img_codec bytes config blobs = Inr (img_manifest, img_layers)"
  using loaded_image_is_pinned [OF _ img_run] by (simp add: img_start_def img_codec_def cache_ok_def gm_ok_def)

text \<open>C32. What reaches the extraction is safe to extract: the names of a loaded layer are relative, in normal form and
  without dot-dot, none of them is reserved and none occurs twice in its layer, no mode has special bits, whiteouts are
  empty files, and over all layers there are at most 4096 entries with at most 64 MiB of data.\<close>

theorem loaded_entries_are_safe:
  assumes "cache_ok (cd_sha cd) (iw_cache w)"
    and "loadLayers cd web src desc (w, os) = (Inr (m, layers), (w', os'))"
  shows "list_all (\<lambda>es. list_all entry_safe es \<and> distinct (map en_name es)) layers
    \<and> sum_list (map length layers) \<le> 4096 \<and> sum_list (map data_bytes layers) \<le> 64 * 2 ^ 20"
  using pinned_layers_safe [OF loaded_pinned [OF assms]] by (simp add: layer_safe_def [abs_def])

theorem loaded_entries_are_safe_witness:
  "list_all (\<lambda>es. list_all entry_safe es \<and> distinct (map en_name es)) img_layers
    \<and> sum_list (map length img_layers) \<le> 4096 \<and> sum_list (map data_bytes img_layers) \<le> 64 * 2 ^ 20"
  using loaded_entries_are_safe [OF _ img_run] by (simp add: img_start_def img_codec_def cache_ok_def gm_ok_def)

end
