(* ===== verification/Extract_Props.thy ===== *)
theory Extract_Props
  imports Extract Image_Props
begin

section \<open>An extracted image is the overlay of its layers\<close>

text \<open>
  The reference: a layer as a function on lookups, first what its whiteouts hide, then its entries over the rest.
  A successful \<^const>\<open>applyLayers\<close> has computed that function, whatever calls failed on the way.
\<close>

type_synonym lookup = "string list \<Rightarrow> node option"

subsection \<open>Filesystems\<close>

text \<open>The root is a directory, everything else lies in a directory, and the components are names.\<close>

definition fs_ok :: "lookup \<Rightarrow> bool" where
  "fs_ok f \<longleftrightarrow> is_dir (f []) \<and> (\<forall>p. f p \<noteq> None \<longrightarrow> list_all plain_part p \<and> (p = [] \<or> is_dir (f (butlast p))))"

lemma is_dir_iff: "is_dir x \<longleftrightarrow> (\<exists>m. x = Some (Dir m))"
  by (cases x rule: is_dir.cases) auto

lemma is_file_iff: "is_file x \<longleftrightarrow> (\<exists>m t d. x = Some (File m t d))"
  by (cases x rule: is_file.cases) auto

lemma fs_ok_above:
  assumes "fs_ok f" "strict_prefix q p" "f p \<noteq> None"
  shows "is_dir (f q)"
  using assms(2,3)
proof (induction p rule: rev_induct)
  case (snoc x p)
  from assms(1) snoc.prems(2) have dir: "is_dir (f p)" by (fastforce simp: fs_ok_def)
  show ?case
  proof (cases "q = p")
    case False
    with snoc.prems(1) have "strict_prefix q p" by (auto simp: strict_prefix_def)
    with snoc.IH dir show ?thesis by (auto simp: is_dir_iff)
  qed (use dir in simp)
qed simp

lemma file_above_iff: "file_above p f \<longleftrightarrow> (\<exists>q. strict_prefix q p \<and> is_file (gm_get f q))"
proof -
  have "(\<exists>k. k < length p \<and> is_file (gm_get f (take k p))) \<longleftrightarrow> (\<exists>q. strict_prefix q p \<and> is_file (gm_get f q))"
  proof
    assume "\<exists>q. strict_prefix q p \<and> is_file (gm_get f q)"
    then obtain q where q: "strict_prefix q p" "is_file (gm_get f q)" by blast
    then have "q = take (length q) p" "length q < length p"
      by (auto simp: strict_prefix_def prefix_def)
    with q(2) show "\<exists>k. k < length p \<and> is_file (gm_get f (take k p))" by metis
  next
    assume "\<exists>k. k < length p \<and> is_file (gm_get f (take k p))"
    then show "\<exists>q. strict_prefix q p \<and> is_file (gm_get f q)"
      by (metis length_take min.absorb4 nless_le strict_prefix_def take_is_prefix)
  qed
  then show ?thesis by (simp add: file_above_def list_ex_iff Bex_def)
qed

lemma get_filter: "gm_get (filter (\<lambda>(q, n). P q) f) p = (if P p then gm_get f p else None)"
  by (induction f) auto

lemma in_children: "k \<in> set (children p f) \<longleftrightarrow> gm_get f (p @ [k]) \<noteq> None"
proof -
  have "k \<in> set (children p f) \<longleftrightarrow> p @ [k] \<in> set (map fst f)"
    by (force simp: children_def image_iff)
  then show ?thesis by (auto simp: map_of_eq_None_iff image_iff)
qed

subsection \<open>Calls that work\<close>

text \<open>What holds after an action that returned a value; nothing is said of the others.\<close>

abbreviation works :: "('w \<Rightarrow> bool) \<Rightarrow> ('w, 'a) action \<Rightarrow> ('a \<Rightarrow> 'w \<Rightarrow> bool) \<Rightarrow> bool" where
  "works P a Q \<equiv> interrupted P a Q (\<lambda>_. True)"

lemma works_perform:
  "(\<And>w x. P w \<Longrightarrow> fst (f w) = Inr x \<Longrightarrow> Q x (snd (f w))) \<Longrightarrow> works P (perform f) Q"
  by (rule interrupted_perform) auto

lemma works_try: "works P a Q \<Longrightarrow> works P (try_act a) (\<lambda>r w. case r of Inl _ \<Rightarrow> True | Inr x \<Rightarrow> Q x w)"
  by (rule interrupted_try)

definition as_dir :: "u64 \<Rightarrow> node option \<Rightarrow> node" where
  "as_dir umask x = (case x of Some (Dir m) \<Rightarrow> Dir m | _ \<Rightarrow> Dir (and 493 (not umask)))"

lemma as_dir_idem [simp]: "as_dir umask (Some (as_dir umask x)) = as_dir umask x"
  by (simp add: as_dir_def split: option.splits node.splits)

lemma remove_all_works:
  "works (\<lambda>s. gm_get s = f) (perform (remove_all p))
    (\<lambda>_ s. gm_get s = (\<lambda>q. if prefix p q then None else f q) \<and> (\<forall>q. strict_prefix q p \<longrightarrow> \<not> is_file (f q)))"
  by (rule works_perform) (auto simp: remove_all_def file_above_iff get_filter fun_eq_iff split: if_splits)

lemma mkdir_all_works:
  "works (\<lambda>s. gm_get s = f) (mkdir_all umask p)
    (\<lambda>_ s. gm_get s = (\<lambda>q. if prefix q p \<and> q \<noteq> [] then Some (as_dir umask (f q)) else f q)
      \<and> (\<forall>q. prefix q p \<and> q \<noteq> [] \<longrightarrow> \<not> is_file (f q)))"
proof -
  let ?R = "\<lambda>n s. gm_get s = (\<lambda>q. if prefix q p \<and> q \<noteq> [] \<and> length q \<le> n then Some (as_dir umask (f q)) else f q)
      \<and> (\<forall>q. prefix q p \<and> q \<noteq> [] \<and> length q \<le> n \<longrightarrow> \<not> is_file (f q))"
  have at: "prefix q p \<and> length q = n \<longleftrightarrow> q = take n p" if "n \<le> length p" for q n
    using that by (auto simp: prefix_def) (metis append_take_drop_id)
  have step: "works (\<lambda>s. ?R n s) (perform (mkdir_step umask (take (Suc n) p))) (\<lambda>_ s. ?R (Suc n) s)" if n: "Suc n \<le> length p" for n
  proof (rule works_perform)
    fix s x
    assume R: "?R n s" and ok: "fst (mkdir_step umask (take (Suc n) p) s) = Inr x"
    let ?q = "take (Suc n) p"
    have q: "prefix q p \<and> q \<noteq> [] \<and> length q \<le> Suc n \<longleftrightarrow> prefix q p \<and> q \<noteq> [] \<and> length q \<le> n \<or> q = ?q" for q
      using at [OF n, of q] n by (auto simp: le_Suc_eq)
    have new: "gm_get s ?q = f ?q" using R n by auto
    from ok new have nf: "\<not> is_file (f ?q)" by (auto simp: mkdir_step_def is_file_iff)
    have "gm_get (snd (mkdir_step umask ?q s)) = (gm_get s)(?q \<mapsto> as_dir umask (f ?q))"
      using ok new by (auto simp: mkdir_step_def as_dir_def gm.get_put fun_eq_iff split: option.splits node.splits)
    with R nf show "?R (Suc n) (snd (mkdir_step umask ?q s))"
      unfolding q by (auto simp: fun_eq_iff)
  qed
  show ?thesis
    unfolding mkdir_all_def
  proof (rule interrupted_weaken [OF interrupted_fold_visited [where R = "\<lambda>visited _. ?R (length visited)" and I = "\<lambda>_. True"]])
    fix before k after and u :: unit
    assume split: "[1..<length p + 1] = before @ k # after"
    from arg_cong [OF split, of "\<lambda>xs. xs ! length before"] arg_cong [OF split, of length]
    have "k = Suc (length before)" "Suc (length before) \<le> length p"
      by (simp_all add: nth_append del: upt_Suc split: if_splits)
    with step show "works (?R (length before)) (perform (mkdir_step umask (take k p))) (\<lambda>_. ?R (length (before @ [k])))" by simp
  qed (auto simp: fun_eq_iff simp del: upt_Suc dest: prefix_length_le)
qed

subsection \<open>The whiteouts of a layer\<close>

definition path_of :: "entry \<Rightarrow> string list" where
  "path_of e = split_on slash (en_name e)"

definition hides :: "entry \<Rightarrow> string list \<Rightarrow> bool" where
  "hides e p \<longleftrightarrow> (let base = last (path_of e); parent = butlast (path_of e) in
     if base = ''.wh..wh..opq'' then strict_prefix parent p
     else prefix ''.wh.'' base \<and> prefix (parent @ [trim_prefix base ''.wh.'']) p)"

definition hidden :: "entry list \<Rightarrow> lookup \<Rightarrow> lookup" where
  "hidden es f p = (if list_ex (\<lambda>e. hides e p) es then None else f p)"

lemma parts_plain: "plain_name n \<Longrightarrow> path_parts n = split_on slash n"
  by (auto simp: path_parts_def plain_name_def plain_part_def split_on_single)

lemma plain_split_join: "list_all plain_part ps \<Longrightarrow> ps \<noteq> [] \<Longrightarrow> split_on slash (join_with slash ps) = ps"
  by (rule split_join) (auto simp: list_all_iff plain_part_def)

lemma parent_plain: "plain_name n \<Longrightarrow> list_all plain_part (parent_parts n)"
  by (auto simp: parent_parts_def plain_name_def list_all_iff dest: in_set_butlastD)

lemma parts_of_dir: "plain_name n \<Longrightarrow> path_parts (path_dir n) = parent_parts n"
proof (cases "parent_parts n = []")
  case False
  moreover assume n: "plain_name n"
  ultimately show ?thesis using parent_plain [OF n] by (simp add: dir_plain parts_plain [OF plain_join] plain_split_join)
qed (simp add: dir_plain path_parts_def)

lemma parts_of_child:
  assumes n: "plain_name n" and b: "plain_part b"
  shows "path_parts (path_join (path_dir n) b) = parent_parts n @ [b]"
proof (cases "parent_parts n = []")
  case True
  have "plain_name b" using join_plain(4) [OF n b] b by (simp add: plain_name_def)
  with True join_plain(2,4) [OF n b] n show ?thesis by (simp add: dir_plain parts_plain)
next
  case False
  let ?d = "join_with slash (parent_parts n)"
  note d = plain_join [OF False parent_plain [OF n]] and split = plain_split_join [OF parent_plain [OF n] False]
  have "plain_name (?d @ slash # b)"
    using join_plain(3) [OF d b] split b parent_plain [OF n] by (simp add: plain_name_def)
  with join_plain(1,3) [OF d b] split n False show ?thesis by (simp add: dir_plain parts_plain)
qed

lemma hides_path_of:
  "plain_name (en_name e) \<Longrightarrow> hides e p \<longleftrightarrow> (if path_base (en_name e) = ''.wh..wh..opq'' then strict_prefix (parent_parts (en_name e)) p
     else is_whiteout (en_name e) \<and> prefix (parent_parts (en_name e) @ [trim_prefix (path_base (en_name e)) ''.wh.'']) p)"
  by (simp add: hides_def path_of_def base_plain parent_parts_def Let_def is_whiteout_def)

lemma hides_down: "hides e p \<Longrightarrow> prefix p q \<Longrightarrow> hides e q"
  by (auto simp: hides_def Let_def split: if_splits intro: prefix_order.less_le_trans prefix_order.trans)

lemma hides_not_root: "\<not> hides e []"
  by (simp add: hides_def Let_def)

lemma hidden_ok: "fs_ok f \<Longrightarrow> fs_ok (hidden es f)"
  using hides_down [OF _ prefixeq_butlast]
  by (fastforce simp: fs_ok_def hidden_def list_ex_iff hides_not_root)

text \<open>The children of a directory, each with all below it, are all that lies below the directory.\<close>

lemma opaque_works:
  assumes ok: "fs_ok f" and n: "plain_name n"
  shows "works (\<lambda>s. gm_get s = f)
    (act_then (perform (read_dir (path_parts (path_dir n)))) (\<lambda>names.
       fold_act (\<lambda>child _. perform (remove_all (path_parts (path_join (path_dir n) child))))
         (case names of None \<Rightarrow> [] | Some cs \<Rightarrow> cs) ()))
    (\<lambda>_ s. gm_get s = (\<lambda>q. if strict_prefix (parent_parts n) q then None else f q))"
    (is "works ?P (act_then ?read ?loop) ?Q")
proof -
  let ?d = "parent_parts n"
  let ?R = "\<lambda>cs s. gm_get s = (\<lambda>q. if \<exists>c \<in> set cs. prefix (?d @ [c]) q then None else f q)"
  let ?names = "\<lambda>names. case names of None \<Rightarrow> [] | Some cs \<Rightarrow> cs"
  have below: "strict_prefix ?d q \<longleftrightarrow> (\<exists>c. prefix (?d @ [c]) q)" for q
    by (auto simp: strict_prefix_def prefix_def) (metis append_Nil2 list.exhaust)
  have above: "f (?d @ [c]) = None \<or> is_dir (f ?d)" for c
    using fs_ok_above [OF ok, of ?d "?d @ [c]"] by (cases "f (?d @ [c])") (auto simp: strict_prefix_def)
  have read: "works ?P ?read (\<lambda>names s. ?R [] s \<and> set (?names names) = {c. f (?d @ [c]) \<noteq> None})"
  proof (rule works_perform)
    fix s names
    assume s: "gm_get s = f" and r: "fst (read_dir (path_parts (path_dir n)) s) = Inr names"
    have "set (?names names) = {c. f (?d @ [c]) \<noteq> None}"
      using r s above
      by (auto simp: read_dir_def parts_of_dir [OF n] in_children is_dir_iff split: option.splits node.splits if_splits)
    then show "?R [] (snd (read_dir (path_parts (path_dir n)) s)) \<and> set (?names names) = {c. f (?d @ [c]) \<noteq> None}"
      using s by (simp add: read_dir_def fun_eq_iff)
  qed
  show ?thesis
  proof (rule interrupted_then [OF read], rule interrupted_pure)
    fix names
    assume names: "set (?names names) = {c. f (?d @ [c]) \<noteq> None}"
    have "works (?R []) (?loop names) (\<lambda>_. ?R (?names names))"
    proof (rule interrupted_fold_visited [where R = "\<lambda>visited _. ?R visited"])
      fix before c after and u :: unit
      assume "?names names = before @ c # after"
      then have "c \<in> set (?names names)" by simp
      with names have "f (?d @ [c]) \<noteq> None" by blast
      with ok have "plain_part c" by (auto simp: fs_ok_def)
      with n have child: "path_parts (path_join (path_dir n) c) = ?d @ [c]" by (simp add: parts_of_child)
      have "(\<lambda>q. if prefix (?d @ [c]) q then None else if \<exists>c \<in> set before. prefix (?d @ [c]) q then None else f q)
          = (\<lambda>q. if \<exists>c \<in> set (before @ [c]). prefix (?d @ [c]) q then None else f q)" by auto
      with child remove_all_works [of "\<lambda>q. if \<exists>c \<in> set before. prefix (?d @ [c]) q then None else f q" "?d @ [c]"]
      show "works (?R before) (perform (remove_all (path_parts (path_join (path_dir n) c)))) (\<lambda>_. ?R (before @ [c]))"
        unfolding child by (elim interrupted_weaken) simp_all
    qed
    then show "works (?R []) (?loop names) ?Q"
    proof (rule interrupted_weaken)
      fix s
      assume "?R (?names names) s"
      moreover have "f q = None" if "strict_prefix ?d q" "\<not> (\<exists>c \<in> set (?names names). prefix (?d @ [c]) q)" for q
      proof (rule ccontr)
        assume q: "f q \<noteq> None"
        from that(1) obtain c where c: "prefix (?d @ [c]) q" by (auto simp: below)
        with fs_ok_above [OF ok _ q, of "?d @ [c]"] q have "f (?d @ [c]) \<noteq> None"
          by (auto simp: is_dir_iff strict_prefix_def)
        with names have "c \<in> set (?names names)" by blast
        with c that(2) show False by blast
      qed
      ultimately show "?Q u s" for u by (auto simp: below fun_eq_iff)
    qed auto
  qed
qed

lemma whiteouts_work:
  assumes ok: "fs_ok f" and es: "list_all entry_safe es"
  shows "works (\<lambda>s. gm_get s = f) (fold_act whiteout_item es ()) (\<lambda>_ s. gm_get s = hidden es f)"
proof -
  have step: "works (\<lambda>s. gm_get s = hidden before f) (whiteout_item e u) (\<lambda>_ s. gm_get s = hidden (before @ [e]) f)"
    if "e \<in> set es" for before e u
  proof -
    let ?n = "en_name e" and ?base = "path_base (en_name e)" and ?g = "hidden before f"
    let ?target = "trim_prefix ?base ''.wh.''"
    from that es have n: "plain_name ?n" by (auto simp: list_all_iff entry_safe_def)
    have all: "hidden (before @ [e]) f = (\<lambda>q. if hides e q then None else ?g q)" by (auto simp: hidden_def fun_eq_iff)
    consider (opaque) "?base = ''.wh..wh..opq''" | (target) "?base \<noteq> ''.wh..wh..opq''" "prefix ''.wh.'' ?base"
      | (plain) "\<not> prefix ''.wh.'' ?base" by auto
    then show ?thesis
    proof cases
      case opaque
      then show ?thesis
        using opaque_works [OF hidden_ok [OF ok] n, of before]
        by (simp add: whiteout_item_def Let_def all hides_path_of [OF n])
    next
      case target
      have "plain_part ?target" if "?target \<noteq> []" "?target \<noteq> ''.''" "?target \<noteq> ''..''"
      proof -
        have "slash \<notin> set ?base" using n split_on_no_sep [of _ slash ?n] by (auto simp: base_plain split_on_ne)
        then have "slash \<notin> set ?target" using target by (auto simp: trim_prefix_def dest: in_set_dropD)
        with that show ?thesis by (simp add: plain_part_def)
      qed
      note child = parts_of_child [OF n this]
      show ?thesis
        using target remove_all_works [of ?g "parent_parts ?n @ [?target]"]
        by (auto simp: whiteout_item_def Let_def all hides_path_of [OF n] is_whiteout_def child
            intro!: interrupted_lift elim!: interrupted_weaken)
    next
      case plain
      then show ?thesis
        by (auto simp: whiteout_item_def Let_def all hides_path_of [OF n] is_whiteout_def intro!: interrupted_ret)
    qed
  qed
  show ?thesis
    by (rule interrupted_weaken [OF interrupted_fold_visited [where R = "\<lambda>before _ s. gm_get s = hidden before f" and I = "\<lambda>_. True"]])
      (use step in \<open>auto simp: hidden_def fun_eq_iff\<close>)
qed

subsection \<open>The entries of a layer\<close>

text \<open>Type and content of an entry are there; its mode and time may still be to be set.\<close>

definition shaped :: "entry \<Rightarrow> node option \<Rightarrow> bool" where
  "shaped e x \<longleftrightarrow> (if en_directory e then is_dir x else \<exists>m t. x = Some (File m t (en_data e)))"

definition installs :: "u64 \<Rightarrow> entry \<Rightarrow> lookup \<Rightarrow> lookup \<Rightarrow> bool" where
  "installs umask e f g \<longleftrightarrow> (\<forall>q. strict_prefix q (path_of e) \<longrightarrow> \<not> is_file (f q)) \<and> shaped e (g (path_of e))
     \<and> (\<forall>q. q \<noteq> path_of e \<longrightarrow> g q = (if strict_prefix q (path_of e) then Some (as_dir umask (f q))
          else if strict_prefix (path_of e) q \<and> \<not> en_directory e then None else f q))"

lemma prefix_butlast_iff: "p \<noteq> [] \<Longrightarrow> prefix q (butlast p) \<longleftrightarrow> strict_prefix q p"
  by (cases p rule: rev_cases) (auto simp: strict_prefix_def)

lemma install_file_works:
  assumes "plain_name (en_name e)"
  shows "works (\<lambda>s. gm_get s = f) (install_file umask crash e)
    (\<lambda>_ s. \<not> is_dir (f (path_of e)) \<and> (\<exists>m t. gm_get s = f(path_of e \<mapsto> File m t (en_data e))))"
proof -
  let ?p = "path_parts (en_name e)"
  have p: "?p = path_of e" using assms by (simp add: parts_plain path_of_def)
  let ?O = "\<lambda>s. \<not> is_dir (f ?p) \<and> (\<exists>m. gm_get s = f(?p \<mapsto> File m None []))"
  let ?W = "\<lambda>s. \<not> is_dir (f ?p) \<and> (\<exists>m t. gm_get s = f(?p \<mapsto> File m t (en_data e)))"
  have opened: "works (\<lambda>s. gm_get s = f) (perform (open_trunc umask ?p)) (\<lambda>_. ?O)"
    by (rule works_perform) (auto simp: open_trunc_def gm.get_put split: option.splits node.splits if_splits)
  have written: "works ?O (perform (write_bytes ?p (en_data e))) (\<lambda>_. ?W)"
    by (rule works_perform) (auto simp: write_bytes_def gm.get_put, rule exI, rule exI, rule refl)
  have sync: "works ?W (read_world (\<lambda>_. Inr ())) (\<lambda>_. ?W)" by (rule interrupted_read) auto
  have closed: "works (\<lambda>s. case r of Inl _ \<Rightarrow> True | Inr x \<Rightarrow> ?W s) (try_act (read_world (\<lambda>_. Inr ())))
      (\<lambda>_ s. case r of Inl _ \<Rightarrow> True | Inr x \<Rightarrow> ?W s)" for r :: "unit result"
    by (rule interrupted_weaken [OF interrupted_try [OF interrupted_read
          [where P = "\<lambda>s. case r of Inl _ \<Rightarrow> True | Inr x \<Rightarrow> ?W s" and I = "\<lambda>s. case r of Inl _ \<Rightarrow> True | Inr x \<Rightarrow> ?W s"
            and Q = "\<lambda>_ s. case r of Inl _ \<Rightarrow> True | Inr x \<Rightarrow> ?W s"]]]) (auto split: sum.splits)
  show ?thesis
    unfolding install_file_def Let_def fault_point_def p [symmetric]
    by (rule interrupted_then [OF opened], rule interrupted_then [OF works_try [OF interrupted_then [OF written sync]]],
        rule interrupted_then [OF closed], rule interrupted_then_lift, simp, rule interrupted_then_lift, simp, rule interrupted_lift)
      (auto split: sum.splits)
qed

lemma install_item_works:
  assumes ok: "fs_ok f" and n: "plain_name (en_name e)" and e: "\<not> is_whiteout (en_name e)"
  shows "works (\<lambda>s. gm_get s = f) (install_item umask crash e u) (\<lambda>_ s. installs umask e f (gm_get s))"
proof -
  let ?p = "path_of e"
  have p: "path_parts (en_name e) = ?p" "path_parts (path_dir (en_name e)) = butlast ?p" "?p \<noteq> []"
    using n by (simp_all add: parts_plain parts_of_dir path_of_def parent_parts_def split_on_ne)
  define f1 where "f1 = (\<lambda>q. if strict_prefix q ?p then Some (as_dir umask (f q)) else f q)"
  define cut where "cut = (\<lambda>q. if prefix ?p q then None else f1 q)"
  let ?clear = "\<forall>q. strict_prefix q ?p \<longrightarrow> \<not> is_file (f q)"
  have root: "\<not> is_file (f [])" "Some (as_dir umask (f [])) = f []" using ok by (auto simp: fs_ok_def is_dir_iff as_dir_def)
  have at: "f1 ?p = f ?p" "cut ?p = None" by (simp_all add: f1_def cut_def)
  have below: "f q = None" if "strict_prefix ?p q" "\<not> is_dir (f ?p)" for q
    using fs_ok_above [OF ok that(1)] that(2) by blast
  have parents: "works (\<lambda>s. gm_get s = f) (mkdir_all umask (butlast ?p)) (\<lambda>_ s. gm_get s = f1 \<and> ?clear)"
    by (rule interrupted_weaken [OF mkdir_all_works [of f]])
      (use p(3) root in \<open>auto simp: prefix_butlast_iff f1_def fun_eq_iff\<close>)
  have look: "works (\<lambda>s. gm_get s = f1) (try_act (perform (lstat ?p))) (\<lambda>r s. gm_get s = f1 \<and> (\<forall>n. r = Inr n \<longrightarrow> f ?p = Some n))"
    by (rule interrupted_weaken [OF interrupted_try [OF interrupted_perform
          [where P = "\<lambda>s. gm_get s = f1" and I = "\<lambda>s. gm_get s = f1" and Q = "\<lambda>n s. gm_get s = f1 \<and> f ?p = Some n"]]])
      (auto simp: lstat_def at(1) [symmetric] split: option.splits sum.splits)
  let ?J = "\<lambda>s. gm_get s = f1 \<or> gm_get s = cut \<and> is_dir (f ?p) \<noteq> en_directory e"
  have rm: "works (\<lambda>s. gm_get s = f1) (case r of Inl _ \<Rightarrow> ret ()
         | Inr n \<Rightarrow> if is_dir (Some n) \<noteq> en_directory e then perform (remove_all ?p) else ret ()) (\<lambda>_. ?J)"
    if "\<forall>n. r = Inr n \<longrightarrow> f ?p = Some n" for r :: "node result"
    using that
    by (auto split: sum.split intro!: interrupted_ret interrupted_weaken [OF remove_all_works [of f1 ?p]] simp: cut_def)
  have dirs: "works (\<lambda>s. gm_get s = h) (mkdir_all umask ?p) (\<lambda>_ s. installs umask e f (gm_get s))"
    if h: "h = f1 \<or> h = cut \<and> \<not> is_dir (f ?p)" and "?clear" "en_directory e" for h
  proof (rule interrupted_weaken [OF mkdir_all_works [of h]])
    fix s v
    assume s: "gm_get s = (\<lambda>q. if prefix q ?p \<and> q \<noteq> [] then Some (as_dir umask (h q)) else h q)
      \<and> (\<forall>q. prefix q ?p \<and> q \<noteq> [] \<longrightarrow> \<not> is_file (h q))"
    have "gm_get s q = (if strict_prefix q ?p then Some (as_dir umask (f q)) else f q)" if "q \<noteq> ?p" for q
      using s h that root below [of q] by (auto simp: f1_def cut_def strict_prefix_def dest: prefix_order.antisym)
    moreover have "is_dir (gm_get s ?p)" using s p(3) by (auto simp: is_dir_iff as_dir_def split: option.split node.split)
    ultimately show "installs umask e f (gm_get s)" using that by (simp add: installs_def shaped_def)
  qed auto
  have files: "works (\<lambda>s. gm_get s = h) (install_file umask crash e) (\<lambda>_ s. installs umask e f (gm_get s))"
    if h: "h = f1 \<or> h = cut" and "?clear" "\<not> en_directory e" for h
  proof (rule interrupted_weaken [OF install_file_works [OF n, of h]])
    fix s v
    assume s: "\<not> is_dir (h ?p) \<and> (\<exists>m t. gm_get s = h(?p \<mapsto> File m t (en_data e)))"
    have "gm_get s q = (if strict_prefix q ?p then Some (as_dir umask (f q)) else if strict_prefix ?p q then None else f q)" if "q \<noteq> ?p" for q
      using s h that below [of q] at by (auto simp: f1_def cut_def strict_prefix_def dest: prefix_order.antisym)
    with s that show "installs umask e f (gm_get s)" by (auto simp: installs_def shaped_def)
  qed auto
  show ?thesis
    unfolding install_item_def if_not_P [OF e] p
  proof (rule interrupted_then [OF parents], rule interrupted_pure, rule interrupted_then [OF look], rule interrupted_pure,
      rule interrupted_then [OF rm], blast)
    fix r :: "node result" and v w :: unit
    assume clear: ?clear
    show "works ?J (if en_directory e then mkdir_all umask ?p else install_file umask crash e) (\<lambda>_ s. installs umask e f (gm_get s))"
    proof (rule interrupted_assume)
      fix s
      assume s: "?J s"
      show "works ((=) s) (if en_directory e then mkdir_all umask ?p else install_file umask crash e) (\<lambda>_ s. installs umask e f (gm_get s))"
      proof (cases "en_directory e")
        case True
        with s have "gm_get s = f1 \<or> gm_get s = cut \<and> \<not> is_dir (f ?p)" by auto
        from interrupted_pre [OF dirs [OF this clear True], of "(=) s"] True show ?thesis by simp
      next
        case False
        with s have "gm_get s = f1 \<or> gm_get s = cut" by auto
        from interrupted_pre [OF files [OF this clear False], of "(=) s"] False show ?thesis by simp
      qed
    qed
  qed
qed

lemma installs_ok:
  assumes ok: "fs_ok f" and inst: "installs umask e f g" and n: "plain_name (en_name e)"
  shows "fs_ok g"
proof -
  let ?p = "path_of e"
  have p: "list_all plain_part ?p" "?p \<noteq> []" using n by (simp_all add: path_of_def plain_name_def split_on_ne)
  have at: "g q = (if strict_prefix q ?p then Some (as_dir umask (f q))
      else if strict_prefix ?p q \<and> \<not> en_directory e then None else f q)" if "q \<noteq> ?p" for q
    using inst that unfolding installs_def by blast
  have dirs: "is_dir (g q)" if "strict_prefix q ?p" for q
    using that at [of q] by (auto simp: is_dir_iff as_dir_def strict_prefix_def split: option.split node.split)
  have self: "en_directory e \<Longrightarrow> is_dir (g ?p)" using inst by (simp add: installs_def shaped_def)
  have "list_all plain_part q \<and> (q = [] \<or> is_dir (g (butlast q)))" if q: "g q \<noteq> None" for q
  proof (cases "prefix q ?p")
    case True
    have "list_all plain_part q" using True p(1) by (auto simp: prefix_def)
    moreover have "is_dir (g (butlast q))" if "q \<noteq> []"
      using that True by (intro dirs) (metis prefix_butlast_iff prefix_order.le_less_trans prefix_order.order_refl prefix_order.less_le_trans)
    ultimately show ?thesis by blast
  next
    case False
    then have "q \<noteq> ?p" "\<not> strict_prefix q ?p" by (auto simp: strict_prefix_def)
    with at [of q] q have fq: "f q \<noteq> None" and under: "strict_prefix ?p q \<Longrightarrow> en_directory e" by (auto split: if_splits)
    from ok fq have q': "list_all plain_part q" "q = [] \<or> is_dir (f (butlast q))" by (auto simp: fs_ok_def)
    moreover have "is_dir (g (butlast q))" if "q \<noteq> []"
    proof -
      have d: "is_dir (f (butlast q))" using q'(2) that by simp
      have "strict_prefix ?p q" if "prefix ?p (butlast q)" using that \<open>q \<noteq> []\<close> by (simp add: prefix_butlast_iff)
      then show ?thesis
        using at [of "butlast q"] d dirs [of "butlast q"] self under
        by (cases "butlast q = ?p") (auto simp: strict_prefix_def)
    qed
    ultimately show ?thesis by blast
  qed
  moreover have "is_dir (g [])" using dirs [of "[]"] p(2) by (simp add: strict_prefix_def)
  ultimately show ?thesis by (simp add: fs_ok_def)
qed

text \<open>What the entries of a layer make of a place that is not an entry itself.\<close>

definition covered :: "entry list \<Rightarrow> string list \<Rightarrow> bool" where
  "covered es p \<longleftrightarrow> list_ex (\<lambda>e. strict_prefix p (path_of e)) es"

definition replaced :: "entry list \<Rightarrow> string list \<Rightarrow> bool" where
  "replaced es p \<longleftrightarrow> list_ex (\<lambda>e. \<not> en_directory e \<and> strict_prefix (path_of e) p) es"

definition around :: "u64 \<Rightarrow> entry list \<Rightarrow> lookup \<Rightarrow> lookup" where
  "around umask es f p = (if covered es p then Some (as_dir umask (f p)) else if replaced es p then None else f p)"

definition installed :: "u64 \<Rightarrow> lookup \<Rightarrow> entry list \<Rightarrow> lookup \<Rightarrow> bool" where
  "installed umask f0 es f \<longleftrightarrow> (\<forall>e \<in> set es. shaped e (f (path_of e))) \<and> (\<forall>p. p \<notin> path_of ` set es \<longrightarrow> f p = around umask es f0 p)"

text \<open>An entry whose place is taken by a file of the same layer; its metadata cannot be set any more.\<close>

definition doomed :: "entry list \<Rightarrow> lookup \<Rightarrow> bool" where
  "doomed es f \<longleftrightarrow> (\<exists>e \<in> set es. \<exists>e' \<in> set es. \<not> en_directory e' \<and> strict_prefix (path_of e') (path_of e) \<and> is_file (f (path_of e')))"

lemma doomed_step:
  assumes "doomed es f" "installs umask x f g" "path_of x \<notin> path_of ` set es"
  shows "doomed (es @ [x]) g"
proof -
  from assms(1) obtain e e' where e: "e \<in> set es" "e' \<in> set es" "\<not> en_directory e'"
    "strict_prefix (path_of e') (path_of e)" "is_file (f (path_of e'))" unfolding doomed_def by blast
  from assms(3) e(2) have ne: "path_of e' \<noteq> path_of x" by (metis imageI)
  show ?thesis
  proof (cases "strict_prefix (path_of x) (path_of e') \<and> \<not> en_directory x")
    case True
    with e(4) have "strict_prefix (path_of x) (path_of e)" by (blast intro: prefix_order.less_trans)
    moreover have "is_file (g (path_of x))" using True assms(2) by (auto simp: installs_def shaped_def)
    ultimately show ?thesis using True e(1) unfolding doomed_def by auto
  next
    case False
    with assms(2) e(5) ne have "g (path_of e') = f (path_of e')" unfolding installs_def by auto
    with e show ?thesis unfolding doomed_def by (intro bexI [of _ e] bexI [of _ e'] conjI) simp_all
  qed
qed

lemma installed_step:
  assumes old: "installed umask f0 es f" and inst: "installs umask x f g" and new: "path_of x \<notin> path_of ` set es"
  shows "installed umask f0 (es @ [x]) g \<or> doomed (es @ [x]) g"
proof (cases "\<exists>e \<in> set es. strict_prefix (path_of x) (path_of e) \<and> \<not> en_directory x")
  case True
  moreover have "is_file (g (path_of x))" if "\<not> en_directory x" using inst that by (auto simp: installs_def shaped_def)
  ultimately show ?thesis unfolding doomed_def by auto
next
  case False
  have clear: "\<not> is_file (f q)" if "strict_prefix q (path_of x)" for q using inst that by (auto simp: installs_def)
  have at: "g q = (if strict_prefix q (path_of x) then Some (as_dir umask (f q))
      else if strict_prefix (path_of x) q \<and> \<not> en_directory x then None else f q)" if "q \<noteq> path_of x" for q
    using inst that unfolding installs_def by blast
  have old_at: "f q = around umask es f0 q" if "q \<notin> path_of ` set es" for q using old that by (simp add: installed_def)
  have shape: "shaped e (f (path_of e))" if "e \<in> set es" for e using old that by (simp add: installed_def)
  have "shaped e (g (path_of e))" if e: "e \<in> set es" for e
  proof -
    from e new have "path_of e \<noteq> path_of x" by (metis imageI)
    with at [of "path_of e"] shape [OF e] clear [of "path_of e"] False e show ?thesis
      by (auto simp: shaped_def is_dir_iff as_dir_def)
  qed
  moreover have "shaped x (g (path_of x))" using inst by (simp add: installs_def)
  moreover have "g p = around umask (es @ [x]) f0 p" if p: "p \<notin> path_of ` set (es @ [x])" for p
  proof -
    from p have "p \<noteq> path_of x" "p \<notin> path_of ` set es" by auto
    note g = at [OF this(1)] and f = old_at [OF this(2)]
    have "\<not> replaced es p" if "strict_prefix p (path_of x)"
    proof
      assume "replaced es p"
      then obtain e where e: "e \<in> set es" "\<not> en_directory e" "strict_prefix (path_of e) p"
        by (auto simp: replaced_def list_ex_iff)
      with that have "strict_prefix (path_of e) (path_of x)" by (blast intro: prefix_order.less_trans)
      from clear [OF this] shape [OF e(1)] e(2) show False by (auto simp: shaped_def)
    qed
    moreover have "\<not> covered es p" if "strict_prefix (path_of x) p" "\<not> en_directory x"
      using False that by (auto simp: covered_def list_ex_iff intro: prefix_order.less_trans)
    ultimately show ?thesis
      using g f by (auto simp: around_def covered_def replaced_def)
  qed
  ultimately show ?thesis by (simp add: installed_def)
qed

abbreviation contents :: "entry list \<Rightarrow> entry list" where
  "contents es \<equiv> filter (\<lambda>e. \<not> is_whiteout (en_name e)) es"

lemma path_of_inj: "path_of d = path_of e \<longleftrightarrow> en_name d = en_name e"
  by (metis path_of_def join_split)

lemma installs_work:
  assumes ok: "fs_ok f" and es: "list_all entry_safe es" "distinct (map en_name es)"
  shows "works (\<lambda>s. gm_get s = f) (fold_act (install_item umask crash) es ())
    (\<lambda>_ s. fs_ok (gm_get s) \<and> (installed umask f (contents es) (gm_get s) \<or> doomed (contents es) (gm_get s)))"
proof -
  let ?R = "\<lambda>vis s. fs_ok (gm_get s) \<and> (installed umask f (contents vis) (gm_get s) \<or> doomed (contents vis) (gm_get s))"
  have "works (?R before) (install_item umask crash e u) (\<lambda>_. ?R (before @ [e]))"
    if split: "es = before @ e # after" for before e after u
  proof (cases "is_whiteout (en_name e)")
    case True
    then show ?thesis by (auto simp: install_item_def intro!: interrupted_ret)
  next
    case False
    have n: "plain_name (en_name e)" using es(1) split by (simp add: entry_safe_def)
    have new: "path_of e \<notin> path_of ` set (contents before)" using es(2) split by (auto simp: path_of_inj)
    show ?thesis
    proof (rule interrupted_assume)
      fix s
      assume s: "?R before s"
      show "works ((=) s) (install_item umask crash e u) (\<lambda>_. ?R (before @ [e]))"
        by (rule interrupted_weaken [OF install_item_works [OF conjunct1 [OF s] n False, of umask crash u]])
          (use s False n new in \<open>auto intro: installs_ok dest: installed_step doomed_step\<close>)
    qed
  qed
  then show ?thesis
    by (intro interrupted_pre [OF interrupted_fold_visited [where R = "\<lambda>vis _. ?R vis" and I = "\<lambda>_. True"]])
      (use ok in \<open>auto simp: installed_def around_def covered_def replaced_def\<close>)
qed

subsection \<open>Modes and times\<close>

definition entry_node :: "entry \<Rightarrow> node" where
  "entry_node e = (if en_directory e then Dir (en_mode e) else File (en_mode e) (Some (en_modified e)) (en_data e))"

definition touches :: "entry \<Rightarrow> lookup \<Rightarrow> lookup \<Rightarrow> bool" where
  "touches e f g \<longleftrightarrow> f (path_of e) \<noteq> None \<and> (shaped e (f (path_of e)) \<longrightarrow> g = f(path_of e \<mapsto> entry_node e))
     \<and> (\<forall>q. q \<noteq> path_of e \<longrightarrow> g q = f q) \<and> g (path_of e) \<noteq> None
     \<and> is_file (g (path_of e)) = is_file (f (path_of e)) \<and> is_dir (g (path_of e)) = is_dir (f (path_of e))"

lemma set_metadata_works:
  assumes n: "plain_name (en_name e)" and e: "\<not> is_whiteout (en_name e)"
  shows "works (\<lambda>s. gm_get s = f) (set_metadata e u)
    (\<lambda>_ s. touches e f (gm_get s))"
proof -
  have p: "path_parts (en_name e) = path_of e" using n by (simp add: parts_plain path_of_def)
  let ?f = "\<lambda>x. case x of Some (Dir m) \<Rightarrow> Some (Dir (en_mode e)) | Some (File m t d) \<Rightarrow> Some (File (en_mode e) t d) | None \<Rightarrow> None"
  have mode: "works (\<lambda>s. gm_get s = f) (perform (chmod (path_of e) (en_mode e)))
      (\<lambda>_ s. f (path_of e) \<noteq> None \<and> gm_get s = f(path_of e := ?f (f (path_of e))))"
    by (rule works_perform) (auto simp: chmod_def gm.get_put split: option.splits node.splits)
  show ?thesis
    unfolding set_metadata_def if_not_P [OF e] p touches_def
    by (rule interrupted_then [OF mode], rule works_perform)
      (auto simp: chtimes_def gm.get_put shaped_def entry_node_def is_dir_iff split: option.splits node.splits if_splits)
qed

lemma same_kind_ok:
  "fs_ok f \<Longrightarrow> (\<And>q. is_dir (g q) = is_dir (f q)) \<Longrightarrow> (\<And>q. g q = None \<longleftrightarrow> f q = None) \<Longrightarrow> fs_ok g"
  by (simp add: fs_ok_def)

lemma touches_same:
  assumes "touches e f g"
  shows "is_dir (g q) = is_dir (f q)" "is_file (g q) = is_file (f q)" "g q = None \<longleftrightarrow> f q = None"
  using assms unfolding touches_def by metis+

lemma touches_ok: "touches e f g \<Longrightarrow> fs_ok f \<Longrightarrow> fs_ok g"
  by (rule same_kind_ok) (simp_all add: touches_same)

text \<open>With a doomed entry the loop cannot end: the call for that entry fails.\<close>

lemma metadata_doomed:
  assumes es: "list_all entry_safe es" and d: "e \<in> set (contents es)" "strict_prefix (path_of e') (path_of e)" "e' \<in> set es"
  shows "works (\<lambda>s. fs_ok (gm_get s) \<and> is_file (gm_get s (path_of e'))) (fold_act set_metadata (rev es) ()) (\<lambda>_ _. False)"
proof -
  let ?R = "\<lambda>vis s. fs_ok (gm_get s) \<and> is_file (gm_get s (path_of e')) \<and> e \<notin> set vis"
  have "works (?R before) (set_metadata x u) (\<lambda>_. ?R (before @ [x]))"
    if split: "rev es = before @ x # after" for before x after u
  proof (cases "is_whiteout (en_name x)")
    case True
    then show ?thesis using d(1) by (auto simp: set_metadata_def intro!: interrupted_ret)
  next
    case False
    from split have "x \<in> set es" by (metis in_set_conv_decomp set_rev)
    with es have n: "plain_name (en_name x)" by (auto simp: list_all_iff entry_safe_def)
    show ?thesis
    proof (rule interrupted_assume)
      fix s
      assume s: "?R before s"
      have gone: "gm_get s (path_of e) = None"
        using fs_ok_above [OF conjunct1 [OF s] d(2)] s by (cases "gm_get s (path_of e)") (auto simp: is_dir_iff)
      show "works ((=) s) (set_metadata x u) (\<lambda>_. ?R (before @ [x]))"
      proof (rule interrupted_weaken [OF set_metadata_works [OF n False, of "gm_get s" u]])
        fix v t
        assume t: "touches x (gm_get s) (gm_get t)"
        then have "fs_ok (gm_get t)" using s touches_ok by blast
        moreover have "e \<noteq> x" using t gone unfolding touches_def by metis
        moreover have "is_file (gm_get t (path_of e'))" using s touches_same(2) [OF t] by blast
        ultimately show "?R (before @ [x]) t" using s by simp
      qed auto
    qed
  qed
  then show ?thesis
    by (intro interrupted_weaken [OF interrupted_fold_visited [where R = "\<lambda>vis _. ?R vis" and I = "\<lambda>_. True"]])
      (use d(1) in auto)
qed

lemma metadata_works:
  assumes ok: "fs_ok f" and es: "list_all entry_safe es" "distinct (map en_name es)" and inst: "\<forall>e \<in> set (contents es). shaped e (f (path_of e))"
  shows "works (\<lambda>s. gm_get s = f) (fold_act set_metadata (rev es) ())
    (\<lambda>_ s. fs_ok (gm_get s) \<and> (\<forall>e \<in> set (contents es). gm_get s (path_of e) = Some (entry_node e))
      \<and> (\<forall>p. p \<notin> path_of ` set (contents es) \<longrightarrow> gm_get s p = f p))"
proof -
  let ?R = "\<lambda>vis s. fs_ok (gm_get s)
      \<and> (\<forall>e \<in> set (contents es). gm_get s (path_of e) = (if e \<in> set vis then Some (entry_node e) else f (path_of e)))
      \<and> (\<forall>p. p \<notin> path_of ` set (contents es) \<longrightarrow> gm_get s p = f p)"
  have inj: "path_of d \<noteq> path_of e" if "d \<in> set es" "e \<in> set es" "d \<noteq> e" for d e
    using es(2) that by (auto simp: path_of_inj distinct_map dest: inj_onD)
  have "works (?R before) (set_metadata x u) (\<lambda>_. ?R (before @ [x]))"
    if split: "rev es = before @ x # after" for before x after u
  proof (cases "is_whiteout (en_name x)")
    case True
    then show ?thesis by (auto simp: set_metadata_def intro!: interrupted_ret)
  next
    case False
    from split have x: "x \<in> set es" by (metis in_set_conv_decomp set_rev)
    with es(1) have n: "plain_name (en_name x)" by (auto simp: list_all_iff entry_safe_def)
    have "distinct (rev es)" using es(2) by (simp add: distinct_map)
    with split have new: "x \<notin> set before" by simp
    show ?thesis
    proof (rule interrupted_assume)
      fix s
      assume s: "?R before s"
      have now: "gm_get s (path_of x) = f (path_of x)" using s x False new by simp
      with inst x False have sh: "shaped x (gm_get s (path_of x))" by simp
      show "works ((=) s) (set_metadata x u) (\<lambda>_. ?R (before @ [x]))"
      proof (rule interrupted_weaken [OF set_metadata_works [OF n False, of "gm_get s" u]])
        fix v t
        assume t: "touches x (gm_get s) (gm_get t)"
        with sh have get: "gm_get t = (gm_get s)(path_of x \<mapsto> entry_node x)" unfolding touches_def by blast
        have "fs_ok (gm_get t)" using s t touches_ok by blast
        moreover have "gm_get t (path_of e) = (if e \<in> set (before @ [x]) then Some (entry_node e) else f (path_of e))"
          if e: "e \<in> set (contents es)" for e
        proof (cases "e = x")
          case False
          with e x inj [of e x] get have "gm_get t (path_of e) = gm_get s (path_of e)" by simp
          with s e False show ?thesis by simp
        qed (use get in simp)
        moreover have "gm_get t p = f p" if "p \<notin> path_of ` set (contents es)" for p
        proof -
          from that x False have "p \<noteq> path_of x" by auto
          with get s that show ?thesis by simp
        qed
        ultimately show "?R (before @ [x]) t" by blast
      qed auto
    qed
  qed
  then show ?thesis
    by (intro interrupted_weaken [OF interrupted_fold_visited [where R = "\<lambda>vis _. ?R vis" and I = "\<lambda>_. True"]])
      (use ok in auto)
qed

subsection \<open>The overlay\<close>

definition overlay :: "u64 \<Rightarrow> entry list \<Rightarrow> lookup \<Rightarrow> lookup" where
  "overlay umask es f p = (case find (\<lambda>e. path_of e = p) (contents es) of
     Some e \<Rightarrow> Some (entry_node e)
   | None \<Rightarrow> around umask (contents es) (hidden es f) p)"

lemma apply_layer_works:
  assumes ok: "fs_ok f" and es: "list_all entry_safe es" "distinct (map en_name es)"
  shows "works (\<lambda>s. gm_get s = f) (apply_layer umask crash es u) (\<lambda>_ s. fs_ok (gm_get s) \<and> gm_get s = overlay umask es f)"
  unfolding apply_layer_def
proof (rule interrupted_then [OF whiteouts_work [OF ok es(1)]],
    rule interrupted_then [OF installs_work [OF hidden_ok [OF ok] es]], rule interrupted_assume)
  fix s
  assume s: "fs_ok (gm_get s) \<and> (installed umask (hidden es f) (contents es) (gm_get s) \<or> doomed (contents es) (gm_get s))"
  let ?Q = "\<lambda>_ s. fs_ok (gm_get s) \<and> gm_get s = overlay umask es f"
  show "works ((=) s) (fold_act set_metadata (rev es) ()) ?Q"
  proof (cases "doomed (contents es) (gm_get s)")
    case True
    then obtain e e' where e: "e \<in> set (contents es)" "strict_prefix (path_of e') (path_of e)" "e' \<in> set es" "is_file (gm_get s (path_of e'))"
      by (auto simp: doomed_def)
    show ?thesis by (rule interrupted_weaken [OF metadata_doomed [OF es(1) e(1-3)]]) (use s e(4) in auto)
  next
    case False
    with s have inst: "installed umask (hidden es f) (contents es) (gm_get s)" by blast
    then have shapes: "\<forall>e \<in> set (contents es). shaped e (gm_get s (path_of e))" by (simp add: installed_def)
    show ?thesis
    proof (rule interrupted_weaken [OF metadata_works [OF conjunct1 [OF s] es shapes]])
      fix v t
      assume t: "fs_ok (gm_get t) \<and> (\<forall>e \<in> set (contents es). gm_get t (path_of e) = Some (entry_node e))
        \<and> (\<forall>p. p \<notin> path_of ` set (contents es) \<longrightarrow> gm_get t p = gm_get s p)"
      have "gm_get t p = overlay umask es f p" for p
      proof (cases "find (\<lambda>e. path_of e = p) (contents es)")
        case None
        then have "p \<notin> path_of ` set (contents es)" by (auto simp: find_None_iff)
        with None t inst show ?thesis by (simp add: overlay_def installed_def)
      next
        case (Some e)
        then have "e \<in> set (contents es)" "path_of e = p" by (auto simp: find_Some_iff simp del: set_filter)
        with Some t show ?thesis by (auto simp: overlay_def)
      qed
      with t show "?Q v t" by (simp add: fun_eq_iff)
    qed auto
  qed
qed

lemma applyLayers_works:
  assumes "fs_ok f" and "list_all layer_safe layers"
  shows "works (\<lambda>s. gm_get s = f) (applyLayers umask crash layers) (\<lambda>_ s. fs_ok (gm_get s) \<and> gm_get s = fold (overlay umask) layers f)"
  unfolding applyLayers_def
proof (rule interrupted_pre [OF interrupted_fold_visited
      [where R = "\<lambda>vis _ s. fs_ok (gm_get s) \<and> gm_get s = fold (overlay umask) vis f" and I = "\<lambda>_. True"]])
  fix before es after and u :: unit
  assume "layers = before @ es # after"
  with assms(2) have es: "list_all entry_safe es" "distinct (map en_name es)" by (simp_all add: layer_safe_def)
  show "works (\<lambda>s. fs_ok (gm_get s) \<and> gm_get s = fold (overlay umask) before f) (apply_layer umask crash es u)
    (\<lambda>_ s. fs_ok (gm_get s) \<and> gm_get s = fold (overlay umask) (before @ [es]) f)"
  proof (rule interrupted_assume)
    fix s
    assume s: "fs_ok (gm_get s) \<and> gm_get s = fold (overlay umask) before f"
    show "works ((=) s) (apply_layer umask crash es u) (\<lambda>_ s. fs_ok (gm_get s) \<and> gm_get s = fold (overlay umask) (before @ [es]) f)"
      by (rule interrupted_weaken [OF apply_layer_works [OF conjunct1 [OF s] es, of umask crash u]]) (use s in auto)
  qed
qed (use assms(1) in simp)

subsection \<open>The property\<close>

text \<open>C33. Extraction computes the overlay of the layers: if \<^const>\<open>applyLayers\<close> returns without an error on a well-formed
  filesystem and checked layers, then whatever calls failed on the way, the filesystem is the one that the reference
  computes from layer to layer: every entry is there with its type, mode, time and content, what the whiteouts of a
  layer hide is gone, missing parents are directories of mode \<^verbatim>\<open>0755\<close> less the umask, a file in the place of a
  directory has nothing below it, and everything else is as before.\<close>

theorem extraction_is_the_overlay:
  assumes "fs_ok (gm_get s)"
    and "list_all (\<lambda>es. list_all entry_safe es \<and> distinct (map en_name es)) layers"
    and "applyLayers umask crash layers (s, os) = (Inr u, (s', os'))"
  shows "gm_get s' = fold (overlay umask) layers (gm_get s) \<and> fs_ok (gm_get s')"
proof -
  have "list_all layer_safe layers" using assms(2) by (simp add: list_all_iff layer_safe_def)
  from interruptedD [OF applyLayers_works [OF assms(1) this] refl assms(3)] show ?thesis by auto
qed

definition ext_item :: "string \<Rightarrow> bool \<Rightarrow> u64 \<Rightarrow> string \<Rightarrow> entry" where
  "ext_item name d mode b = \<lparr>en_name = name, en_directory = d, en_mode = mode, en_data = b, en_modified = 7\<rparr>"

definition ext_layers :: "entry list list" where
  "ext_layers = [[ext_item ''bin'' True 365 [], ext_item ''bin/run'' False 493 ''v1'', ext_item ''opt'' False 420 ''x''],
     [ext_item ''bin/.wh.run'' False 420 [], ext_item ''etc/conf'' False 420 ''c'', ext_item ''opt'' True 448 []]]"

definition ext_start :: fs where
  "ext_start = [([], Dir 493), ([''lost+found''], Dir 448)]"

definition ext_end :: fs where
  "ext_end = [([], Dir 493), ([''bin''], Dir 365), ([''etc''], Dir 493), ([''etc'', ''conf''], File 420 (Some 7) ''c''),
     ([''lost+found''], Dir 448), ([''opt''], Dir 448)]"

text \<open>The first call, an \<^const>\<open>lstat\<close>, is refused; the run goes on.\<close>

lemma ext_run: "applyLayers 18 [] ext_layers (ext_start, [Refused ''EIO'']) = (Inr (), (ext_end, []))"
  by code_simp

lemma ext_start_ok: "fs_ok (gm_get ext_start)"
  by (auto simp: fs_ok_def ext_start_def plain_part_def split: if_splits)

theorem extraction_is_the_overlay_witness:
  "gm_get ext_end = fold (overlay 18) ext_layers (gm_get ext_start) \<and> fs_ok (gm_get ext_end)"
  by (rule extraction_is_the_overlay [OF ext_start_ok _ ext_run]) code_simp

end
