(* ===== verification/Prepare_Props.thy ===== *)
theory Prepare_Props
  imports Prepare Extract_Props
begin

section \<open>What a prepared operation rests on\<close>

text \<open>
  The machine is a parameter; \<open>machine_laws\<close> states what the properties rely on of LVM, mount and the filesystem.
  Then the extraction child: the tree it leaves is the overlay of the pinned layers with a marker that vouches for
  it. Then the whole operation: when it is registered, the image is sealed and carries such a marker, and the
  snapshot is the validated, writable and active volume whose UUID is in the table.
\<close>

subsection \<open>Actions on parts of the world\<close>

lemma works_focus:
  assumes "works P a Q" and "\<And>p w. get (put p w) = p"
  shows "works (\<lambda>w. P (get w)) (focus get put a) (\<lambda>x w. Q x (get w))"
proof (rule interruptedI)
  fix w os r w' os'
  assume "P (get w)" "focus get put a (w, os) = (r, w', os')"
  then obtain p where run: "a (get w, os) = (r, (p, os'))" and w': "w' = put p w"
    by (auto simp: focus_def split: prod.splits)
  have "get w' = p" by (simp add: w' assms(2))
  then show "case r of Inl _ \<Rightarrow> True | Inr x \<Rightarrow> Q x (get w')"
    using interruptedD [OF assms(1) \<open>P (get w)\<close> run] by (simp split: sum.splits)
qed

text \<open>What an action on one part leaves of the others.\<close>

lemma works_frame:
  assumes "works P (focus get put a) Q" and "\<And>p w. other (put p w) = other w"
  shows "works (\<lambda>w. P w \<and> F (other w)) (focus get put a) (\<lambda>x w. Q x w \<and> F (other w))"
proof (rule interruptedI)
  fix w os r w' os'
  assume pre: "P w \<and> F (other w)" and run: "focus get put a (w, os) = (r, w', os')"
  then obtain p where "w' = put p w" by (auto simp: focus_def split: prod.splits)
  with interruptedD [OF assms(1) conjunct1 [OF pre] run] pre assms(2) show "case r of Inl _ \<Rightarrow> True | Inr x \<Rightarrow> Q x w' \<and> F (other w')"
    by (auto split: sum.splits)
qed

lemma works_or_failed: "works P a Q \<Longrightarrow> works P (or_failed k a) Q"
  unfolding interrupted_def or_failed_def by (fastforce split: prod.splits sum.splits if_splits)

text \<open>An action of the host, with a condition \<open>F\<close> on the rest of the world.\<close>

lemma works_on_host:
  assumes "works P a Q"
  shows "works (\<lambda>w. P (ww_host w) \<and> F (ww_image w) (ww_ops w)) (on_host a) (\<lambda>x w. Q x (ww_host w) \<and> F (ww_image w) (ww_ops w))"
proof -
  have "works (\<lambda>w. P (ww_host w)) (on_host a) (\<lambda>x w. Q x (ww_host w))"
    unfolding on_host_def by (rule works_focus [OF assms]) simp
  from works_frame [OF this [unfolded on_host_def], where other = "\<lambda>w. (ww_image w, ww_ops w)" and F = "\<lambda>(i, d). F i d"]
  show ?thesis unfolding on_host_def by simp
qed

lemma works_fault: "works P (fault_point crash point) (\<lambda>_. P)"
  unfolding fault_point_def by (rule interrupted_lift) (auto split: sum.splits)

subsection \<open>The digest of a tree and its marker\<close>

definition marker_key :: "string list" where
  "marker_key = [''.edgelab-image.json'']"

fun item_of :: "node \<Rightarrow> tree_item" where
  "item_of (Dir m) = TreeDir m"
| "item_of (File m t b) = TreeFile m b"

text \<open>What the walk over a filesystem visits.\<close>

definition walk_of :: "fs \<Rightarrow> (string list \<times> tree_item) list" where
  "walk_of f = map (\<lambda>(p, n). (p, item_of n)) f"

text \<open>The digest does not see the marker.\<close>

lemma tree_records_marker:
  "tree_records sha (filter (\<lambda>(p, i). p \<noteq> marker_key) walk) records = tree_records sha walk records"
proof (induction sha walk records rule: tree_records.induct)
  case (2 sha p item rest records)
  show ?case
  proof (cases "p = [''lost+found'']")
    case True
    have "filter (\<lambda>(q, i). \<not> prefix [''lost+found''] q) (filter (\<lambda>(p, i). p \<noteq> marker_key) rest)
        = filter (\<lambda>(p, i). p \<noteq> marker_key) (filter (\<lambda>(q, i). \<not> prefix [''lost+found''] q) rest)"
      by (simp add: filter_filter conj_commute split_beta)
    with 2 True show ?thesis by (auto simp: marker_key_def split: tree_item.splits)
  next
    case False
    with 2 show ?thesis by (auto simp: marker_key_def split: tree_item.splits)
  qed
qed simp

lemma digest_without_marker:
  "treeDigest sha (filter (\<lambda>(p, i). p \<noteq> marker_key) walk) = treeDigest sha walk"
  by (simp add: treeDigest_def tree_records_marker)

lemma del_put: "gm_del k (gm_put k v m) = gm_del k m"
  by (induction m) (auto simp: gm_del_def)

lemma del_absent: "gm_get m k = None \<Longrightarrow> gm_del k m = m"
  by (induction m) (auto simp: gm_del_def split: if_splits)

lemma walk_without: "filter (\<lambda>(p, i). p \<noteq> k) (walk_of f) = walk_of (gm_del k f)"
  by (induction f) (auto simp: walk_of_def gm_del_def)

lemma digest_put_marker: "treeDigest sha (walk_of (gm_put marker_key n f)) = treeDigest sha (walk_of f)"
  by (metis del_put digest_without_marker walk_without)

text \<open>A durable file in the root adds that file and nothing else.\<close>

lemma put_put_node: "gm_put (k :: string list) v (gm_put k u m) = gm_put k v m"
  by (induction m) auto

lemma durable_at_works:
  assumes name: "\<not> is_pending name"
  shows "works (\<lambda>s. s = f) (durable_at umask xs name content) (\<lambda>_ s. \<exists>m. s = gm_put [name] (File m None content) f)"
proof -
  let ?free = "\<lambda>tmp. gm_get f [tmp] = None \<and> is_pending tmp"
  let ?T = "\<lambda>tmp s. ?free tmp \<and> (\<exists>m. s = gm_put [tmp] (File m None []) f)"
  let ?W = "\<lambda>tmp s. ?free tmp \<and> (\<exists>m. s = gm_put [tmp] (File m None content) f)"
  let ?Q = "\<lambda>s. \<exists>m. s = gm_put [name] (File m None content) f"
  let ?R = "\<lambda>tmp s. ?free tmp \<and> ?Q s"
  have temp: "works (\<lambda>s. s = f) (perform (temp_at umask xs)) ?T"
  proof (rule works_perform, clarify)
    fix tmp
    assume ok: "fst (temp_at umask xs f) = Inr tmp"
    show "?T tmp (snd (temp_at umask xs f))"
    proof (cases "find (\<lambda>x. gm_get f [''.pending-'' @ x] = None) xs")
      case None
      with ok show ?thesis by (simp add: temp_at_def)
    next
      case (Some x)
      then have "gm_get f [''.pending-'' @ x] = None" by (auto simp only: find_Some_iff)
      moreover from Some ok have "tmp = ''.pending-'' @ x" by (simp add: temp_at_def)
      ultimately show ?thesis using Some by (auto simp: temp_at_def is_pending_def)
    qed
  qed
  have put: "works (?T tmp) (perform (write_bytes [tmp] content)) (\<lambda>_. ?W tmp)" for tmp
    by (rule works_perform) (auto simp: write_bytes_def gm.get_put put_put_node)
  have idle: "works (?W tmp) (read_world (\<lambda>_. Inr ())) (\<lambda>_. ?W tmp)" for tmp by (rule interrupted_read) auto
  have ren: "works (?W tmp) (perform (rename_at tmp name)) (\<lambda>_. ?R tmp)" for tmp
    by (rule works_perform) (auto simp: rename_at_def gm.get_put del_put del_absent split: option.splits if_splits)
  have fin: "works (?R tmp) (read_world (\<lambda>_. Inr ())) (\<lambda>_. ?R tmp)" for tmp by (rule interrupted_read) auto
  have write_all: "works (?T tmp) (act_then (perform (write_bytes [tmp] content)) (\<lambda>_.
       act_then (read_world (\<lambda>_. Inr ())) (\<lambda>_. act_then (read_world (\<lambda>_. Inr ())) (\<lambda>_.
       act_then (perform (rename_at tmp name)) (\<lambda>_. read_world (\<lambda>_. Inr ())))))) (\<lambda>_. ?R tmp)" for tmp
    by (rule interrupted_then [OF put], rule interrupted_then [OF idle], rule interrupted_then [OF idle],
        rule interrupted_then [OF ren], rule fin)
  have rm: "works (?R tmp) (try_act (perform (remove_at tmp))) (\<lambda>_. ?R tmp)" for tmp
  proof -
    have "interrupted (?R tmp) (perform (remove_at tmp)) (\<lambda>_. ?R tmp) (?R tmp)"
      using name by (intro interrupted_perform) (auto simp: remove_at_def gm.get_put split: if_splits)
    from interrupted_try [OF this] show ?thesis by (rule interrupted_weaken) (auto split: sum.splits)
  qed
  show ?thesis
    unfolding durable_at_def
  proof (rule interrupted_then [OF temp], rule interrupted_then [OF works_try [OF write_all]])
    show "works (\<lambda>s. case res of Inl _ \<Rightarrow> True | Inr x \<Rightarrow> ?R tmp s) (act_then (try_act (perform (remove_at tmp))) (\<lambda>_. lift_result res)) (\<lambda>_. ?Q)"
      for tmp and res :: "unit result"
    proof (cases res)
      case (Inl e)
      show ?thesis unfolding Inl
        by (rule interrupted_then [where R = "\<lambda>_ _. True"]) (auto simp: interrupted_def split: sum.splits)
    next
      case (Inr u)
      show ?thesis unfolding Inr sum.case by (rule interrupted_then [OF rm], rule interrupted_lift) auto
    qed
  qed
qed

subsection \<open>What is relied on of the machine\<close>

text \<open>
  How a machine is observed: the volume of a name as \<^verbatim>\<open>lvs\<close> would report it, the tree stored on a volume and the
  filesystem that a process finds there, the volume mounted at a path, and where \<^verbatim>\<open>readlink -f\<close> leads.
\<close>

record 'h view =
  vw_volume :: "'h \<Rightarrow> string \<Rightarrow> volume option"
  vw_tree :: "'h \<Rightarrow> string \<Rightarrow> (string list \<times> tree_item) list"
  vw_fs :: "'h \<Rightarrow> string \<Rightarrow> fs"
  vw_mounted :: "'h \<Rightarrow> string \<Rightarrow> string option"
  vw_canon :: "string \<Rightarrow> string"

definition attr_at :: "nat \<Rightarrow> volume \<Rightarrow> char option" where
  "attr_at k v = (if k < length (vl_attr v) then Some (vl_attr v ! k) else None)"

type_synonym core = "(string \<times> string \<times> string \<times> string \<times> string) \<times> char option \<times> char option"

text \<open>Of a volume: its identity, its permission and its state. Fill levels and open counts come and go.\<close>

definition core :: "volume \<Rightarrow> core" where
  "core v = ((vl_uuid v, vl_tags v, vl_pool v, vl_origin v, vl_size v), attr_at 1 v, attr_at 4 v)"

definition core_at :: "'h view \<Rightarrow> 'h \<Rightarrow> string \<Rightarrow> core option" where
  "core_at vw h n = map_option core (vw_volume vw h n)"

definition same_but :: "'h view \<Rightarrow> string set \<Rightarrow> 'h \<Rightarrow> 'h \<Rightarrow> bool" where
  "same_but vw N h h' \<longleftrightarrow> (\<forall>n. n \<notin> N \<longrightarrow> core_at vw h' n = core_at vw h n \<and> vw_tree vw h' n = vw_tree vw h n
     \<and> vw_fs vw h' n = vw_fs vw h n)"

definition lvchange_effect :: "string list \<Rightarrow> core \<Rightarrow> core" where
  "lvchange_effect flags c = (case c of (i, p, a) \<Rightarrow>
     if flags = [''-pr''] then (i, Some CHR ''r'', a) else if flags = [''-prw''] then (i, Some CHR ''w'', a) else (i, p, Some CHR ''a''))"

definition reader_commands :: "string list" where
  "reader_commands = [''lvs'', ''losetup'', ''findmnt'', ''readlink'', ''blkid'']"

text \<open>Commands that only look, and making a directory, change nothing that is observed here.\<close>

definition reading_laws :: "('h, 'f) machine \<Rightarrow> codec \<Rightarrow> 'h view \<Rightarrow> bool" where
  "reading_laws t cd vw \<longleftrightarrow>
     (\<forall>argv h r h'. argv \<noteq> [] \<and> hd argv \<in> set reader_commands \<and> mc_run t argv h = (r, h') \<longrightarrow>
        same_but vw {} h h' \<and> vw_mounted vw h' = vw_mounted vw h)
     \<and> (\<forall>path h r h'. mc_mkdir t path h = (r, h') \<longrightarrow> same_but vw {} h h' \<and> vw_mounted vw h' = vw_mounted vw h)
     \<and> (\<forall>(s :: 'f storage) h text h' n. mc_run t (lvs_args s) h = (Inr text, h') \<longrightarrow> find_volume cd n text = Inr (vw_volume vw h' n))
     \<and> (\<forall>path h source h'. mc_run t [''readlink'', ''-f'', path] h = (Inr source, h') \<longrightarrow> source = vw_canon vw path)
     \<and> (\<forall>path h source h' n. mc_run t [''findmnt'', ''--noheadings'', ''--mountpoint'', path, ''-o'', ''SOURCE''] h = (Inr source, h')
        \<and> vw_canon vw source = vw_canon vw (volume_path n) \<longrightarrow> vw_mounted vw h' path = Some n)"

text \<open>Mounting does not change a tree; what is mounted at a path is what is seen and written there.\<close>

definition mounting_laws :: "('h, 'f) machine \<Rightarrow> codec \<Rightarrow> 'h view \<Rightarrow> bool" where
  "mounting_laws t cd vw \<longleftrightarrow>
     (\<forall>options n path h r h'. mc_run t [''mount'', ''-o'', options, volume_path n, path] h = (r, h') \<longrightarrow>
        same_but vw {} h h' \<and> (case r of Inl _ \<Rightarrow> True | Inr _ \<Rightarrow> vw_mounted vw h' path = Some n))
     \<and> (\<forall>path h r h'. mc_run t [''umount'', path] h = (r, h') \<longrightarrow> same_but vw {} h h')
     \<and> (\<forall>path h n. vw_mounted vw h path = Some n \<longrightarrow> mc_walk t path h = vw_tree vw h n \<and> mc_fs t path h = vw_fs vw h n
        \<and> (\<forall>b. mc_read t (path_join path ''.edgelab-image.json'') h = Inr b \<longrightarrow> (\<exists>m. (marker_key, TreeFile m b) \<in> set (vw_tree vw h n)))
        \<and> (\<forall>f. vw_tree vw (mc_put_fs t path f h) n = walk_of f \<and> vw_fs vw (mc_put_fs t path f h) n = f
           \<and> same_but vw {n} h (mc_put_fs t path f h) \<and> core_at vw (mc_put_fs t path f h) n = core_at vw h n
           \<and> vw_mounted vw (mc_put_fs t path f h) = vw_mounted vw h))"

text \<open>Commands on one volume leave the others alone.\<close>

definition volume_laws :: "('h, 'f) machine \<Rightarrow> codec \<Rightarrow> 'h view \<Rightarrow> bool" where
  "volume_laws t cd vw \<longleftrightarrow>
     (\<forall>n h x h'. mc_run t [''mkfs.ext4'', ''-q'', ''-F'', volume_path n] h = (Inr x, h') \<longrightarrow>
        same_but vw {n} h h' \<and> core_at vw h' n = core_at vw h n)
     \<and> (\<forall>device flags n h x h'. flags \<in> {[''-pr''], [''-prw''], [''-ay'', ''-K'']}
        \<and> mc_run t ([''lvchange'', ''--devices'', device] @ flags @ [''edgelab_worker/'' @ n]) h = (Inr x, h') \<longrightarrow>
        same_but vw {n} h h' \<and> vw_tree vw h' n = vw_tree vw h n \<and> core_at vw h' n = map_option (lvchange_effect flags) (core_at vw h n))
     \<and> (\<forall>(s :: 'f storage) n tag origin h x h'. mc_run t (create_args s n tag origin) h = (Inr x, h') \<longrightarrow> same_but vw {n} h h')"

definition machine_laws :: "('h, 'f) machine \<Rightarrow> codec \<Rightarrow> 'h view \<Rightarrow> bool" where
  "machine_laws t cd vw \<longleftrightarrow> reading_laws t cd vw \<and> mounting_laws t cd vw \<and> volume_laws t cd vw"

text \<open>The JSON decoder reads back the marker that the encoder wrote.\<close>

definition marker_law :: "codec \<Rightarrow> string \<Rightarrow> bool" where
  "marker_law cd img \<longleftrightarrow> (\<forall>x. cd_json cd (marker_text img (digest (cd_sha cd) x)) =
     Inr (JObj [(''manifest'', JStr img), (''tree'', JStr (digest (cd_sha cd) x))]))"

subsection \<open>Contracts of the storage operations\<close>

text \<open>A condition that changes of the volumes \<open>N\<close> cannot touch, and one that mounts cannot either.\<close>

definition apart :: "'h view \<Rightarrow> string set \<Rightarrow> ('h \<Rightarrow> bool) \<Rightarrow> bool" where
  "apart vw N K \<longleftrightarrow> (\<forall>h h'. same_but vw N h h' \<and> K h \<longrightarrow> K h')"

definition steady :: "'h view \<Rightarrow> ('h \<Rightarrow> bool) \<Rightarrow> bool" where
  "steady vw K \<longleftrightarrow> (\<forall>h h'. same_but vw {} h h' \<and> vw_mounted vw h' = vw_mounted vw h \<and> K h \<longrightarrow> K h')"

lemma same_but_mono: "same_but vw M h h' \<Longrightarrow> M \<subseteq> N \<Longrightarrow> same_but vw N h h'"
  by (auto simp: same_but_def)

lemma apart_mono: "apart vw N K \<Longrightarrow> M \<subseteq> N \<Longrightarrow> apart vw M K"
  unfolding apart_def by (meson same_but_mono)

lemma apart_steady: "apart vw {} K \<Longrightarrow> steady vw K"
  by (auto simp: apart_def steady_def)

lemma apart_conj: "apart vw N K \<Longrightarrow> apart vw N L \<Longrightarrow> apart vw N (\<lambda>h. K h \<and> L h)"
  unfolding apart_def by blast

lemma steady_mounted: "steady vw K \<Longrightarrow> steady vw (\<lambda>h. K h \<and> vw_mounted vw h path = m)"
  unfolding steady_def by fastforce

lemma reader_law:
  "machine_laws t cd vw \<Longrightarrow> argv \<noteq> [] \<Longrightarrow> hd argv \<in> set reader_commands
    \<Longrightarrow> same_but vw {} h (snd (mc_run t argv h)) \<and> vw_mounted vw (snd (mc_run t argv h)) = vw_mounted vw h"
  unfolding machine_laws_def reading_laws_def by (cases "mc_run t argv h") simp

lemma steadyD: "steady vw K \<Longrightarrow> K h \<Longrightarrow> same_but vw {} h h' \<and> vw_mounted vw h' = vw_mounted vw h \<Longrightarrow> K h'"
  unfolding steady_def by blast

lemma reader_keeps:
  assumes "machine_laws t cd vw" "steady vw K" "hd argv \<in> set reader_commands" "argv \<noteq> []"
  shows "interrupted K (run_command t argv) (\<lambda>_. K) K"
  unfolding run_command_def
  by (rule interrupted_perform) (use steadyD [OF assms(2) _ reader_law [OF assms(1,4,3)]] in auto)

lemma mkdir_keeps:
  assumes "machine_laws t cd vw" "steady vw K"
  shows "interrupted K (perform (mc_mkdir t path)) (\<lambda>_. K) K"
proof -
  have law: "same_but vw {} h (snd (mc_mkdir t path h)) \<and> vw_mounted vw (snd (mc_mkdir t path h)) = vw_mounted vw h" for h
    using assms(1) unfolding machine_laws_def reading_laws_def by (cases "mc_mkdir t path h") simp
  show ?thesis by (rule interrupted_perform) (use steadyD [OF assms(2) _ law] in auto)
qed

lemma lvs_law:
  fixes t :: "('h, 'f) machine" and s :: "'f storage"
  shows "machine_laws t cd vw \<Longrightarrow> mc_run t (lvs_args s) h = (Inr out, h') \<Longrightarrow> find_volume cd n out = Inr (vw_volume vw h' n)"
  by (simp add: machine_laws_def reading_laws_def)

lemma lvs_finds:
  assumes laws: "machine_laws t cd vw" and K: "steady vw K"
  shows "works K (inspect t cd s n) (\<lambda>found h. K h \<and> found = vw_volume vw h n)"
proof -
  have "works K (run_command t (lvs_args s)) (\<lambda>out h. K h \<and> find_volume cd n out = Inr (vw_volume vw h n))"
    unfolding run_command_def
  proof (rule works_perform)
    fix h out
    assume "K h" and ok: "fst (mc_run t (lvs_args s) h) = Inr out"
    have "hd (lvs_args s) \<in> set reader_commands" "lvs_args s \<noteq> []" by (simp_all add: lvs_args_def reader_commands_def)
    with \<open>K h\<close> have "K (snd (mc_run t (lvs_args s) h))" using steadyD [OF K] reader_law [OF laws] by blast
    moreover have "find_volume cd n out = Inr (vw_volume vw (snd (mc_run t (lvs_args s) h)) n)"
      by (rule lvs_law [OF laws, of s h]) (simp add: ok [symmetric])
    ultimately show "K (snd (mc_run t (lvs_args s) h)) \<and> find_volume cd n out = Inr (vw_volume vw (snd (mc_run t (lvs_args s) h)) n)" ..
  qed
  then show ?thesis unfolding inspect_def by (rule interrupted_then) (rule interrupted_lift, simp split: sum.splits)
qed

lemma capacity_keeps:
  assumes "machine_laws t cd vw" "steady vw K"
  shows "works K (capacity t cd s n) (\<lambda>_. K)"
  unfolding capacity_def
  by (rule interrupted_then [OF lvs_finds [OF assms]], rule interrupted_then_lift, simp, rule interrupted_then_lift, simp, rule interrupted_lift)
    (simp split: sum.splits)

text \<open>A volume of the validated identity with its permission and state.\<close>

definition has_volume :: "('h, 'f) machine \<Rightarrow> 'h view \<Rightarrow> string \<Rightarrow> string \<Rightarrow> string \<Rightarrow> (string \<Rightarrow> char option \<Rightarrow> char option \<Rightarrow> bool) \<Rightarrow> 'h \<Rightarrow> bool" where
  "has_volume t vw n tag org P h \<longleftrightarrow> (\<exists>v. vw_volume vw h n = Some v \<and> validate t v tag org = Inr () \<and> P (vl_uuid v) (attr_at 1 v) (attr_at 4 v))"

lemma validate_core:
  assumes "core v = core v'"
  shows "validate t v tag org = validate t v' tag org"
proof -
  have "vl_tags v = vl_tags v'" "vl_pool v = vl_pool v'" "vl_origin v = vl_origin v'" "vl_size v = vl_size v'"
    using assms by (simp_all add: core_def)
  then show ?thesis by (simp only: validate_def)
qed

lemma has_volume_core:
  assumes "core_at vw h' n = core_at vw h n" "has_volume t vw n tag org P h"
  shows "has_volume t vw n tag org P h'"
proof -
  from assms(2) obtain v where v: "vw_volume vw h n = Some v" "validate t v tag org = Inr ()" "P (vl_uuid v) (attr_at 1 v) (attr_at 4 v)"
    by (auto simp: has_volume_def)
  with assms(1) obtain v' where v': "vw_volume vw h' n = Some v'" "core v' = core v" by (auto simp: core_at_def)
  then have "vl_uuid v' = vl_uuid v" "attr_at 1 v' = attr_at 1 v" "attr_at 4 v' = attr_at 4 v" by (simp_all add: core_def)
  with v v'(1) validate_core [OF v'(2), of t tag org] show ?thesis by (auto simp: has_volume_def)
qed

lemma apart_volume: "n \<notin> N \<Longrightarrow> apart vw N (has_volume t vw n tag org P)"
  unfolding apart_def same_but_def using has_volume_core by metis

lemma apart_tree: "n \<notin> N \<Longrightarrow> apart vw N (\<lambda>h. P (vw_tree vw h n))"
  unfolding apart_def same_but_def by simp

lemma apartD: "apart vw N K \<Longrightarrow> K h \<Longrightarrow> same_but vw N h h' \<Longrightarrow> K h'"
  unfolding apart_def by blast

lemma create_makes:
  assumes laws: "machine_laws t cd vw" and K: "apart vw {n} K"
  shows "works K (create t cd s n tag org) (\<lambda>v h. K h \<and> vw_volume vw h n = Some v \<and> validate t v tag org = Inr ())"
proof -
  let ?Q = "\<lambda>v h. K h \<and> vw_volume vw h n = Some v \<and> validate t v tag org = Inr ()"
  have st: "steady vw K" by (rule apart_steady [OF apart_mono [OF K]]) simp
  have made: "works K (run_command t (create_args s n tag org)) (\<lambda>_. K)"
    unfolding run_command_def
  proof (rule works_perform)
    fix h x
    assume "K h" "fst (mc_run t (create_args s n tag org) h) = Inr x"
    moreover from this(2) have "same_but vw {n} h (snd (mc_run t (create_args s n tag org) h))"
      using laws unfolding machine_laws_def volume_laws_def
      by (cases "mc_run t (create_args s n tag org) h") simp
    ultimately show "K (snd (mc_run t (create_args s n tag org) h))" using apartD [OF K] by blast
  qed
  show ?thesis
    unfolding create_def
  proof (rule interrupted_then [OF lvs_finds [OF laws st]], rule interrupted_assume)
    fix found h
    assume h: "K h \<and> found = vw_volume vw h n"
    show "works ((=) h) (case found of
       Some v \<Rightarrow> act_then (lift_result (validate t v tag org)) (\<lambda>_. ret v)
     | None \<Rightarrow>
       act_then (capacity t cd s (64 * 2 ^ 20)) (\<lambda>_.
       act_then (run_command t (create_args s n tag org)) (\<lambda>_.
       act_then (inspect t cd s n) (\<lambda>found.
       act_then (lift_result (must_exist found)) (\<lambda>v.
       act_then (lift_result (validate t v tag org)) (\<lambda>_. ret v)))))) ?Q"
    proof (cases found)
      case (Some v)
      show ?thesis unfolding Some option.case
        by (rule interrupted_then_lift, simp, rule interrupted_ret) (use h Some in auto)
    next
      case None
      show ?thesis unfolding None option.case
        by (rule interrupted_then [OF interrupted_pre [OF capacity_keeps [OF laws st]]], use h in simp,
            rule interrupted_then [OF made], rule interrupted_then [OF lvs_finds [OF laws st]],
            rule interrupted_then_lift, simp, rule interrupted_then_lift, simp, rule interrupted_ret)
          (auto simp: must_exist_def split: option.splits)
    qed
  qed
qed

lemma readlink_reads:
  assumes laws: "machine_laws t cd vw" and K: "steady vw K"
  shows "interrupted K (run_command t [''readlink'', ''-f'', path]) (\<lambda>x h. K h \<and> x = vw_canon vw path) K"
proof (rule interruptedI)
  fix h os r h' os'
  assume h: "K h" and run: "run_command t [''readlink'', ''-f'', path] (h, os) = (r, (h', os'))"
  have "case r of Inl _ \<Rightarrow> K h' | Inr x \<Rightarrow> K h'"
    by (rule interruptedD [OF reader_keeps [OF laws K] h run]) (simp_all add: reader_commands_def)
  moreover have "x = vw_canon vw path" if "r = Inr x" for x
  proof -
    from run that have "fst (mc_run t [''readlink'', ''-f'', path] h) = Inr x"
      unfolding run_command_def by (cases "(mc_run t [''readlink'', ''-f'', path], (h, os))" rule: perform.cases) auto
    then have "mc_run t [''readlink'', ''-f'', path] h = (Inr x, snd (mc_run t [''readlink'', ''-f'', path] h))" by (metis prod.collapse)
    with laws show ?thesis unfolding machine_laws_def reading_laws_def by blast
  qed
  ultimately show "case r of Inl _ \<Rightarrow> K h' | Inr x \<Rightarrow> K h' \<and> x = vw_canon vw path" by (auto split: sum.splits)
qed

abbreviation findmnt_source :: "string \<Rightarrow> string list" where
  "findmnt_source path \<equiv> [''findmnt'', ''--noheadings'', ''--mountpoint'', path, ''-o'', ''SOURCE'']"

definition mounted_from :: "'h view \<Rightarrow> string \<Rightarrow> string \<Rightarrow> 'h \<Rightarrow> bool" where
  "mounted_from vw path source h \<longleftrightarrow> (\<forall>n. vw_canon vw source = vw_canon vw (volume_path n) \<longrightarrow> vw_mounted vw h path = Some n)"

lemma steady_mounted_from: "steady vw K \<Longrightarrow> steady vw (\<lambda>h. K h \<and> mounted_from vw path source h)"
  unfolding steady_def mounted_from_def by fastforce

lemma findmnt_finds:
  assumes laws: "machine_laws t cd vw" and K: "steady vw K"
  shows "interrupted K (run_command t (findmnt_source path)) (\<lambda>source h. K h \<and> mounted_from vw path source h) K"
proof -
  have reader: "hd (findmnt_source path) \<in> set reader_commands" "findmnt_source path \<noteq> []" by (simp_all add: reader_commands_def)
  have keep: "K (snd (mc_run t (findmnt_source path) h))" if "K h" for h
    by (rule steadyD [OF K that reader_law [OF laws reader(2,1)]])
  show ?thesis
    unfolding run_command_def
  proof (rule interrupted_perform)
    fix h source
    assume "K h" and "fst (mc_run t (findmnt_source path) h) = Inr source"
    moreover from this(2) have "mc_run t (findmnt_source path) h = (Inr source, snd (mc_run t (findmnt_source path) h))" by (metis prod.collapse)
    then have "mounted_from vw path source (snd (mc_run t (findmnt_source path) h))"
      using laws unfolding machine_laws_def reading_laws_def mounted_from_def by blast
    ultimately show "K (snd (mc_run t (findmnt_source path) h)) \<and> mounted_from vw path source (snd (mc_run t (findmnt_source path) h))"
      using keep by blast
  qed (use keep in auto)
qed

lemma mount_law:
  "machine_laws t cd vw \<Longrightarrow> same_but vw {} h (snd (mc_run t [''mount'', ''-o'', options, volume_path n, path] h))
    \<and> (\<forall>x. fst (mc_run t [''mount'', ''-o'', options, volume_path n, path] h) = Inr x
      \<longrightarrow> vw_mounted vw (snd (mc_run t [''mount'', ''-o'', options, volume_path n, path] h)) path = Some n)"
  unfolding machine_laws_def mounting_laws_def
  by (cases "mc_run t [''mount'', ''-o'', options, volume_path n, path] h") (fastforce split: sum.splits)

lemma mount_mounts:
  assumes laws: "machine_laws t cd vw" and K: "apart vw {} K"
  shows "interrupted K (mount t s n ro) (\<lambda>p h. K h \<and> p = mount_path s n \<and> vw_mounted vw h p = Some n) K"
    (is "interrupted K _ ?Q K")
proof -
  note st = apart_steady [OF K]
  let ?p = "mount_path s n"
  have mnt: "interrupted K (run_command t [''mount'', ''-o'', options, volume_path n, ?p]) (\<lambda>_ h. K h \<and> vw_mounted vw h ?p = Some n) K" for options
    unfolding run_command_def
    by (rule interrupted_perform) (use apartD [OF K] mount_law [OF laws] in blast)+
  show ?thesis
    unfolding mount_def Let_def
  proof (rule interrupted_then [OF mkdir_keeps [OF laws st]], rule interrupted_then [OF interrupted_try [OF findmnt_finds [OF laws st]]])
    fix existing :: "string result"
    let ?rest = "case existing of
       Inr source \<Rightarrow>
         act_then (run_command t [''readlink'', ''-f'', volume_path n]) (\<lambda>expected.
         act_then (try_act (run_command t [''readlink'', ''-f'', source])) (\<lambda>actual.
         if actual \<noteq> Inr expected then lift_result (Inl ''mount identity conflict'') else ret ?p))
     | Inl _ \<Rightarrow>
         act_then (run_command t [''mount'', ''-o'', if ro then ''ro,nosuid,nodev,noexec'' else ''rw,nosuid,nodev,noexec'',
           volume_path n, ?p]) (\<lambda>_. ret ?p)"
    show "interrupted (\<lambda>h. case existing of Inl _ \<Rightarrow> K h | Inr source \<Rightarrow> K h \<and> mounted_from vw ?p source h) ?rest ?Q K"
    proof (cases existing)
      case (Inl e)
      show ?thesis unfolding Inl sum.case by (rule interrupted_then [OF mnt], rule interrupted_ret) simp
    next
      case (Inr source)
      let ?M = "\<lambda>h. K h \<and> mounted_from vw ?p source h"
      note stM = steady_mounted_from [OF st, of ?p source]
      have read: "interrupted ?M (run_command t [''readlink'', ''-f'', q]) (\<lambda>x h. ?M h \<and> x = vw_canon vw q) K" for q
        by (rule interrupted_weaken [OF readlink_reads [OF laws stM]]) auto
      have read2: "interrupted ?M (try_act (run_command t [''readlink'', ''-f'', q])) (\<lambda>r h. ?M h \<and> (\<forall>x. r = Inr x \<longrightarrow> x = vw_canon vw q)) K" for q
        by (rule interrupted_weaken [OF interrupted_try [OF readlink_reads [OF laws stM]]]) (auto split: sum.splits)
      show ?thesis unfolding Inr sum.case
      proof (rule interrupted_then [OF read], rule interrupted_pure, rule interrupted_then [OF read2], rule interrupted_pure)
        fix expected and actual :: "string result"
        assume "expected = vw_canon vw (volume_path n)" "\<forall>x. actual = Inr x \<longrightarrow> x = vw_canon vw source"
        then show "interrupted ?M (if actual \<noteq> Inr expected then lift_result (Inl ''mount identity conflict'') else ret ?p) ?Q K"
          by (auto intro!: interrupted_ret interrupted_lift simp: mounted_from_def)
      qed
    qed
  qed
qed

lemma unmount_keeps:
  assumes laws: "machine_laws t cd vw" and K: "apart vw {} K"
  shows "interrupted K (unmount t s n) (\<lambda>_. K) K"
proof -
  have um: "interrupted K (run_command t [''umount'', path]) (\<lambda>_. K) K" for path
  proof -
    have "same_but vw {} h (snd (mc_run t [''umount'', path] h))" for h
      using laws unfolding machine_laws_def mounting_laws_def by (cases "mc_run t [''umount'', path] h") simp
    then show ?thesis unfolding run_command_def by (intro interrupted_perform) (use apartD [OF K] in blast)+
  qed
  have "interrupted K (try_act (run_command t [''findmnt'', ''--mountpoint'', path])) (\<lambda>_. K) K" for path
    by (rule interrupted_weaken [OF interrupted_try [OF reader_keeps [OF laws apart_steady [OF K]]]])
      (auto simp: reader_commands_def split: sum.splits)
  then show ?thesis
    unfolding unmount_def Let_def
    by (rule interrupted_then) (auto split: sum.split intro!: interrupted_ret interrupted_then [OF um])
qed

subsection \<open>Trees that carry their own proof\<close>

text \<open>A marker on the tree names the manifest of the image and the digest that the tree has.\<close>

definition trusted :: "codec \<Rightarrow> string \<Rightarrow> (string list \<times> tree_item) list \<Rightarrow> bool" where
  "trusted cd img tree \<longleftrightarrow> (\<exists>m b marker. (marker_key, TreeFile m b) \<in> set tree \<and> read_marker cd b = Inr marker
     \<and> gm_get marker ''manifest'' = Some img
     \<and> treeDigest (cd_sha cd) tree = Inr (case gm_get marker ''tree'' of None \<Rightarrow> [] | Some x \<Rightarrow> x))"

lemma mounted_laws:
  assumes "machine_laws t cd vw" "vw_mounted vw h path = Some n"
  shows "mc_walk t path h = vw_tree vw h n"
    "mc_read t (path_join path ''.edgelab-image.json'') h = Inr b \<Longrightarrow> \<exists>m. (marker_key, TreeFile m b) \<in> set (vw_tree vw h n)"
    "vw_tree vw (mc_put_fs t path f h) n = walk_of f" "vw_fs vw (mc_put_fs t path f h) n = f"
    "same_but vw {n} h (mc_put_fs t path f h)" "core_at vw (mc_put_fs t path f h) n = core_at vw h n"
    "vw_mounted vw (mc_put_fs t path f h) = vw_mounted vw h" "mc_fs t path h = vw_fs vw h n"
  using assms unfolding machine_laws_def mounting_laws_def by blast+

lemma marker_valid_trusts:
  assumes laws: "machine_laws t cd vw"
  shows "works (\<lambda>h. K h \<and> vw_mounted vw h path = Some n) (marker_valid t cd img path)
    (\<lambda>v h. K h \<and> (v \<longrightarrow> trusted cd img (vw_tree vw h n)))"
proof -
  let ?P = "\<lambda>h. K h \<and> vw_mounted vw h path = Some n"
  let ?B = "\<lambda>b h. ?P h \<and> (\<forall>x. b = Inr x \<longrightarrow> (\<exists>m. (marker_key, TreeFile m x) \<in> set (vw_tree vw h n)))"
  have b: "works ?P (try_act (read_world (mc_read t (path_join path ''.edgelab-image.json'')))) ?B"
  proof -
    have "interrupted ?P (read_world (mc_read t (path_join path ''.edgelab-image.json''))) (\<lambda>x. ?B (Inr x)) ?P"
      by (rule interrupted_read) (auto dest: mounted_laws(2) [OF laws])
    from interrupted_try [OF this] show ?thesis by (rule interrupted_weaken) (auto split: sum.splits)
  qed
  have hash: "works (?B c) (try_act (read_world (\<lambda>h. treeDigest (cd_sha cd) (mc_walk t path h))))
      (\<lambda>r h. ?B c h \<and> (\<forall>x. r = Inr x \<longrightarrow> treeDigest (cd_sha cd) (vw_tree vw h n) = Inr x))" for c
  proof -
    have "interrupted (?B c) (read_world (\<lambda>h. treeDigest (cd_sha cd) (mc_walk t path h)))
        (\<lambda>x h. ?B c h \<and> treeDigest (cd_sha cd) (vw_tree vw h n) = Inr x) (?B c)"
      by (rule interrupted_read) (auto simp: mounted_laws(1) [OF laws])
    from interrupted_try [OF this] show ?thesis by (rule interrupted_weaken) (auto split: sum.splits)
  qed
  show ?thesis
    unfolding marker_valid_def
  proof (rule interrupted_then [OF b])
    fix c :: "string result"
    show "works (?B c) (case and_then c (read_marker cd) of
       Inl _ \<Rightarrow> ret False
     | Inr marker \<Rightarrow>
       if gm_get marker ''manifest'' \<noteq> Some img then ret False
       else act_then (try_act (read_world (\<lambda>h. treeDigest (cd_sha cd) (mc_walk t path h)))) (\<lambda>hash.
         ret (hash = Inr (case gm_get marker ''tree'' of None \<Rightarrow> [] | Some x \<Rightarrow> x))))
      (\<lambda>v h. K h \<and> (v \<longrightarrow> trusted cd img (vw_tree vw h n)))"
    proof (cases "and_then c (read_marker cd)")
      case (Inl e)
      show ?thesis unfolding Inl sum.case by (rule interrupted_ret) simp
    next
      case (Inr marker)
      then obtain x where x: "c = Inr x" "read_marker cd x = Inr marker" by (auto simp: and_then_eq_Inr)
      show ?thesis
        unfolding Inr sum.case
        by (rule interrupted_if, rule interrupted_ret, simp, rule interrupted_then [OF hash], rule interrupted_ret)
          (use x in \<open>auto simp: trusted_def\<close>)
    qed
  qed
qed

lemma verify_image_trusts:
  assumes laws: "machine_laws t cd vw" and K: "apart vw {} K"
  shows "works K (verify_image t cd s img) (\<lambda>v h. K h \<and> (v \<longrightarrow> trusted cd img (vw_tree vw h (base_name img))))"
proof -
  let ?n = "base_name img"
  let ?Q = "\<lambda>v h. K h \<and> (v \<longrightarrow> trusted cd img (vw_tree vw h ?n))"
  show ?thesis
    unfolding verify_image_def Let_def
  proof (rule interrupted_then [OF interrupted_try [OF mount_mounts [OF laws K]]])
    fix mounted :: "string result"
    show "works (\<lambda>h. case mounted of Inl _ \<Rightarrow> K h | Inr p \<Rightarrow> K h \<and> p = mount_path s ?n \<and> vw_mounted vw h p = Some ?n)
      (case mounted of
       Inl e \<Rightarrow>
         act_then (try_act (run_command t [''blkid'', ''-s'', ''TYPE'', ''-o'', ''value'', volume_path ?n])) (\<lambda>kind.
         if kind = Inr ''ext4'' then lift_result (Inl e) else ret False)
     | Inr path \<Rightarrow> act_then (marker_valid t cd img path) (\<lambda>valid. act_then (unmount t s ?n) (\<lambda>_. ret valid))) ?Q"
    proof (cases mounted)
      case (Inl e)
      have "works K (try_act (run_command t [''blkid'', ''-s'', ''TYPE'', ''-o'', ''value'', volume_path ?n])) (\<lambda>_. K)"
        by (rule interrupted_weaken [OF interrupted_try [OF reader_keeps [OF laws apart_steady [OF K]]]])
          (auto simp: reader_commands_def split: sum.splits)
      then show ?thesis unfolding Inl sum.case
        by (rule interrupted_then) (auto intro!: interrupted_ret interrupted_lift)
    next
      case (Inr p)
      have ap: "apart vw {} (?Q v)" for v
        by (intro apart_conj K) (use apart_tree [of ?n "{}" vw "trusted cd img"] in \<open>auto simp: apart_def\<close>)
      show ?thesis unfolding Inr sum.case
      proof (rule interrupted_then [where R = ?Q])
        show "works (\<lambda>h. K h \<and> p = mount_path s ?n \<and> vw_mounted vw h p = Some ?n) (marker_valid t cd img p) ?Q"
          by (rule interrupted_pre [OF marker_valid_trusts [OF laws, where K = K and n = ?n]]) blast
        show "works (?Q v) (act_then (unmount t s ?n) (\<lambda>_. ret v)) ?Q" for v
          by (rule interrupted_then [where R = "\<lambda>_. ?Q v"], rule interrupted_weaken [OF unmount_keeps [OF laws ap [of v]]])
            (auto intro!: interrupted_ret)
      qed
    qed
  qed
qed

lemma lvchange_changes:
  assumes laws: "machine_laws t cd vw" and K: "apart vw {n} K" and flags: "flags \<in> {[''-pr''], [''-prw''], [''-ay'', ''-K'']}"
  shows "works (\<lambda>h. K h \<and> R (vw_tree vw h n) (core_at vw h n)) (lvchange t s flags n)
    (\<lambda>_ h. K h \<and> (\<exists>c. R (vw_tree vw h n) c \<and> core_at vw h n = map_option (lvchange_effect flags) c))"
  unfolding lvchange_def run_command_def
proof (rule works_perform)
  let ?argv = "[''lvchange'', ''--devices'', pl_device (sg_pool s)] @ flags @ [''edgelab_worker/'' @ n]"
  fix h x
  assume h: "K h \<and> R (vw_tree vw h n) (core_at vw h n)" and ok: "fst (mc_run t ?argv h) = Inr x"
  let ?h = "snd (mc_run t ?argv h)"
  from ok have "mc_run t ?argv h = (Inr x, ?h)" by (metis prod.collapse)
  with laws flags have "same_but vw {n} h ?h \<and> vw_tree vw ?h n = vw_tree vw h n
      \<and> core_at vw ?h n = map_option (lvchange_effect flags) (core_at vw h n)"
    unfolding machine_laws_def volume_laws_def by blast
  with h apartD [OF K] show "K ?h \<and> (\<exists>c. R (vw_tree vw ?h n) c \<and> core_at vw ?h n = map_option (lvchange_effect flags) c)"
    by metis
qed

subsection \<open>The extraction child\<close>

lemma worker_start_keeps:
  assumes laws: "machine_laws t cd vw" and K: "steady vw K"
  shows "works K (worker_start t cd a) (\<lambda>s h. K h \<and> worker_args_ok t a \<and> sg_root s = wa_root a)"
proof -
  have read: "works K (read_world f) (\<lambda>_. K)" for f :: "'a \<Rightarrow> 'x result" by (rule interrupted_read) auto
  have tried: "works K (try_act (read_world f)) (\<lambda>_. K)" for f :: "'a \<Rightarrow> 'x result"
    by (rule interrupted_weaken [OF interrupted_try [OF interrupted_read [where P = K and I = K and Q = "\<lambda>_. K"]]]) (auto split: sum.splits)
  have run: "works K (try_act (run_command t [''losetup'', ''-n'', ''-O'', ''BACK-FILE'', d])) (\<lambda>_. K)" for d
    by (rule interrupted_weaken [OF interrupted_try [OF reader_keeps [OF laws K]]]) (auto simp: reader_commands_def split: sum.splits)
  show ?thesis
    unfolding worker_start_def Let_def
    by (rule interrupted_then_lift, simp, rule interrupted_then [OF read], rule interrupted_then [OF read],
        rule interrupted_then_lift, simp, rule interrupted_then [OF tried], rule interrupted_then_lift, simp,
        rule interrupted_then [OF run], rule interrupted_then_lift, simp,
        rule interrupted_then [OF interrupted_weaken [OF lvs_finds [OF laws K]]], assumption, erule conjunct1, simp,
        rule interrupted_then_lift, simp, rule interrupted_then [OF interrupted_weaken [OF mkdir_keeps [OF laws K]]],
        assumption, assumption, simp, rule interrupted_ret)
      simp
qed

text \<open>Work in a mounted root: the volume gets the filesystem that the work leaves, and keeps its identity.\<close>

lemma in_root_works:
  assumes laws: "machine_laws t cd vw" and K: "apart vw {n} K" and a: "works (\<lambda>f. f = f0) a Q"
  shows "works (\<lambda>h. K h \<and> C (core_at vw h n) \<and> vw_mounted vw h path = Some n \<and> vw_fs vw h n = f0) (in_root t path a)
    (\<lambda>x h. K h \<and> C (core_at vw h n) \<and> vw_mounted vw h path = Some n \<and> Q x (vw_fs vw h n) \<and> vw_tree vw h n = walk_of (vw_fs vw h n))"
proof (rule interruptedI)
  fix h os r h' os'
  assume h: "K h \<and> C (core_at vw h n) \<and> vw_mounted vw h path = Some n \<and> vw_fs vw h n = f0"
    and run: "in_root t path a (h, os) = (r, (h', os'))"
  note m = mounted_laws [OF laws, of h path n]
  from run obtain f where f: "a (mc_fs t path h, os) = (r, (f, os'))" and h': "h' = mc_put_fs t path f h"
    by (auto simp: in_root_def focus_def split: prod.splits)
  from h m(8) have "mc_fs t path h = f0" by simp
  from interruptedD [OF a this f] have q: "case r of Inl _ \<Rightarrow> True | Inr x \<Rightarrow> Q x f" .
  have "K h'" using apartD [OF K] h m(5) h' by blast
  moreover have "C (core_at vw h' n)" "vw_mounted vw h' path = Some n" "vw_fs vw h' n = f" "vw_tree vw h' n = walk_of f"
    using h m(3,4,6,7) h' by simp_all
  ultimately show "case r of Inl _ \<Rightarrow> True | Inr x \<Rightarrow> K h' \<and> C (core_at vw h' n) \<and> vw_mounted vw h' path = Some n
      \<and> Q x (vw_fs vw h' n) \<and> vw_tree vw h' n = walk_of (vw_fs vw h' n)"
    using q by (simp split: sum.splits)
qed

lemma works_on_image:
  assumes "works P a Q"
  shows "works (\<lambda>w. P (ww_image w) \<and> G (ww_host w) (ww_ops w)) (on_image a) (\<lambda>x w. Q x (ww_image w) \<and> G (ww_host w) (ww_ops w))"
proof -
  have "works (\<lambda>w. P (ww_image w)) (on_image a) (\<lambda>x w. Q x (ww_image w))"
    unfolding on_image_def by (rule works_focus [OF assms]) simp
  from works_frame [OF this [unfolded on_image_def], where other = "\<lambda>w. (ww_host w, ww_ops w)" and F = "\<lambda>(h, d). G h d"]
  show ?thesis unfolding on_image_def by simp
qed

lemma load_pins:
  "works (\<lambda>w. cache_ok (cd_sha cd) (iw_cache (ww_image w)) \<and> G (ww_host w) (ww_ops w)) (on_image (loadLayers cd web src desc))
    (\<lambda>(m, layers) w. cache_ok (cd_sha cd) (iw_cache (ww_image w)) \<and> image_pinned cd desc m layers \<and> G (ww_host w) (ww_ops w))"
proof -
  have "works (\<lambda>i. cache_ok (cd_sha cd) (iw_cache i)) (loadLayers cd web src desc)
      (\<lambda>(m, layers) i. cache_ok (cd_sha cd) (iw_cache i) \<and> image_pinned cd desc m layers)"
  proof (rule interrupted_assume)
    fix i :: "'a image_world"
    assume i: "cache_ok (cd_sha cd) (iw_cache i)"
    show "works ((=) i) (loadLayers cd web src desc) (\<lambda>(m, layers) i. cache_ok (cd_sha cd) (iw_cache i) \<and> image_pinned cd desc m layers)"
      by (rule interrupted_weaken [OF loadLayers_interrupted [of cd "iw_cache i"]])
        (use cache_inv_start [OF i] in \<open>auto simp: cache_inv_def\<close>)
  qed
  from works_on_image [OF this, of G] show ?thesis by (rule interrupted_weaken) auto
qed

text \<open>What the child leaves on the volume \<open>n\<close> that held \<open>f0\<close>: the layers over \<open>f0\<close>, then the marker.\<close>

definition unpacked :: "u64 \<Rightarrow> codec \<Rightarrow> 'f worker_args \<Rightarrow> fs \<Rightarrow> fs \<Rightarrow> bool" where
  "unpacked umask cd a f0 f \<longleftrightarrow> (\<exists>m layers f1 mode hash. image_pinned cd (manifest_desc a) m layers
     \<and> (fs_ok (gm_get f0) \<longrightarrow> gm_get f1 = fold (overlay umask) layers (gm_get f0))
     \<and> treeDigest (cd_sha cd) (walk_of f1) = Inr hash
     \<and> f = gm_put marker_key (File mode None (marker_text (wa_manifest a) hash)) f1)"

lemma unpackedI:
  assumes "image_pinned cd (manifest_desc a) m layers" "treeDigest (cd_sha cd) (walk_of f1) = Inr hash"
    and "fs_ok (gm_get f0) \<longrightarrow> gm_get f1 = fold (overlay umask) layers (gm_get f0)"
  shows "unpacked umask cd a f0 (gm_put marker_key (File mode None (marker_text (wa_manifest a) hash)) f1)"
  using assms unfolding unpacked_def by blast

lemma applied:
  assumes "list_all layer_safe layers"
  shows "works (\<lambda>f. f = f0) (applyLayers umask crash layers)
    (\<lambda>_ f. fs_ok (gm_get f0) \<longrightarrow> gm_get f = fold (overlay umask) layers (gm_get f0))"
proof (cases "fs_ok (gm_get f0)")
  case True
  show ?thesis by (rule interrupted_weaken [OF applyLayers_works [OF True assms]]) auto
qed (auto simp: interrupted_def split: sum.splits)

lemma marked:
  "works (\<lambda>f. f = f1) (durable_at umask temps ''.edgelab-image.json'' marker) (\<lambda>_ f. \<exists>mode. f = gm_put marker_key (File mode None marker) f1)"
  unfolding marker_key_def by (rule durable_at_works) (simp add: is_pending_def)

lemma unpack_main_works:
  fixes web :: "'n web" and t :: "('h, 'f) machine"
  assumes laws: "machine_laws t cd vw" and K: "apart vw {n} K" and n: "n = base_name (wa_manifest a)"
  shows "works (\<lambda>w. cache_ok (cd_sha cd) (iw_cache (ww_image w)) \<and> F (ww_ops w)
      \<and> K (ww_host w) \<and> C (core_at vw (ww_host w) n) \<and> vw_mounted vw (ww_host w) (wa_unpack a) = Some n \<and> vw_fs vw (ww_host w) n = f0)
    (unpack_main t cd web temps a)
    (\<lambda>_ w. cache_ok (cd_sha cd) (iw_cache (ww_image w)) \<and> F (ww_ops w)
      \<and> K (ww_host w) \<and> C (core_at vw (ww_host w) n) \<and> vw_mounted vw (ww_host w) (wa_unpack a) = Some n
      \<and> unpacked (mc_umask t) cd a f0 (vw_fs vw (ww_host w) n) \<and> vw_tree vw (ww_host w) n = walk_of (vw_fs vw (ww_host w) n))"
proof -
  let ?p = "wa_unpack a"
  let ?I = "\<lambda>i d. cache_ok (cd_sha cd) (iw_cache i) \<and> F d"
  let ?M = "\<lambda>h. K h \<and> C (core_at vw h n) \<and> vw_mounted vw h ?p = Some n"
  let ?H = "\<lambda>f h. ?M h \<and> vw_fs vw h n = f"
  have st: "steady vw (?H f)" for f
  proof -
    have "steady vw K" by (rule apart_steady [OF apart_mono [OF K]]) simp
    then show ?thesis unfolding steady_def same_but_def by auto
  qed
  let ?L = "\<lambda>m layers. image_pinned cd (manifest_desc a) m layers"
  let ?A = "\<lambda>layers f. fs_ok (gm_get f0) \<longrightarrow> gm_get f = fold (overlay (mc_umask t)) layers (gm_get f0)"
  let ?J = "\<lambda>layers f h. ?H f h \<and> ?A layers f \<and> vw_tree vw h n = walk_of f"
  let ?W = "\<lambda>P w. P (ww_host w) \<and> ?I (ww_image w) (ww_ops w)"
  have start: "works (?W (?H f0)) (on_host (worker_start t cd a)) (\<lambda>_. ?W (?H f0))"
    by (rule works_on_host [OF interrupted_weaken [OF worker_start_keeps [OF laws st]]]) auto
  have find: "works (?W (?H f0)) (on_host (run_command t [''findmnt'', ''--mountpoint'', q])) (\<lambda>_. ?W (?H f0))" for q
    by (rule works_on_host [OF interrupted_weaken [OF reader_keeps [OF laws st]]]) (auto simp: reader_commands_def)
  have load: "works (?W (?H f0)) (on_image (loadLayers cd web src (manifest_desc a))) (\<lambda>(m, layers) w. ?W (?H f0) w \<and> ?L m layers)" for src
    by (rule interrupted_weaken [OF load_pins [where G = "\<lambda>h d. ?H f0 h \<and> F d"]]) auto
  have idle: "works P (read_world (\<lambda>_. Inr ())) (\<lambda>_. P)" for P :: "('n, 'h) worker_world \<Rightarrow> bool" by (rule interrupted_read) auto
  have lay: "works (?W (?H f0)) (on_host (in_root t ?p (applyLayers (mc_umask t) crash layers))) (\<lambda>_ w. \<exists>f. ?W (?J layers f) w)"
    if "?L m layers" for m layers crash
  proof -
    from pinned_layers_safe [OF that] have "list_all layer_safe layers" by blast
    from works_on_host [OF in_root_works [OF laws K applied [OF this, where umask = "mc_umask t" and crash = crash], where C = C and path = ?p], where F = ?I] show ?thesis
      by (rule interrupted_weaken) auto
  qed
  have hash: "works (?W (?J layers f)) (on_host (read_world (\<lambda>h. treeDigest (cd_sha cd) (mc_walk t ?p h))))
      (\<lambda>x w. ?W (?J layers f) w \<and> treeDigest (cd_sha cd) (walk_of f) = Inr x)" for layers f
  proof -
    have "works (?J layers f) (read_world (\<lambda>h. treeDigest (cd_sha cd) (mc_walk t ?p h)))
        (\<lambda>x h. ?J layers f h \<and> treeDigest (cd_sha cd) (walk_of f) = Inr x)"
      by (rule interrupted_read) (auto simp: mounted_laws(1) [OF laws])
    from works_on_host [OF this, where F = ?I] show ?thesis by (rule interrupted_weaken) auto
  qed
  have mark: "works (?W (?J layers f)) (on_host (write_marker t ?p temps (marker_text (wa_manifest a) x)))
      (\<lambda>_ w. ?W (\<lambda>h. ?M h \<and> unpacked (mc_umask t) cd a f0 (vw_fs vw h n) \<and> vw_tree vw h n = walk_of (vw_fs vw h n)) w)"
    if "?L m layers" "treeDigest (cd_sha cd) (walk_of f) = Inr x" "?A layers f" for m layers f x
    unfolding write_marker_def
    using works_on_host [OF in_root_works [OF laws K marked [of f "mc_umask t" temps "marker_text (wa_manifest a) x"], where C = C and path = ?p], where F = ?I]
    by (rule interrupted_weaken) (use unpackedI [OF that] in \<open>auto\<close>)
  have all: "works (?W (?H f0)) (unpack_main t cd web temps a)
      (\<lambda>_. ?W (\<lambda>h. ?M h \<and> unpacked (mc_umask t) cd a f0 (vw_fs vw h n) \<and> vw_tree vw h n = walk_of (vw_fs vw h n)))" (is "works _ _ ?Q")
    unfolding unpack_main_def Let_def
  proof (rule interrupted_then [OF start], rule interrupted_then_lift, simp)
    fix s u
    assume "guard (wa_unpack a = mount_path s (base_name (wa_manifest a))) ''invalid extraction root'' = Inr u"
    then have e: "mount_path s (base_name (wa_manifest a)) = wa_unpack a" by simp
    show "works (?W (?H f0)) (act_then (on_host (run_command t [''findmnt'', ''--mountpoint'', mount_path s (base_name (wa_manifest a))])) (\<lambda>_.
     act_then (on_image (loadLayers cd web (wa_store a, wa_crash a, temps) (manifest_desc a))) (\<lambda>(m, layers).
     act_then (read_world (\<lambda>_. Inr ())) (\<lambda>_. act_then (read_world (\<lambda>_. Inr ())) (\<lambda>_.
     act_then (on_host (in_root t (mount_path s (base_name (wa_manifest a))) (applyLayers (mc_umask t) (wa_crash a) layers))) (\<lambda>_.
     act_then (on_host (read_world (\<lambda>h. treeDigest (cd_sha cd) (mc_walk t (mount_path s (base_name (wa_manifest a))) h)))) (\<lambda>hash.
     on_host (write_marker t (mount_path s (base_name (wa_manifest a))) temps (marker_text (wa_manifest a) hash)))))))))  ?Q"
      unfolding e
    proof (rule interrupted_then [OF find], rule interrupted_then [OF load], clarify, rule interrupted_pure, rule interrupted_then [OF idle],
        rule interrupted_then [OF idle])
      fix m layers
      assume L: "?L m layers"
      show "works (?W (?H f0)) (act_then (on_host (in_root t ?p (applyLayers (mc_umask t) (wa_crash a) layers))) (\<lambda>_.
        act_then (on_host (read_world (\<lambda>h. treeDigest (cd_sha cd) (mc_walk t ?p h)))) (\<lambda>hash.
        on_host (write_marker t ?p temps (marker_text (wa_manifest a) hash))))) ?Q"
      proof (rule interrupted_then [OF lay [OF L]], rule interrupted_ex, rule interrupted_then [OF hash], rule interrupted_pure)
        fix f x
        assume x: "treeDigest (cd_sha cd) (walk_of f) = Inr x"
        show "works (?W (?J layers f)) (on_host (write_marker t ?p temps (marker_text (wa_manifest a) x))) ?Q"
        proof (rule interrupted_assume)
          fix w :: "('n, 'h) worker_world"
          assume w: "?W (?J layers f) w"
          then have A: "?A layers f" by blast
          show "works ((=) w) (on_host (write_marker t ?p temps (marker_text (wa_manifest a) x))) ?Q"
            by (rule interrupted_pre [OF mark [OF L x A]]) (use w in auto)
        qed
      qed
    qed
  qed
  show ?thesis by (rule interrupted_weaken [OF all]) auto
qed

lemma unpacked_trusted:
  assumes law: "marker_law cd (wa_manifest a)" and f: "unpacked umask cd a f0 f"
  shows "trusted cd (wa_manifest a) (walk_of f)"
proof -
  from f obtain f1 mode hash where hash: "treeDigest (cd_sha cd) (walk_of f1) = Inr hash"
    and f1: "f = gm_put marker_key (File mode None (marker_text (wa_manifest a) hash)) f1"
    unfolding unpacked_def by blast
  have "gm_get f marker_key = Some (File mode None (marker_text (wa_manifest a) hash))" by (simp add: f1 gm.get_put)
  then have "(marker_key, TreeFile mode (marker_text (wa_manifest a) hash)) \<in> set (walk_of f)"
    by (force simp: walk_of_def dest: map_of_SomeD)
  moreover have "read_marker cd (marker_text (wa_manifest a) hash) = Inr [(''manifest'', wa_manifest a), (''tree'', hash)]"
    using law hash by (auto simp: marker_law_def read_marker_def read_map_def treeDigest_def and_then_eq_Inr)
  moreover have "treeDigest (cd_sha cd) (walk_of f) = Inr hash" by (simp add: f1 digest_put_marker hash)
  ultimately show ?thesis
    unfolding trusted_def
    by (intro exI [of _ mode] exI [of _ "marker_text (wa_manifest a) hash"]
        exI [of _ "[(''manifest'', wa_manifest a), (''tree'', hash)]"]) simp
qed

subsection \<open>The parent\<close>

definition has_core :: "('h, 'f) machine \<Rightarrow> string \<Rightarrow> string \<Rightarrow> (string \<Rightarrow> char option \<Rightarrow> char option \<Rightarrow> bool) \<Rightarrow> core option \<Rightarrow> bool" where
  "has_core t tag org P c \<longleftrightarrow> (\<exists>v. c = Some (core v) \<and> validate t v tag org = Inr () \<and> P (vl_uuid v) (attr_at 1 v) (attr_at 4 v))"

lemma has_volume_iff: "has_volume t vw n tag org P h \<longleftrightarrow> has_core t tag org P (core_at vw h n)"
proof
  assume "has_core t tag org P (core_at vw h n)"
  then obtain v v' where v: "vw_volume vw h n = Some v'" "core v' = core v" "validate t v tag org = Inr ()"
      "P (vl_uuid v) (attr_at 1 v) (attr_at 4 v)"
    by (auto simp: has_core_def core_at_def)
  moreover from v(2) have "vl_uuid v' = vl_uuid v" "attr_at 1 v' = attr_at 1 v" "attr_at 4 v' = attr_at 4 v" by (simp_all add: core_def)
  ultimately show "has_volume t vw n tag org P h" using validate_core [OF v(2), of t tag org] by (auto simp: has_volume_def)
qed (auto simp: has_volume_def has_core_def core_at_def)

lemma has_core_lvchange:
  assumes c: "has_core t tag org P c" and at: "core_at vw h n = map_option (lvchange_effect flags) c"
    and P: "\<And>u p a. P u p a \<Longrightarrow> (case lvchange_effect flags ((u, [], [], [], []), p, a) of (i, p', a') \<Rightarrow> Q u p' a')"
  shows "has_volume t vw n tag org Q h"
proof -
  from c obtain v where v: "c = Some (core v)" "validate t v tag org = Inr ()" "P (vl_uuid v) (attr_at 1 v) (attr_at 4 v)"
    by (auto simp: has_core_def)
  with at obtain v' where v': "vw_volume vw h n = Some v'" "core v' = lvchange_effect flags (core v)" by (auto simp: core_at_def)
  have same: "vl_uuid v' = vl_uuid v" "vl_tags v' = vl_tags v" "vl_pool v' = vl_pool v" "vl_origin v' = vl_origin v" "vl_size v' = vl_size v"
    using v'(2) by (auto simp: core_def lvchange_effect_def split: if_splits)
  then have "validate t v' tag org = Inr ()" using v(2) by (simp only: validate_def)
  moreover have "Q (vl_uuid v') (attr_at 1 v') (attr_at 4 v')"
    using P [OF v(3)] v'(2) by (auto simp: core_def lvchange_effect_def split: if_splits)
  ultimately show ?thesis using v'(1) by (auto simp: has_volume_def)
qed

text \<open>The world of an operation: the row belongs to it, the cache is sound, and \<open>P\<close> holds of the machine.\<close>

definition op_world :: "codec \<Rightarrow> 'f worker_args \<Rightarrow> ('h \<Rightarrow> bool) \<Rightarrow> ('n, 'h) worker_world \<Rightarrow> bool" where
  "op_world cd a P w \<longleftrightarrow> P (ww_host w) \<and> cache_ok (cd_sha cd) (iw_cache (ww_image w))
     \<and> (\<exists>r. gm_get (ww_ops w) (wa_operation a) = Some r \<and> ro_image r = wa_manifest a \<and> ro_size r = wa_bytes a
        \<and> ro_snapshot r = snapshot_name (cd_sha cd) (wa_operation a))"

lemma op_host:
  assumes "works P act Q"
  shows "works (op_world cd a P) (on_host act) (\<lambda>x. op_world cd a (Q x))"
  by (rule interrupted_weaken [OF works_on_host [OF assms, where F = "\<lambda>i d. cache_ok (cd_sha cd) (iw_cache i)
      \<and> (\<exists>r. gm_get d (wa_operation a) = Some r \<and> ro_image r = wa_manifest a \<and> ro_size r = wa_bytes a
        \<and> ro_snapshot r = snapshot_name (cd_sha cd) (wa_operation a))"]])
    (auto simp: op_world_def)

lemmas op_try = works_or_failed [OF op_host]

lemma works_on_ops:
  assumes "works P act Q"
  shows "works (\<lambda>w. P (ww_ops w) \<and> G (ww_host w) (ww_image w)) (on_ops act) (\<lambda>x w. Q x (ww_ops w) \<and> G (ww_host w) (ww_image w))"
proof -
  have "works (\<lambda>w. P (ww_ops w)) (on_ops act) (\<lambda>x w. Q x (ww_ops w))"
    unfolding on_ops_def by (rule works_focus [OF assms]) simp
  from works_frame [OF this [unfolded on_ops_def], where other = "\<lambda>w. (ww_host w, ww_image w)" and F = "\<lambda>(h, i). G h i"]
  show ?thesis unfolding on_ops_def by simp
qed

lemma update_works:
  assumes "\<And>r. ro_image (g r) = ro_image r \<and> ro_size (g r) = ro_size r \<and> ro_snapshot (g r) = ro_snapshot r"
  shows "works (op_world cd a P) (on_ops (write_world (update_op (wa_operation a) g)))
    (\<lambda>_ w. op_world cd a P w \<and> (\<exists>r. gm_get (ww_ops w) (wa_operation a) = Some (g r)))"
proof -
  let ?R = "\<lambda>d. \<exists>r. gm_get d (wa_operation a) = Some r \<and> ro_image r = wa_manifest a \<and> ro_size r = wa_bytes a
      \<and> ro_snapshot r = snapshot_name (cd_sha cd) (wa_operation a)"
  have "works ?R (write_world (update_op (wa_operation a) g)) (\<lambda>_ d. ?R d \<and> (\<exists>r. gm_get d (wa_operation a) = Some (g r)))"
    by (rule interrupted_write) (auto simp: update_op_def gm.get_put assms)
  from works_on_ops [OF this, where G = "\<lambda>h i. P h \<and> cache_ok (cd_sha cd) (iw_cache i)"] show ?thesis
    by (rule interrupted_weaken) (auto simp: op_world_def)
qed

lemma stage_works: "works (op_world cd a P) (stage crash (wa_operation a) next) (\<lambda>_. op_world cd a P)"
  unfolding stage_def
  by (rule interrupted_then [where R = "\<lambda>_. op_world cd a P"], rule interrupted_weaken [OF update_works])
    (auto intro: works_fault)

lemma admit_works:
  "works (\<lambda>w. P (ww_host w) \<and> cache_ok (cd_sha cd) (iw_cache (ww_image w)))
    (on_ops (admit_operation (wa_operation a) (fresh_op (cd_sha cd) a))) (\<lambda>_. op_world cd a P)"
proof -
  have idle: "works (\<lambda>_. True) (read_world f) (\<lambda>_ _. True)" for f :: "(string, op_row) go_map \<Rightarrow> 'x result" by (rule interrupted_read) auto
  have ins: "works (\<lambda>_. True) (write_world g) (\<lambda>_ _. True)" for g :: "(string, op_row) go_map \<Rightarrow> (string, op_row) go_map"
    by (rule interrupted_write) auto
  have sel: "works (\<lambda>_. True) (read_world (\<lambda>ops. case gm_get ops k of None \<Rightarrow> Inl ''sql: no rows in result set'' | Some r \<Rightarrow> Inr r))
      (\<lambda>r d. gm_get d k = Some r)" for k :: string
    by (rule interrupted_read) (auto split: option.splits)
  have "works (\<lambda>_. True) (admit_operation (wa_operation a) (fresh_op (cd_sha cd) a))
      (\<lambda>_ d. \<exists>r. gm_get d (wa_operation a) = Some r \<and> ro_image r = wa_manifest a \<and> ro_size r = wa_bytes a
        \<and> ro_snapshot r = snapshot_name (cd_sha cd) (wa_operation a))"
    unfolding admit_operation_def
    by (rule interrupted_then [OF idle], rule interrupted_then [OF idle], rule interrupted_then_lift, simp,
        rule interrupted_then [OF ins], rule interrupted_then [OF sel], rule interrupted_then_lift, simp, rule interrupted_ret)
      (auto simp: fresh_op_def)
  from works_on_ops [OF this, where G = "\<lambda>h i. P h \<and> cache_ok (cd_sha cd) (iw_cache i)"] show ?thesis
    by (rule interrupted_weaken) (auto simp: op_world_def)
qed

text \<open>The image volume: built or verified, then sealed.\<close>

abbreviation image_ready :: "('h, 'f) machine \<Rightarrow> 'h view \<Rightarrow> codec \<Rightarrow> 'f worker_args \<Rightarrow> (char option \<Rightarrow> bool) \<Rightarrow> 'h \<Rightarrow> bool" where
  "image_ready t vw cd a P h \<equiv>
     has_volume t vw (base_name (wa_manifest a)) (''image_'' @ trim_prefix (wa_manifest a) ''sha256:'') [] (\<lambda>u p s. P p) h
     \<and> trusted cd (wa_manifest a) (vw_tree vw h (base_name (wa_manifest a)))"

lemma apart_ready: "base_name (wa_manifest a) \<notin> N \<Longrightarrow> apart vw N (image_ready t vw cd a P)"
  by (intro apart_conj apart_volume) (use apart_tree [of _ N vw "trusted cd (wa_manifest a)"] in auto)

lemma mkfs_law:
  "machine_laws t cd vw \<Longrightarrow> mc_run t [''mkfs.ext4'', ''-q'', ''-F'', volume_path n] h = (Inr x, h') \<Longrightarrow> core_at vw h' n = core_at vw h n"
  unfolding machine_laws_def volume_laws_def by (elim conjE) metis

lemma build_image_works:
  fixes web :: "'n web" and t :: "('h, 'f) machine"
  assumes laws: "machine_laws t cd vw" and law: "marker_law cd (wa_manifest a)"
  shows "works (op_world cd a (has_volume t vw (base_name (wa_manifest a)) tag [] P))
    (build_image t cd web temps a s)
    (\<lambda>_. op_world cd a (\<lambda>h. has_volume t vw (base_name (wa_manifest a)) tag [] P h
      \<and> trusted cd (wa_manifest a) (vw_tree vw h (base_name (wa_manifest a)))))"
proof -
  let ?n = "base_name (wa_manifest a)" and ?k = "wa_operation a"
  let ?V = "has_volume t vw ?n tag [] P"
  let ?T = "\<lambda>h. ?V h \<and> trusted cd (wa_manifest a) (vw_tree vw h ?n)"
  have V: "apart vw {} ?V" by (rule apart_volume) simp
  have T: "apart vw {} ?T" by (intro apart_conj V) (use apart_tree [of ?n "{}" vw "trusted cd (wa_manifest a)"] in auto)
  have mkfs: "works ?V (run_command t [''mkfs.ext4'', ''-q'', ''-F'', volume_path ?n]) (\<lambda>_. ?V)"
    unfolding run_command_def
  proof (rule works_perform)
    fix h x
    assume h: "?V h" and ok: "fst (mc_run t [''mkfs.ext4'', ''-q'', ''-F'', volume_path ?n] h) = Inr x"
    then have "mc_run t [''mkfs.ext4'', ''-q'', ''-F'', volume_path ?n] h = (Inr x, snd (mc_run t [''mkfs.ext4'', ''-q'', ''-F'', volume_path ?n] h))"
      by (metis prod.collapse)
    then have "core_at vw (snd (mc_run t [''mkfs.ext4'', ''-q'', ''-F'', volume_path ?n] h)) ?n = core_at vw h ?n"
      by (rule mkfs_law [OF laws])
    then show "?V (snd (mc_run t [''mkfs.ext4'', ''-q'', ''-F'', volume_path ?n] h))" using h by (rule has_volume_core)
  qed
  let ?M = "\<lambda>p h. ?V h \<and> vw_mounted vw h p = Some ?n"
  have mnt: "works ?V (mount t s ?n False) ?M"
    by (rule interrupted_weaken [OF mount_mounts [OF laws V]]) auto
  have child: "works (op_world cd a (?M p)) (run_child t cd web temps a p) (\<lambda>_. op_world cd a ?T)" for p
  proof -
    let ?a = "child_args t a p"
    have same: "wa_manifest ?a = wa_manifest a" "wa_unpack ?a = p" by (simp_all add: child_args_def)
    let ?F = "\<lambda>d. \<exists>r. gm_get d ?k = Some r \<and> ro_image r = wa_manifest a \<and> ro_size r = wa_bytes a \<and> ro_snapshot r = snapshot_name (cd_sha cd) ?k"
    have "works (op_world cd a (?M p)) (unpack_main t cd web temps ?a) (\<lambda>_. op_world cd a ?T)"
    proof (rule interrupted_assume)
      fix w :: "('n, 'h) worker_world"
      assume w: "op_world cd a (?M p) w"
      have K: "apart vw {?n} (\<lambda>_. True)" by (simp add: apart_def)
      note u = unpack_main_works [OF laws K, where a = ?a and web = web and F = ?F and C = "has_core t tag [] P"
        and ?f0.0 = "vw_fs vw (ww_host w) ?n" and temps = temps, unfolded same, OF refl]
      show "works ((=) w) (unpack_main t cd web temps ?a) (\<lambda>_. op_world cd a ?T)"
      proof (rule interrupted_weaken [OF u])
        fix w' :: "('n, 'h) worker_world"
        assume "w = w'"
        with w show "cache_ok (cd_sha cd) (iw_cache (ww_image w')) \<and> ?F (ww_ops w') \<and> True
          \<and> has_core t tag [] P (core_at vw (ww_host w') ?n) \<and> vw_mounted vw (ww_host w') p = Some ?n
          \<and> vw_fs vw (ww_host w') ?n = vw_fs vw (ww_host w) ?n"
          unfolding op_world_def has_volume_iff by blast
      next
        fix v and w' :: "('n, 'h) worker_world"
        assume w': "cache_ok (cd_sha cd) (iw_cache (ww_image w')) \<and> ?F (ww_ops w') \<and> True
          \<and> has_core t tag [] P (core_at vw (ww_host w') ?n) \<and> vw_mounted vw (ww_host w') p = Some ?n
          \<and> unpacked (mc_umask t) cd ?a (vw_fs vw (ww_host w) ?n) (vw_fs vw (ww_host w') ?n)
          \<and> vw_tree vw (ww_host w') ?n = walk_of (vw_fs vw (ww_host w') ?n)"
        have "trusted cd (wa_manifest a) (vw_tree vw (ww_host w') ?n)"
          using w' unpacked_trusted [of cd ?a, unfolded same, OF law] by metis
        with w' show "op_world cd a ?T w'" unfolding op_world_def has_volume_iff by blast
      qed simp
    qed
    from works_try [OF this] show ?thesis
      unfolding run_child_def by (rule interrupted_then) (auto split: sum.splits intro!: interrupted_lift)
  qed
  have idle: "works Q (read_world (\<lambda>_. Inr ())) (\<lambda>_. Q)" for Q :: "('n, 'h) worker_world \<Rightarrow> bool" by (rule interrupted_read) auto
  show ?thesis
    unfolding build_image_def Let_def
    by (rule interrupted_then [OF op_try [OF capacity_keeps [OF laws apart_steady [OF V]]]], rule interrupted_then [OF op_try [OF mkfs]],
        rule interrupted_then [OF works_fault], rule interrupted_then [OF op_try [OF mnt]], rule interrupted_then [OF works_fault],
        rule interrupted_then [OF works_or_failed [OF idle]], rule interrupted_then [OF works_or_failed [OF child]],
        rule interrupted_then [OF works_fault],
        rule interrupted_then [OF op_try [OF interrupted_weaken [OF unmount_keeps [OF laws T]]]], assumption, assumption, simp,
        rule works_fault)
qed

lemma look_up_works:
  assumes "machine_laws t cd vw" "steady vw K"
  shows "works (op_world cd a K) (or_failed k (act_then (on_host (inspect t cd s n)) (\<lambda>found. lift_result (must_exist found))))
    (\<lambda>v. op_world cd a (\<lambda>h. K h \<and> vw_volume vw h n = Some v))"
  by (rule works_or_failed, rule interrupted_then [OF op_host [OF lvs_finds [OF assms]]], rule interrupted_lift)
    (auto simp: op_world_def must_exist_def split: sum.splits option.splits)

lemma has_volume_exact:
  assumes "has_volume t vw n tag org P h" "vw_volume vw h n = Some v" "Q (vl_uuid v) (attr_at 1 v) (attr_at 4 v)"
  shows "has_volume t vw n tag org Q h"
  using assms by (auto simp: has_volume_def)

text \<open>\<^verbatim>\<open>lvchange\<close> brings a volume of known identity into a state; \<open>K\<close> is about other volumes, \<open>T\<close> about its tree.\<close>

lemma lvchange_works:
  assumes laws: "machine_laws t cd vw" and K: "apart vw {n} K" and flags: "flags \<in> {[''-pr''], [''-prw''], [''-ay'', ''-K'']}"
    and P: "\<And>u p a. P u p a \<Longrightarrow> (case lvchange_effect flags ((u, [], [], [], []), p, a) of (i, p', a') \<Rightarrow> Q u p' a')"
  shows "works (\<lambda>h. K h \<and> T (vw_tree vw h n) \<and> has_volume t vw n tag org P h) (lvchange t s flags n)
    (\<lambda>_ h. K h \<and> T (vw_tree vw h n) \<and> has_volume t vw n tag org Q h)"
proof (rule interrupted_weaken [OF lvchange_changes [OF laws K flags, where R = "\<lambda>tree c. T tree \<and> has_core t tag org P c"]])
  fix x h
  assume h: "K h \<and> (\<exists>c. (T (vw_tree vw h n) \<and> has_core t tag org P c) \<and> core_at vw h n = map_option (lvchange_effect flags) c)"
  then obtain c where "has_core t tag org P c" "core_at vw h n = map_option (lvchange_effect flags) c" by blast
  from has_core_lvchange [OF this P] h show "K h \<and> T (vw_tree vw h n) \<and> has_volume t vw n tag org Q h" by blast
qed (auto simp: has_volume_iff)

lemma works_guard:
  "(b \<Longrightarrow> works P (f ()) Q) \<Longrightarrow> works P (act_then (or_failed k (lift_result (guard b e))) f) Q"
  by (cases b) (auto simp: interrupted_def act_then_def or_failed_def split: prod.splits if_splits)

lemma seal_image_works:
  assumes laws: "machine_laws t cd vw"
  shows "works (op_world cd a (image_ready t vw cd a (\<lambda>_. True))) (seal_image t cd a s)
    (\<lambda>_. op_world cd a (image_ready t vw cd a (\<lambda>p. p = Some CHR ''r'')))"
proof -
  let ?n = "base_name (wa_manifest a)"
  let ?R = "image_ready t vw cd a (\<lambda>_. True)" and ?S = "image_ready t vw cd a (\<lambda>p. p = Some CHR ''r'')"
  have st: "steady vw ?R" by (rule apart_steady [OF apart_ready]) simp
  have lv: "works ?R (lvchange t s [''-pr''] ?n) (\<lambda>_. ?S)"
    by (rule interrupted_weaken [OF lvchange_works [OF laws, where K = "\<lambda>_. True" and T = "trusted cd (wa_manifest a)"
            and P = "\<lambda>u p s. True" and Q = "\<lambda>u p s. p = Some CHR ''r''"]])
      (auto simp: apart_def lvchange_effect_def)
  have change: "works (op_world cd a (\<lambda>h. ?R h \<and> vw_volume vw h ?n = Some v))
      (if vl_attr v ! 1 \<noteq> CHR ''r'' then or_failed k (on_host (lvchange t s [''-pr''] ?n)) else ret []) (\<lambda>_. op_world cd a ?S)"
    if "2 \<le> length (vl_attr v)" for v k
  proof (rule interrupted_if)
    show "works (op_world cd a (\<lambda>h. ?R h \<and> vw_volume vw h ?n = Some v)) (or_failed k (on_host (lvchange t s [''-pr''] ?n))) (\<lambda>_. op_world cd a ?S)"
      by (rule interrupted_pre [OF op_try [OF lv]]) (simp add: op_world_def)
  next
    assume "\<not> vl_attr v ! 1 \<noteq> CHR ''r''"
    with that have at: "attr_at 1 v = Some CHR ''r''" by (simp add: attr_at_def)
    show "works (op_world cd a (\<lambda>h. ?R h \<and> vw_volume vw h ?n = Some v)) (ret []) (\<lambda>_. op_world cd a ?S)"
      by (rule interrupted_ret) (use at has_volume_exact in \<open>fastforce simp: op_world_def\<close>)
  qed
  show ?thesis
    unfolding seal_image_def Let_def
    by (rule interrupted_then [OF look_up_works [OF laws st]], rule works_guard, rule interrupted_then [OF change], assumption,
        rule interrupted_then [OF works_fault], rule stage_works)
qed

lemma open_snapshot_works:
  assumes laws: "machine_laws t cd vw" and K: "apart vw {snapshot_name (cd_sha cd) (wa_operation a)} K"
  shows "works (op_world cd a K) (open_snapshot t cd a s old)
    (\<lambda>v. op_world cd a (\<lambda>h. K h \<and> has_volume t vw (snapshot_name (cd_sha cd) (wa_operation a)) (''operation_'' @ digest (cd_sha cd) (wa_operation a))
      (base_name (wa_manifest a)) (\<lambda>u p s. u = vl_uuid v \<and> p = Some CHR ''w'' \<and> s = Some CHR ''a'') h))"
proof -
  let ?k = "wa_operation a"
  let ?n = "snapshot_name (cd_sha cd) ?k" and ?tag = "''operation_'' @ digest (cd_sha cd) ?k" and ?org = "base_name (wa_manifest a)"
  let ?V = "\<lambda>P. has_volume t vw ?n ?tag ?org P"
  let ?W = "\<lambda>h. K h \<and> ?V (\<lambda>u p s. p = Some CHR ''w'') h"
  let ?A = "\<lambda>v h. K h \<and> ?V (\<lambda>u p s. u = vl_uuid v \<and> p = Some CHR ''w'' \<and> s = Some CHR ''a'') h"
  have made: "works (op_world cd a K) (or_failed ?k (on_host (create t cd s ?n ?tag ?org)))
      (\<lambda>v. op_world cd a (\<lambda>h. K h \<and> vw_volume vw h ?n = Some v \<and> validate t v ?tag ?org = Inr ()))"
    by (rule op_try [OF create_makes [OF laws K]])
  have K0: "apart vw {} K" by (rule apart_mono [OF K]) simp
  have stW: "steady vw ?W" by (intro apart_steady apart_conj K0 apart_volume) simp
  have writable: "works (op_world cd a (\<lambda>h. K h \<and> vw_volume vw h ?n = Some v \<and> validate t v ?tag ?org = Inr ()))
      (if vl_attr v ! 1 \<noteq> CHR ''w'' then or_failed ?k (on_host (lvchange t s [''-prw''] ?n)) else ret []) (\<lambda>_. op_world cd a ?W)"
    if "2 \<le> length (vl_attr v)" for v
  proof (rule interrupted_if)
    have lv: "works (\<lambda>h. K h \<and> ?V (\<lambda>u p s. True) h) (lvchange t s [''-prw''] ?n) (\<lambda>_. ?W)"
      by (rule interrupted_weaken [OF lvchange_works [OF laws K, where T = "\<lambda>_. True"
              and P = "\<lambda>u p s. True" and Q = "\<lambda>u p s. p = Some CHR ''w''"]])
        (auto simp: lvchange_effect_def)
    show "works (op_world cd a (\<lambda>h. K h \<and> vw_volume vw h ?n = Some v \<and> validate t v ?tag ?org = Inr ()))
        (or_failed ?k (on_host (lvchange t s [''-prw''] ?n))) (\<lambda>_. op_world cd a ?W)"
      by (rule interrupted_pre [OF op_try [OF lv]]) (auto simp: op_world_def has_volume_def)
  next
    assume "\<not> vl_attr v ! 1 \<noteq> CHR ''w''"
    with that have at: "attr_at 1 v = Some CHR ''w''" by (simp add: attr_at_def)
    show "works (op_world cd a (\<lambda>h. K h \<and> vw_volume vw h ?n = Some v \<and> validate t v ?tag ?org = Inr ())) (ret []) (\<lambda>_. op_world cd a ?W)"
      by (rule interrupted_ret) (use at in \<open>auto simp: op_world_def has_volume_def\<close>)
  qed
  have active: "works (op_world cd a (\<lambda>h. ?W h \<and> vw_volume vw h ?n = Some v))
      (if vl_attr v ! 4 \<noteq> CHR ''a'' then or_failed ?k (on_host (lvchange t s [''-ay'', ''-K''] ?n)) else ret []) (\<lambda>_. op_world cd a (?A v))"
    if "5 \<le> length (vl_attr v)" for v
  proof (rule interrupted_if)
    let ?U = "\<lambda>u p s. u = vl_uuid v \<and> p = Some CHR ''w''"
    have lv: "works (\<lambda>h. K h \<and> ?V ?U h) (lvchange t s [''-ay'', ''-K''] ?n) (\<lambda>_. ?A v)"
      by (rule interrupted_weaken [OF lvchange_works [OF laws K, where T = "\<lambda>_. True" and P = ?U
              and Q = "\<lambda>u p s. u = vl_uuid v \<and> p = Some CHR ''w'' \<and> s = Some CHR ''a''"]])
        (auto simp: lvchange_effect_def)
    show "works (op_world cd a (\<lambda>h. ?W h \<and> vw_volume vw h ?n = Some v))
        (or_failed ?k (on_host (lvchange t s [''-ay'', ''-K''] ?n))) (\<lambda>_. op_world cd a (?A v))"
      by (rule interrupted_pre [OF op_try [OF lv]]) (auto simp: op_world_def has_volume_def)
  next
    assume "\<not> vl_attr v ! 4 \<noteq> CHR ''a''"
    with that have at: "attr_at 4 v = Some CHR ''a''" by (simp add: attr_at_def)
    show "works (op_world cd a (\<lambda>h. ?W h \<and> vw_volume vw h ?n = Some v)) (ret []) (\<lambda>_. op_world cd a (?A v))"
      by (rule interrupted_ret) (use at in \<open>auto simp: op_world_def has_volume_def\<close>)
  qed
  have device: "works (?A v) (read_world f) (\<lambda>_. ?A v)" for v and f :: "'a \<Rightarrow> unit result" by (rule interrupted_read) auto
  show ?thesis
    unfolding open_snapshot_def Let_def
    by (rule interrupted_then [OF made], rule interrupted_then [OF works_fault], rule works_guard, rule works_guard,
        rule interrupted_then [OF writable], assumption, rule interrupted_then [OF works_fault],
        rule interrupted_then [OF look_up_works [OF laws stW]], rule works_guard, rule interrupted_then [OF active], assumption,
        rule interrupted_then [OF op_try [OF device]], rule interrupted_then [OF works_fault], rule interrupted_ret)
qed

subsection \<open>The operation\<close>

text \<open>What a registered operation rests on.\<close>

definition backed :: "('h, 'f) machine \<Rightarrow> 'h view \<Rightarrow> codec \<Rightarrow> 'f worker_args \<Rightarrow> string \<Rightarrow> 'h \<Rightarrow> bool" where
  "backed t vw cd a uuid h \<longleftrightarrow>
     has_volume t vw (base_name (wa_manifest a)) (''image_'' @ trim_prefix (wa_manifest a) ''sha256:'') []
       (\<lambda>u permission state. permission = Some CHR ''r'') h
     \<and> trusted cd (wa_manifest a) (vw_tree vw h (base_name (wa_manifest a)))
     \<and> has_volume t vw (snapshot_name (cd_sha cd) (wa_operation a)) (''operation_'' @ digest (cd_sha cd) (wa_operation a)) (base_name (wa_manifest a))
       (\<lambda>u permission state. u = uuid \<and> permission = Some CHR ''w'' \<and> state = Some CHR ''a'') h"

lemma prepare_works:
  fixes web :: "'n web" and t :: "('h, 'f) machine"
  assumes laws: "machine_laws t cd vw" and law: "marker_law cd (wa_manifest a)"
  shows "works (\<lambda>w. cache_ok (cd_sha cd) (iw_cache (ww_image w))) (prepare_main t cd web temps a)
    (\<lambda>u w. op_world cd a (backed t vw cd a u) w
      \<and> (\<exists>r. gm_get (ww_ops w) (wa_operation a) = Some (r\<lparr>ro_phase := ''registered'', ro_uuid := u, ro_error := []\<rparr>)))"
proof -
  let ?k = "wa_operation a" and ?n = "base_name (wa_manifest a)"
  let ?tag = "''image_'' @ trim_prefix (wa_manifest a) ''sha256:''"
  let ?V = "has_volume t vw ?n ?tag [] (\<lambda>u p s. True)"
  let ?R = "image_ready t vw cd a (\<lambda>_. True)" and ?S = "image_ready t vw cd a (\<lambda>p. p = Some CHR ''r'')"
  let ?any = "\<lambda>_ :: 'h. True"
  have any: "apart vw N ?any" "steady vw ?any" for N by (simp_all add: apart_def steady_def)
  have start: "works (\<lambda>w. cache_ok (cd_sha cd) (iw_cache (ww_image w))) (on_host (worker_start t cd a))
      (\<lambda>s w. cache_ok (cd_sha cd) (iw_cache (ww_image w)))"
    by (rule interrupted_weaken [OF works_on_host [OF worker_start_keeps [OF laws any(2)], where F = "\<lambda>i d. cache_ok (cd_sha cd) (iw_cache i)"]]) auto
  have load: "works (op_world cd a ?any) (or_failed ?k (on_image (loadLayers cd web src (manifest_desc a)))) (\<lambda>_. op_world cd a ?any)" for src
    by (rule works_or_failed, rule interrupted_weaken [OF load_pins [where G = "\<lambda>h d. \<exists>r. gm_get d ?k = Some r \<and> ro_image r = wa_manifest a
        \<and> ro_size r = wa_bytes a \<and> ro_snapshot r = snapshot_name (cd_sha cd) ?k"]])
      (auto simp: op_world_def)
  have made: "works (op_world cd a ?any) (or_failed ?k (on_host (create t cd s ?n ?tag []))) (\<lambda>_. op_world cd a ?V)" for s
    by (rule op_try, rule interrupted_weaken [OF create_makes [OF laws any(1)]]) (auto simp: has_volume_def)
  have verified: "works (op_world cd a ?V) (or_failed ?k (on_host (verify_image t cd s (wa_manifest a))))
      (\<lambda>v. op_world cd a (\<lambda>h. ?V h \<and> (v \<longrightarrow> trusted cd (wa_manifest a) (vw_tree vw h ?n))))" for s
    by (rule op_try [OF verify_image_trusts [OF laws apart_volume]]) simp
  have built: "works (op_world cd a (\<lambda>h. ?V h \<and> (v \<longrightarrow> trusted cd (wa_manifest a) (vw_tree vw h ?n))))
      (if v then ret () else act_then (or_failed ?k (lift_result (guard b e))) (\<lambda>_. build_image t cd web temps a s)) (\<lambda>_. op_world cd a ?R)"
    for v b e s
  proof (rule interrupted_if)
    show "v \<Longrightarrow> works (op_world cd a (\<lambda>h. ?V h \<and> (v \<longrightarrow> trusted cd (wa_manifest a) (vw_tree vw h ?n)))) (ret ()) (\<lambda>_. op_world cd a ?R)"
      by (rule interrupted_ret) (simp add: op_world_def)
    show "works (op_world cd a (\<lambda>h. ?V h \<and> (v \<longrightarrow> trusted cd (wa_manifest a) (vw_tree vw h ?n))))
        (act_then (or_failed ?k (lift_result (guard b e))) (\<lambda>_. build_image t cd web temps a s)) (\<lambda>_. op_world cd a ?R)"
      by (rule works_guard, rule interrupted_pre [OF build_image_works [OF laws law]]) (simp add: op_world_def)
  qed
  have apart_S: "apart vw {snapshot_name (cd_sha cd) ?k} ?S"
    by (rule apart_ready) (simp add: base_name_def snapshot_name_def)
  have snap: "works (op_world cd a ?S) (open_snapshot t cd a s old) (\<lambda>v. op_world cd a (backed t vw cd a (vl_uuid v)))" for s old
    by (rule interrupted_weaken [OF open_snapshot_works [OF laws apart_S]]) (auto simp: op_world_def backed_def)
  have registered: "works (op_world cd a (backed t vw cd a u)) (or_failed ?k (on_ops (write_world (update_op ?k (\<lambda>r. r\<lparr>ro_phase := ''registered'', ro_uuid := u, ro_error := []\<rparr>)))))
      (\<lambda>_ w. op_world cd a (backed t vw cd a u) w
        \<and> (\<exists>r. gm_get (ww_ops w) ?k = Some (r\<lparr>ro_phase := ''registered'', ro_uuid := u, ro_error := []\<rparr>)))" for u
    by (rule works_or_failed, rule update_works) simp
  show ?thesis
    unfolding prepare_main_def Let_def
  proof (rule interrupted_then [OF start], rule interrupted_then [OF interrupted_pre [OF admit_works [where P = ?any]]], simp)
    fix s old
    show "works (op_world cd a ?any) (act_then (fault_point (wa_crash a) ''requested'') (\<lambda>_.
     act_then (or_failed ?k (on_host (capacity t cd s 0))) (\<lambda>_.
     act_then (or_failed ?k (on_image (loadLayers cd web (wa_store a, wa_crash a, temps) (manifest_desc a)))) (\<lambda>loaded.
     act_then (stage (wa_crash a) ?k ''verified'') (\<lambda>_.
     act_then (or_failed ?k (on_host (create t cd s ?n ?tag []))) (\<lambda>origin.
     act_then (fault_point (wa_crash a) ''lv'') (\<lambda>_.
     act_then (or_failed ?k (on_host (verify_image t cd s (wa_manifest a)))) (\<lambda>valid.
     act_then (if valid then ret ()
       else act_then (or_failed ?k (lift_result (guard (\<not> has_attr 1 CHR ''r'' origin) ''sealed image verification failed''))) (\<lambda>_.
         build_image t cd web temps a s)) (\<lambda>_.
     act_then (seal_image t cd a s) (\<lambda>_.
     act_then (open_snapshot t cd a s (ro_uuid old)) (\<lambda>snap.
     act_then (or_failed ?k (on_ops (write_world (update_op ?k (\<lambda>r. r\<lparr>ro_phase := ''registered'', ro_uuid := vl_uuid snap, ro_error := []\<rparr>))))) (\<lambda>_.
     act_then (fault_point (wa_crash a) ''registered'') (\<lambda>_. ret (vl_uuid snap))))))))))))))
     (\<lambda>u w. op_world cd a (backed t vw cd a u) w
      \<and> (\<exists>r. gm_get (ww_ops w) ?k = Some (r\<lparr>ro_phase := ''registered'', ro_uuid := u, ro_error := []\<rparr>)))"
      by (rule interrupted_then [OF works_fault], rule interrupted_then [OF op_try [OF capacity_keeps [OF laws any(2)]]],
          rule interrupted_then [OF load], rule interrupted_then [OF stage_works], rule interrupted_then [OF made],
          rule interrupted_then [OF works_fault], rule interrupted_then [OF verified], rule interrupted_then [OF built],
          rule interrupted_then [OF seal_image_works [OF laws]], rule interrupted_then [OF snap], rule interrupted_then [OF registered],
          rule interrupted_then [OF works_fault], rule interrupted_ret)
  qed
qed

end
