(* ===== verification/Prepare_Outcome.thy ===== *)
theory Prepare_Outcome
  imports Prepare_Props
begin

section \<open>Prepared operations: the properties and a machine that satisfies the laws\<close>

text \<open>
  The sample machine has a thin pool and two volumes that may exist, one mount point and the filesystem of the image
  volume. Its decoder knows the few texts of the run; its hash is constant, so that one blob is the whole image.
\<close>

subsection \<open>A machine\<close>

record lab =
  lab_base :: "bool option"
  lab_snap :: "(bool \<times> bool) option"
  lab_mounted :: bool
  lab_fs :: fs

definition lab_sha :: "string \<Rightarrow> string" where
  "lab_sha x = replicate 32 CHR ''a''"

definition lab_hex :: string where
  "lab_hex = hex_encode (replicate 32 CHR ''a'')"

definition lab_img :: string where
  "lab_img = ''sha256:'' @ lab_hex"

definition lab_n :: string where
  "lab_n = base_name lab_img"

definition lab_s :: string where
  "lab_s = snapshot_name lab_sha ''op-1''"

definition lab_path :: string where
  "lab_path = path_join (path_join ''/var/lib/edgelab-worker'' ''mounts'') lab_n"

text \<open>For evaluation, the names as literals.\<close>

lemma lab_names [code]:
  "lab_hex = ''6161616161616161616161616161616161616161616161616161616161616161''"
  "lab_img = ''sha256:6161616161616161616161616161616161616161616161616161616161616161''"
  "lab_n = ''image_616161616161616161616161''"
  "lab_s = ''operation_616161616161616161616161''"
  "lab_path = ''/var/lib/edgelab-worker/mounts/image_616161616161616161616161''"
  by code_simp+

definition lab_volume :: "string \<Rightarrow> string \<Rightarrow> string \<Rightarrow> string \<Rightarrow> string \<Rightarrow> volume" where
  "lab_volume n uuid tags org attr = \<lparr>vl_name = n, vl_uuid = uuid, vl_tags = tags, vl_pool = ''pool'', vl_origin = org, vl_attr = attr,
     vl_size = ''268435456'', vl_data = ''10'', vl_meta = ''10''\<rparr>"

definition lab_volumes :: "lab \<Rightarrow> volume list" where
  "lab_volumes h = lab_volume ''pool'' ''u-pool'' [] [] ''twi-ao''
     # (case lab_base h of None \<Rightarrow> []
        | Some r \<Rightarrow> [lab_volume lab_n ''u-base'' (''edgelab_worker,image_'' @ lab_hex) [] (if r then ''Vri-a-'' else ''Vwi-a-'')])
     @ (case lab_snap h of None \<Rightarrow> []
        | Some (w, act) \<Rightarrow> [lab_volume lab_s ''u-snap'' (''operation_'' @ lab_hex @ '',edgelab_worker'') lab_n
            (''V'' @ (if w then ''w'' else ''r'') @ ''i-'' @ (if act then ''a'' else ''-'') @ ''-'')])"

text \<open>The report as a text of four characters, and what the decoder makes of it.\<close>

definition lab_report :: "lab \<Rightarrow> string" where
  "lab_report h = [CHR ''v'', case lab_base h of None \<Rightarrow> CHR ''0'' | Some r \<Rightarrow> if r then CHR ''r'' else CHR ''w'',
     case lab_snap h of None \<Rightarrow> CHR ''0'' | Some (w, act) \<Rightarrow> if w then CHR ''w'' else CHR ''r'',
     case lab_snap h of Some (w, True) \<Rightarrow> CHR ''a'' | _ \<Rightarrow> CHR ''-'']"

definition lab_volume_json :: "volume \<Rightarrow> json" where
  "lab_volume_json v = JObj [(''lv_name'', JStr (vl_name v)), (''lv_uuid'', JStr (vl_uuid v)), (''lv_tags'', JStr (vl_tags v)),
     (''pool_lv'', JStr (vl_pool v)), (''origin'', JStr (vl_origin v)), (''lv_attr'', JStr (vl_attr v)), (''lv_size'', JStr (vl_size v)),
     (''data_percent'', JStr (vl_data v)), (''metadata_percent'', JStr (vl_meta v))]"

definition lab_decode :: "string \<Rightarrow> json result" where
  "lab_decode x = (case x of [v, b, p, s] \<Rightarrow>
     Inr (JObj [(''report'', JArr [JObj [(''lv'', JArr (map lab_volume_json (lab_volumes
       \<lparr>lab_base = (if b = CHR ''0'' then None else Some (b = CHR ''r'')),
        lab_snap = (if p = CHR ''0'' then None else Some (p = CHR ''w'', s = CHR ''a'')), lab_mounted = False, lab_fs = []\<rparr>)))]])])
   | _ \<Rightarrow> Inl ''invalid character'')"

definition lab_descriptor :: "string \<Rightarrow> json" where
  "lab_descriptor media = JObj [(''mediaType'', JStr media), (''digest'', JStr lab_img), (''size'', JNum 1)]"

definition lab_json :: "string \<Rightarrow> json result" where
  "lab_json x =
     (if x = ''B'' then Inr (JObj [(''schemaVersion'', JNum 2), (''mediaType'', JStr ''application/vnd.oci.image.manifest.v1+json''),
        (''config'', lab_descriptor ''application/vnd.oci.image.config.v1+json''), (''layers'', JArr [lab_descriptor layer_type]),
        (''architecture'', JStr ''arm64''), (''os'', JStr ''linux''),
        (''rootfs'', JObj [(''type'', JStr ''layers''), (''diff_ids'', JArr [JStr lab_img])])])
      else if x = ''P'' then Inr (JObj [(''machine'', JStr ''m-1''), (''device'', JStr ''/dev/loop7''), (''uuid'', JStr ''u-pool'')])
      else if x = marker_text lab_img lab_hex then Inr (JObj [(''manifest'', JStr lab_img), (''tree'', JStr lab_hex)])
      else lab_decode x)"

definition lab_codec :: codec where
  "lab_codec = \<lparr>cd_sha = lab_sha, cd_json = lab_json, cd_gunzip = (\<lambda>b. Inr b),
     cd_untar = (\<lambda>_. [Inr (img_header ''bin/run'' TypeReg 493 2, Inr ''ok'')])\<rparr>"

definition lab_web :: "unit web" where
  "lab_web url n = (Inr (200, Inr ''B''), n)"

text \<open>Commands: those that look, then those that change. What is not expected is refused.\<close>

definition lab_answer :: "string list \<Rightarrow> lab \<Rightarrow> string result" where
  "lab_answer argv h =
     (if hd argv = ''lvs'' then Inr (lab_report h)
      else if hd argv = ''losetup'' then Inr ''/var/lib/edgelab-worker/disk''
      else if hd argv = ''readlink'' then Inr (last argv)
      else if hd argv = ''findmnt'' \<and> lab_path \<in> set argv \<and> lab_mounted h then Inr (volume_path lab_n)
      else Inl ''exit status 1'')"

definition lab_change :: "string list \<Rightarrow> lab \<Rightarrow> string result \<times> lab" where
  "lab_change argv h =
     (if hd argv = ''mount'' then
        (if drop 3 argv = [volume_path lab_n, lab_path] \<and> lab_fs h \<noteq> [] then (Inr [], h\<lparr>lab_mounted := True\<rparr>) else (Inl ''exit status 32'', h))
      else if hd argv = ''umount'' then (Inr [], h\<lparr>lab_mounted := False\<rparr>)
      else if argv = [''mkfs.ext4'', ''-q'', ''-F'', volume_path lab_n] then (Inr [], h\<lparr>lab_fs := [([], Dir 493), ([''lost+found''], Dir 448)]\<rparr>)
      else if hd argv = ''lvchange'' \<and> drop 3 argv = [''-pr'', ''edgelab_worker/'' @ lab_n] then
        (Inr [], h\<lparr>lab_base := map_option (\<lambda>_. True) (lab_base h)\<rparr>)
      else if hd argv = ''lvchange'' \<and> drop 3 argv = [''-prw'', ''edgelab_worker/'' @ lab_s] then
        (Inr [], h\<lparr>lab_snap := map_option (\<lambda>(w, act). (True, act)) (lab_snap h)\<rparr>)
      else if hd argv = ''lvchange'' \<and> drop 3 argv = [''-ay'', ''-K'', ''edgelab_worker/'' @ lab_s] then
        (Inr [], h\<lparr>lab_snap := map_option (\<lambda>(w, act). (w, True)) (lab_snap h)\<rparr>)
      else if hd argv = ''lvcreate'' \<and> argv ! 8 = lab_n then (Inr [], h\<lparr>lab_base := Some False\<rparr>)
      else if hd argv = ''lvcreate'' \<and> argv ! 8 = lab_s then (Inr [], h\<lparr>lab_snap := Some (False, False)\<rparr>)
      else (Inl ''exit status 5'', h))"

definition lab_machine :: "(lab, int) machine" where
  "lab_machine = \<lparr>mc_run = (\<lambda>argv h. if hd argv \<in> set reader_commands then (lab_answer argv h, h) else lab_change argv h),
     mc_read = (\<lambda>path h. if path = ''/var/lib/edgelab-worker/pool.json'' then Inr ''P'' else if path = ''/etc/machine-id'' then Inr ''m-1 ''
       else (case gm_get (lab_fs h) marker_key of Some (File m t b) \<Rightarrow> Inr b | _ \<Rightarrow> Inl ''no such file or directory'')),
     mc_mkdir = (\<lambda>path h. (Inr (), h)), mc_walk = (\<lambda>path h. walk_of (lab_fs h)), mc_fs = (\<lambda>path h. lab_fs h),
     mc_put_fs = (\<lambda>path f h. h\<lparr>lab_fs := f\<rparr>), mc_private = (\<lambda>path h. True), mc_device = (\<lambda>path h. True), mc_umask = 18,
     mc_parse = (\<lambda>x. case read_digits 0 x of None \<Rightarrow> Inl ''invalid syntax'' | Some n \<Rightarrow> Inr (int n)),
     mc_num = (\<lambda>n. n), mc_add = (+), mc_mul = (*), mc_div = (div), mc_le = (\<le>), mc_eq = (=)\<rparr>"

definition lab_view :: "lab view" where
  "lab_view = \<lparr>vw_volume = (\<lambda>h n. find (\<lambda>v. vl_name v = n) (lab_volumes h)), vw_tree = (\<lambda>h n. if n = lab_n then walk_of (lab_fs h) else []),
     vw_fs = (\<lambda>h n. if n = lab_n then lab_fs h else []), vw_mounted = (\<lambda>h path. if path = lab_path \<and> lab_mounted h then Some lab_n else None),
     vw_canon = (\<lambda>x. x)\<rparr>"

definition lab_args :: "int worker_args" where
  "lab_args = \<lparr>wa_euid = 0, wa_root = ''/var/lib/edgelab-worker'', wa_store = ''http://store'', wa_operation = ''op-1'', wa_manifest = lab_img,
     wa_bytes = 1, wa_crash = [], wa_unpack = [], wa_data = 80, wa_meta = 70\<rparr>"

definition lab_start :: "(unit, lab) worker_world" where
  "lab_start = \<lparr>ww_image = \<lparr>iw_cache = [], iw_net = ()\<rparr>, ww_ops = [],
     ww_host = \<lparr>lab_base = None, lab_snap = None, lab_mounted = False, lab_fs = []\<rparr>\<rparr>"

subsection \<open>The laws hold\<close>

lemma lab_names_differ: "lab_n \<noteq> lab_s" "''pool'' \<noteq> lab_n" "''pool'' \<noteq> lab_s"
  by (simp_all add: lab_n_def lab_s_def base_name_def snapshot_name_def)

lemma lab_simps:
  "mc_run lab_machine argv h = (if hd argv \<in> set reader_commands then (lab_answer argv h, h) else lab_change argv h)"
  "mc_mkdir lab_machine path h = (Inr (), h)" "mc_walk lab_machine path h = walk_of (lab_fs h)" "mc_fs lab_machine path h = lab_fs h"
  "mc_put_fs lab_machine path f h = h\<lparr>lab_fs := f\<rparr>" "cd_json lab_codec = lab_json" "cd_sha lab_codec = lab_sha"
  "vw_canon lab_view x = x" "vw_mounted lab_view h = (\<lambda>path. if path = lab_path \<and> lab_mounted h then Some lab_n else None)"
  "vw_tree lab_view h n = (if n = lab_n then walk_of (lab_fs h) else [])" "vw_fs lab_view h n = (if n = lab_n then lab_fs h else [])"
  by (simp_all add: lab_machine_def lab_codec_def lab_view_def)

text \<open>The decoder reads the report of any state of the machine.\<close>

lemma lab_volume_read: "read_struct volume_field (lab_volume_json v) zero_volume = Inr v"
  by (simp add: lab_volume_json_def volume_field_def names_field_def fold_name_def to_lower_def lower_char_def zero_volume_def)

lemma read_slice_map:
  assumes "\<And>x. elem (f x) zero = Inr x"
  shows "read_slice elem zero (JArr (map f xs)) = Inr xs"
proof -
  have "fold_result (\<lambda>x acc. and_then (elem x zero) (\<lambda>y. Inr (acc @ [y]))) (map f xs) acc = Inr (acc @ xs)" for acc
    by (induction xs arbitrary: acc) (simp_all add: assms)
  then show ?thesis by (simp add: read_slice_def)
qed

lemma lab_decode_report: "lab_decode (lab_report h) = Inr (JObj [(''report'', JArr [JObj [(''lv'', JArr (map lab_volume_json (lab_volumes h)))]])])"
  by (cases "lab_base h"; cases "lab_snap h") (auto simp: lab_decode_def lab_report_def lab_volumes_def split: bool.splits if_splits)

lemma lab_marker_hd: "hd (marker_text lab_img lab_hex) = CHR ''{''"
  by code_simp

lemma lab_json_report: "lab_json (lab_report h) = lab_decode (lab_report h)"
proof -
  have "lab_report h \<noteq> ''B''" "lab_report h \<noteq> ''P''" by (simp_all add: lab_report_def)
  moreover have "hd (lab_report h) = CHR ''v''" by (simp add: lab_report_def)
  then have "lab_report h \<noteq> marker_text lab_img lab_hex" using lab_marker_hd by auto
  ultimately show ?thesis by (simp add: lab_json_def)
qed

lemma lab_find: "find_volume lab_codec n (lab_report h) = Inr (vw_volume lab_view h n)"
proof -
  have "read_report (JObj [(''report'', JArr [JObj [(''lv'', JArr (map lab_volume_json (lab_volumes h)))]])]) = Inr [lab_volumes h]"
    using read_slice_map [of "read_struct volume_field" lab_volume_json zero_volume "lab_volumes h", OF lab_volume_read]
    by (simp add: read_report_def report_field_def group_field_def names_field_def read_slice_def)
  then show ?thesis
    by (simp add: find_volume_def lab_simps lab_json_report lab_decode_report lab_view_def)
qed

lemma lab_lvs: "mc_run lab_machine (lvs_args s) h = (Inr (lab_report h), h)"
  by (simp add: lab_simps lvs_args_def reader_commands_def lab_answer_def)

lemma lab_reading: "reading_laws lab_machine lab_codec lab_view"
  unfolding reading_laws_def
proof (intro conjI allI impI)
  fix path h source h'
  assume "mc_run lab_machine [''readlink'', ''-f'', path] h = (Inr source, h')"
  then show "source = vw_canon lab_view path" by (simp add: lab_simps reader_commands_def lab_answer_def)
next
  fix s :: "int storage" and h out h' n
  assume "mc_run lab_machine (lvs_args s) h = (Inr out, h')"
  then show "find_volume lab_codec n out = Inr (vw_volume lab_view h' n)" by (auto simp: lab_lvs lab_find)
next
  fix path h source h' n
  assume "mc_run lab_machine [''findmnt'', ''--noheadings'', ''--mountpoint'', path, ''-o'', ''SOURCE''] h = (Inr source, h')
      \<and> vw_canon lab_view source = vw_canon lab_view (volume_path n)"
  moreover have "lab_path \<notin> {''findmnt'', ''--noheadings'', ''--mountpoint'', ''-o'', ''SOURCE''}" by code_simp
  ultimately show "vw_mounted lab_view h' path = Some n"
    by (auto simp: lab_simps reader_commands_def lab_answer_def volume_path_def split: if_splits)
qed (auto simp: lab_simps same_but_def split: if_splits)

lemma lab_mounting: "mounting_laws lab_machine lab_codec lab_view"
  unfolding mounting_laws_def
proof (intro conjI allI impI)
  fix options n path h r h'
  assume "mc_run lab_machine [''mount'', ''-o'', options, volume_path n, path] h = (r, h')"
  then show "same_but lab_view {} h h'" "case r of Inl _ \<Rightarrow> True | Inr _ \<Rightarrow> vw_mounted lab_view h' path = Some n"
    by (auto simp: lab_simps reader_commands_def lab_change_def same_but_def core_at_def lab_view_def lab_volumes_def volume_path_def split: if_splits)
next
  fix path h r h'
  assume "mc_run lab_machine [''umount'', path] h = (r, h')"
  then show "same_but lab_view {} h h'"
    by (auto simp: lab_simps reader_commands_def lab_change_def same_but_def core_at_def lab_view_def lab_volumes_def)
next
  fix path h n b
  assume m: "vw_mounted lab_view h path = Some n" "mc_read lab_machine (path_join path ''.edgelab-image.json'') h = Inr b"
  then have p: "path = lab_path" "n = lab_n" by (auto simp: lab_simps split: if_splits)
  moreover have "path_join lab_path ''.edgelab-image.json'' \<noteq> ''/var/lib/edgelab-worker/pool.json'' \<and> path_join lab_path ''.edgelab-image.json'' \<noteq> ''/etc/machine-id''"
    by code_simp
  ultimately obtain m t where "gm_get (lab_fs h) marker_key = Some (File m t b)"
    using m(2) by (auto simp: lab_machine_def split: option.splits node.splits)
  then show "\<exists>m. (marker_key, TreeFile m b) \<in> set (vw_tree lab_view h n)"
    by (force simp: lab_simps p walk_of_def dest: map_of_SomeD)
qed (auto simp: lab_simps same_but_def core_at_def lab_view_def lab_volumes_def split: if_splits)

lemma lab_lvchange:
  "mc_run lab_machine ([''lvchange'', ''--devices'', device] @ [''-pr''] @ [''edgelab_worker/'' @ n]) h =
    (if n = lab_n then (Inr [], h\<lparr>lab_base := map_option (\<lambda>_. True) (lab_base h)\<rparr>) else (Inl ''exit status 5'', h))"
  "mc_run lab_machine ([''lvchange'', ''--devices'', device] @ [''-prw''] @ [''edgelab_worker/'' @ n]) h =
    (if n = lab_s then (Inr [], h\<lparr>lab_snap := map_option (\<lambda>(w, act). (True, act)) (lab_snap h)\<rparr>) else (Inl ''exit status 5'', h))"
  "mc_run lab_machine ([''lvchange'', ''--devices'', device] @ [''-ay'', ''-K''] @ [''edgelab_worker/'' @ n]) h =
    (if n = lab_s then (Inr [], h\<lparr>lab_snap := map_option (\<lambda>(w, act). (w, True)) (lab_snap h)\<rparr>) else (Inl ''exit status 5'', h))"
  by (simp_all add: lab_simps reader_commands_def lab_change_def)

lemma lab_core:
  "core_at lab_view h n =
    (if n = ''pool'' then Some (core (lab_volume ''pool'' ''u-pool'' [] [] ''twi-ao''))
     else if n = lab_n then map_option (\<lambda>r. core (lab_volume lab_n ''u-base'' (''edgelab_worker,image_'' @ lab_hex) [] (if r then ''Vri-a-'' else ''Vwi-a-''))) (lab_base h)
     else if n = lab_s then map_option (\<lambda>(w, act). core (lab_volume lab_s ''u-snap'' (''operation_'' @ lab_hex @ '',edgelab_worker'') lab_n
            (''V'' @ (if w then ''w'' else ''r'') @ ''i-'' @ (if act then ''a'' else ''-'') @ ''-''))) (lab_snap h)
     else None)"
  using lab_names_differ
  by (auto simp: core_at_def lab_view_def lab_volumes_def lab_volume_def split: option.split)

lemma lab_volume_laws: "volume_laws lab_machine lab_codec lab_view"
  unfolding volume_laws_def
proof (intro conjI allI impI)
  fix n h x h'
  assume "mc_run lab_machine [''mkfs.ext4'', ''-q'', ''-F'', volume_path n] h = (Inr x, h')"
  then show "same_but lab_view {n} h h'" "core_at lab_view h' n = core_at lab_view h n"
    by (auto simp: lab_simps reader_commands_def lab_change_def same_but_def lab_core volume_path_def split: if_splits)
next
  fix device flags n h x h'
  assume run: "flags \<in> {[''-pr''], [''-prw''], [''-ay'', ''-K'']}
      \<and> mc_run lab_machine ([''lvchange'', ''--devices'', device] @ flags @ [''edgelab_worker/'' @ n]) h = (Inr x, h')"
  then have c: "flags = [''-pr''] \<and> n = lab_n \<and> h' = h\<lparr>lab_base := map_option (\<lambda>_. True) (lab_base h)\<rparr>
    \<or> flags = [''-prw''] \<and> n = lab_s \<and> h' = h\<lparr>lab_snap := map_option (\<lambda>(w, act). (True, act)) (lab_snap h)\<rparr>
    \<or> flags = [''-ay'', ''-K''] \<and> n = lab_s \<and> h' = h\<lparr>lab_snap := map_option (\<lambda>(w, act). (w, True)) (lab_snap h)\<rparr>"
    by (elim conjE insertE emptyE) (simp_all only: lab_lvchange, simp_all split: if_splits)
  then show "same_but lab_view {n} h h'" "vw_tree lab_view h' n = vw_tree lab_view h n"
    using lab_names_differ by (auto simp: lab_simps same_but_def lab_core)
  show "core_at lab_view h' n = map_option (lvchange_effect flags) (core_at lab_view h n)"
    using c lab_names_differ
    by (elim disjE conjE; cases "lab_base h"; cases "lab_snap h")
      (auto simp: lab_core lvchange_effect_def core_def lab_volume_def attr_at_def)
next
  fix s :: "int storage" and n tag origin h x h'
  assume "mc_run lab_machine (create_args s n tag origin) h = (Inr x, h')"
  then have "n = lab_n \<and> h' = h\<lparr>lab_base := Some False\<rparr> \<or> n = lab_s \<and> h' = h\<lparr>lab_snap := Some (False, False)\<rparr>"
    by (simp add: lab_simps create_args_def reader_commands_def lab_change_def split: if_splits)
  then show "same_but lab_view {n} h h'" using lab_names_differ by (auto simp: lab_simps same_but_def lab_core)
qed

lemma lab_laws: "machine_laws lab_machine lab_codec lab_view"
  by (simp add: machine_laws_def lab_reading lab_mounting lab_volume_laws)

lemma lab_marker: "marker_law lab_codec lab_img"
proof -
  have "digest lab_sha x = lab_hex" for x by (simp add: digest_def lab_sha_def lab_hex_def)
  moreover have "marker_text lab_img lab_hex \<noteq> ''B'' \<and> marker_text lab_img lab_hex \<noteq> ''P''" by code_simp
  ultimately show ?thesis by (simp add: marker_law_def lab_simps lab_json_def)
qed

subsection \<open>Properties\<close>

text \<open>C35. The extraction child leaves exactly the pinned image: if it returns without an error on a volume whose
  filesystem was well-formed, then whatever failed on the way, the volume holds the overlay of the layers that the
  manifest digest pins over what was there, and one more file, the marker, which names the manifest and the digest of
  the tree that the volume now has.\<close>

theorem unpacked_volume_is_the_image:
  assumes "machine_laws t cd vw" and "cache_ok (cd_sha cd) (iw_cache (ww_image w))"
    and "vw_mounted vw (ww_host w) (wa_unpack a) = Some (base_name (wa_manifest a))"
    and "fs_ok (gm_get (vw_fs vw (ww_host w) (base_name (wa_manifest a))))"
    and "unpack_main t cd web temps a (w, os) = (Inr u, (w', os'))"
  shows "\<exists>m layers mode hash. image_pinned cd (manifest_desc a) m layers
    \<and> gm_get (vw_fs vw (ww_host w') (base_name (wa_manifest a))) =
        (fold (overlay (mc_umask t)) layers (gm_get (vw_fs vw (ww_host w) (base_name (wa_manifest a)))))
          (marker_key \<mapsto> File mode None (marker_text (wa_manifest a) hash))
    \<and> treeDigest (cd_sha cd) (vw_tree vw (ww_host w') (base_name (wa_manifest a))) = Inr hash"
proof -
  have "apart vw {base_name (wa_manifest a)} (\<lambda>_. True)" by (simp add: apart_def)
  note u = unpack_main_works [OF assms(1) this refl, where F = "\<lambda>_. True" and C = "\<lambda>_. True"
      and ?f0.0 = "vw_fs vw (ww_host w) (base_name (wa_manifest a))"]
  from interruptedD [OF u _ assms(5)] assms(2,3) have
    "unpacked (mc_umask t) cd a (vw_fs vw (ww_host w) (base_name (wa_manifest a))) (vw_fs vw (ww_host w') (base_name (wa_manifest a)))"
    "vw_tree vw (ww_host w') (base_name (wa_manifest a)) = walk_of (vw_fs vw (ww_host w') (base_name (wa_manifest a)))"
    by simp_all
  with assms(4) show ?thesis unfolding unpacked_def by (fastforce simp: gm.get_put digest_put_marker)
qed

definition lab_child :: "int worker_args" where
  "lab_child = lab_args\<lparr>wa_unpack := lab_path\<rparr>"

definition lab_formatted :: "(unit, lab) worker_world" where
  "lab_formatted = lab_start\<lparr>ww_host := \<lparr>lab_base = Some False, lab_snap = None, lab_mounted = True,
     lab_fs = [([], Dir 493), ([''lost+found''], Dir 448)]\<rparr>\<rparr>"

lemma lab_child_run: "\<exists>w' os'. unpack_main lab_machine lab_codec lab_web [''1''] lab_child (lab_formatted, []) = (Inr (), (w', os'))"
proof -
  have "fst (unpack_main lab_machine lab_codec lab_web [''1''] lab_child (lab_formatted, [])) = Inr ()" by code_simp
  then show ?thesis by (cases "unpack_main lab_machine lab_codec lab_web [''1''] lab_child (lab_formatted, [])") auto
qed

theorem unpacked_volume_is_the_image_witness:
  "\<exists>(w' :: (unit, lab) worker_world) m layers mode hash. image_pinned lab_codec (manifest_desc lab_child) m layers
    \<and> gm_get (vw_fs lab_view (ww_host w') lab_n) =
        (fold (overlay 18) layers (gm_get [([], Dir 493), ([''lost+found''], Dir 448)]))
          (marker_key \<mapsto> File mode None (marker_text lab_img hash))
    \<and> treeDigest lab_sha (vw_tree lab_view (ww_host w') lab_n) = Inr hash"
proof -
  from lab_child_run obtain w' os' where run: "unpack_main lab_machine lab_codec lab_web [''1''] lab_child (lab_formatted, []) = (Inr (), (w', os'))"
    by blast
  have n: "base_name lab_img = lab_n" "wa_manifest lab_child = lab_img" "wa_unpack lab_child = lab_path"
    by (simp_all add: lab_child_def lab_args_def lab_n_def)
  have cache: "cache_ok (cd_sha lab_codec) (iw_cache (ww_image lab_formatted))"
    by (simp add: lab_formatted_def lab_start_def cache_ok_def)
  have mounted: "vw_mounted lab_view (ww_host lab_formatted) (wa_unpack lab_child) = Some (base_name (wa_manifest lab_child))"
    unfolding n by (simp add: lab_simps lab_formatted_def)
  have fs: "vw_fs lab_view (ww_host lab_formatted) lab_n = [([], Dir 493), ([''lost+found''], Dir 448)]"
    by (simp add: lab_simps lab_formatted_def)
  have ok: "fs_ok (gm_get (vw_fs lab_view (ww_host lab_formatted) (base_name (wa_manifest lab_child))))"
    unfolding n fs by (auto simp: fs_ok_def plain_part_def split: if_splits)
  have par: "mc_umask lab_machine = 18" "cd_sha lab_codec = lab_sha" by (simp_all add: lab_machine_def lab_codec_def)
  from unpacked_volume_is_the_image [OF lab_laws cache mounted ok run, unfolded n fs par] show ?thesis by blast
qed

text \<open>C34. A registered operation is backed: if a run returns without an error, then whatever calls failed on the way,
  the row of the operation is registered with the UUID it returned and still has its image, size and snapshot; the
  image volume is the validated one of the manifest, is read-only, and carries a marker with this manifest and the
  digest that its tree really has; and the snapshot is the validated volume over that image with the registered UUID,
  writable and active.\<close>

theorem registered_operation_is_backed:
  assumes "machine_laws t cd vw" and "marker_law cd (wa_manifest a)" and "cache_ok (cd_sha cd) (iw_cache (ww_image w))"
    and "prepare_main t cd web temps a (w, os) = (Inr uuid, (w', os'))"
  shows "backed t vw cd a uuid (ww_host w')
    \<and> (\<exists>r. gm_get (ww_ops w') (wa_operation a) = Some r \<and> ro_phase r = ''registered'' \<and> ro_uuid r = uuid
      \<and> ro_image r = wa_manifest a \<and> ro_size r = wa_bytes a \<and> ro_snapshot r = snapshot_name (cd_sha cd) (wa_operation a))"
  using interruptedD [OF prepare_works [OF assms(1,2)] assms(3,4)] by (auto simp: op_world_def)

definition lab_end :: "(unit, lab) worker_world" where
  "lab_end = fst (snd (prepare_main lab_machine lab_codec lab_web [''1''] lab_args (lab_start, [])))"

lemma lab_run: "\<exists>os'. prepare_main lab_machine lab_codec lab_web [''1''] lab_args (lab_start, []) = (Inr ''u-snap'', (lab_end, os'))"
proof -
  have "fst (prepare_main lab_machine lab_codec lab_web [''1''] lab_args (lab_start, [])) = Inr ''u-snap''" by code_simp
  then show ?thesis unfolding lab_end_def by (metis prod.collapse)
qed

theorem registered_operation_is_backed_witness:
  "backed lab_machine lab_view lab_codec lab_args ''u-snap'' (ww_host lab_end)
    \<and> (\<exists>r. gm_get (ww_ops lab_end) ''op-1'' = Some r \<and> ro_phase r = ''registered'' \<and> ro_uuid r = ''u-snap''
      \<and> ro_image r = lab_img \<and> ro_size r = 1 \<and> ro_snapshot r = lab_s)"
proof -
  have a: "wa_manifest lab_args = lab_img" "wa_operation lab_args = ''op-1''" "wa_bytes lab_args = 1" by (simp_all add: lab_args_def)
  have cache: "cache_ok (cd_sha lab_codec) (iw_cache (ww_image lab_start))" by (simp add: lab_start_def cache_ok_def)
  from lab_run obtain os' where run: "prepare_main lab_machine lab_codec lab_web [''1''] lab_args (lab_start, []) = (Inr ''u-snap'', (lab_end, os'))"
    by blast
  from registered_operation_is_backed [OF lab_laws _ cache run] lab_marker show ?thesis
    by (simp add: a lab_simps lab_s_def)
qed

end
