(* ===== verification/Objects_Props.thy ===== *)
theory Objects_Props
  imports Objects
begin

section \<open>Objects are what their names say, for ever\<close>

subsection \<open>Names\<close>

definition is_object :: "string \<Rightarrow> bool" where
  "is_object k \<longleftrightarrow> object_id (''/objects/'' @ k) = Some k"

lemma object_id_path:
  "object_id (''/objects/'' @ k) = (case hex_decode k of None \<Rightarrow> None
     | Some decoded \<Rightarrow> if length decoded \<noteq> 32 \<or> k \<noteq> to_lower k then None else Some k)"
  unfolding object_id_def Let_def trim_prefix_append by (auto simp: prefix_def split: option.splits)

lemma object_id_is_object: "object_id path = Some i \<Longrightarrow> is_object i"
  unfolding is_object_def object_id_path by (auto simp: object_id_def Let_def split: option.splits if_splits)

lemma dot_no_hex: "hex_decode (CHR ''.'' # cs) = None"
  by (cases cs) (simp_all add: hex_value_def less_eq_char_def)

lemma dot_not_object: "\<not> is_object (CHR ''.'' # cs)"
  unfolding is_object_def object_id_path dot_no_hex by simp

lemma pending_not_object: "is_pending k \<Longrightarrow> \<not> is_object k"
  by (auto simp: is_pending_def prefix_def dot_not_object)

lemma owner_not_object: "\<not> is_object ''.owner''" "\<not> is_pending ''.owner''"
  by (rule dot_not_object) (simp add: is_pending_def)

subsection \<open>The invariant\<close>

definition store_ok :: "(string \<Rightarrow> string) \<Rightarrow> object_store \<Rightarrow> bool" where
  "store_ok sha w \<longleftrightarrow> gm_ok (st_root_dir w)
     \<and> (\<forall>k b. is_object k \<longrightarrow> gm_get (st_root_dir w) k = Some b \<longrightarrow> hex_encode (sha b) = k)"

definition store_keeps :: "object_store \<Rightarrow> object_store \<Rightarrow> bool" where
  "store_keeps w w' \<longleftrightarrow> (\<forall>k b. \<not> is_pending k \<longrightarrow> gm_get (st_root_dir w) k = Some b \<longrightarrow> gm_get (st_root_dir w') k = Some b)"

definition store_grows :: "(string \<Rightarrow> string) \<Rightarrow> object_store \<Rightarrow> object_store \<Rightarrow> bool" where
  "store_grows sha w w' \<longleftrightarrow> store_ok sha w' \<and> store_keeps w w'"

lemma grows_put_pending:
  "store_grows sha w0 w \<Longrightarrow> is_pending k \<Longrightarrow> store_grows sha w0 (w\<lparr>st_root_dir := gm_put k b (st_root_dir w)\<rparr>)"
  using pending_not_object [of k] by (auto simp: store_grows_def store_ok_def store_keeps_def gm.get_put gm.ok_put)

lemma grows_del_pending:
  "store_grows sha w0 w \<Longrightarrow> is_pending k \<Longrightarrow> store_grows sha w0 (w\<lparr>st_root_dir := gm_del k (st_root_dir w)\<rparr>)"
  by (auto simp: store_grows_def store_ok_def store_keeps_def gm.get_del gm.ok_del)

lemma grows_put_object:
  "store_grows sha w0 w \<Longrightarrow> gm_get (st_root_dir w) i = None \<Longrightarrow> hex_encode (sha b) = i
    \<Longrightarrow> store_grows sha w0 (w\<lparr>st_root_dir := gm_put i b (st_root_dir w)\<rparr>)"
  by (auto simp: store_grows_def store_ok_def store_keeps_def gm.get_put gm.ok_put)

lemma grows_slots: "store_grows sha w0 (w\<lparr>st_slots := n\<rparr>) \<longleftrightarrow> store_grows sha w0 w"
  by (simp add: store_grows_def store_ok_def store_keeps_def)

lemma store_keeps_trans: "store_keeps a b \<Longrightarrow> store_keeps b c \<Longrightarrow> store_keeps a c"
  by (simp add: store_keeps_def)

subsection \<open>The steps of a request\<close>

definition stored :: "(string \<Rightarrow> string) \<Rightarrow> object_store \<Rightarrow> string \<Rightarrow> string \<Rightarrow> object_store \<Rightarrow> bool" where
  "stored sha w0 i body w \<longleftrightarrow> (\<exists>c. gm_get (st_root_dir w) i = Some c \<and> hex_encode (sha c) = i
     \<and> (gm_get (st_root_dir w0) i = None \<longrightarrow> c = body))"

lemma sync_grows: "(\<And>w. P w \<Longrightarrow> I w) \<Longrightarrow> interrupted P sync_call (\<lambda>_. P) I"
  unfolding sync_call_def by (rule interrupted_read) auto

abbreviation untouched :: "(string \<Rightarrow> string) \<Rightarrow> object_store \<Rightarrow> string \<Rightarrow> object_store \<Rightarrow> bool" where
  "untouched sha w0 i w \<equiv> store_grows sha w0 w \<and> gm_get (st_root_dir w) i = gm_get (st_root_dir w0) i"

lemma create_temp_grows:
  assumes "is_object i"
  shows "interrupted (untouched sha w0 i) (create_temp xs) (\<lambda>tmp w. untouched sha w0 i w \<and> is_pending tmp) (store_grows sha w0)"
  unfolding create_temp_def in_root_def in_dir_def temp_in_def
  by (rule interrupted_perform)
    (use assms pending_not_object in \<open>auto split: option.splits intro!: grows_put_pending simp: is_pending_def gm.get_put\<close>)

lemma copy_body_grows:
  assumes "is_pending tmp" "is_object i"
  shows "interrupted (untouched sha w0 i) (copy_body tmp body broken)
    (\<lambda>written w. untouched sha w0 i w \<and> gm_get (st_root_dir w) tmp = Some written \<and> written = body) (store_grows sha w0)"
  unfolding copy_body_def Let_def
  by (rule interrupted_perform)
    (use assms pending_not_object in \<open>auto split: if_splits intro!: grows_put_pending simp: gm.get_put\<close>)

lemma stored_del:
  "is_pending tmp \<Longrightarrow> is_object i \<Longrightarrow> gm_ok (st_root_dir w) \<Longrightarrow>
    stored sha w0 i body (w\<lparr>st_root_dir := gm_del tmp (st_root_dir w)\<rparr>) \<longleftrightarrow> stored sha w0 i body w"
  using pending_not_object by (auto simp: stored_def gm.get_del)

lemma grows_gm_ok: "store_grows sha w0 w \<Longrightarrow> gm_ok (st_root_dir w)"
  by (simp add: store_grows_def store_ok_def)

lemma publish_grows:
  assumes i: "is_object i" and tmp: "is_pending tmp" and hash: "hex_encode (sha body) = i"
  shows "interrupted (\<lambda>w. untouched sha w0 i w \<and> gm_get (st_root_dir w) tmp = Some body)
    (publish_object sha tmp i) (\<lambda>_ w. store_grows sha w0 w \<and> stored sha w0 i body w) (store_grows sha w0)" (is "interrupted ?P _ ?Q ?I")
proof -
  have link: "interrupted ?P (link_file tmp i)
      (\<lambda>new w. store_grows sha w0 w \<and> (if new then stored sha w0 i body w else gm_get (st_root_dir w0) i \<noteq> None)) ?I"
    unfolding link_file_def
    by (rule interrupted_perform) (auto split: option.splits if_splits intro!: grows_put_object simp: hash gm.get_put stored_def)
  have check: "interrupted (\<lambda>w. store_grows sha w0 w \<and> gm_get (st_root_dir w0) i \<noteq> None) (verify_existing sha i) ?Q ?I"
    unfolding verify_existing_def read_file_def
    by (rule interrupted_then_read, simp, rule interrupted_lift) (auto split: option.splits sum.splits simp: stored_def)
  have mid: "interrupted (\<lambda>w. store_grows sha w0 w \<and> (if new then stored sha w0 i body w else gm_get (st_root_dir w0) i \<noteq> None))
      (if new then ret () else verify_existing sha i) ?Q ?I" for new
    by (rule interrupted_if; (rule interrupted_pre [OF check] interrupted_ret)?) auto
  have rm: "interrupted (\<lambda>w. store_grows sha w0 w \<and> stored sha w0 i body w) (remove_file tmp)
      (\<lambda>_ w. store_grows sha w0 w \<and> stored sha w0 i body w) ?I"
    unfolding remove_file_def in_root_def in_dir_def remove_in_def
    by (rule interrupted_perform)
      (use tmp stored_del [OF tmp i grows_gm_ok] in \<open>auto split: if_splits intro!: grows_del_pending\<close>)
  have sync: "interrupted ?P sync_call (\<lambda>_. ?P) ?I" by (rule sync_grows) simp
  show ?thesis
    unfolding publish_object_def
    by (rule interrupted_then [OF sync], rule interrupted_then [OF sync], rule interrupted_then [OF link],
        rule interrupted_then [OF mid], rule interrupted_then [OF rm], rule sync_grows) simp
qed

text \<open>The deferred removal of the temporary file, whatever happened before.\<close>

lemma cleanup_grows:
  assumes tmp: "is_pending tmp" and i: "is_object i"
  shows "interrupted (\<lambda>w. store_grows sha w0 w \<and> (b \<longrightarrow> stored sha w0 i body w)) (try_act (remove_file tmp))
    (\<lambda>_ w. store_grows sha w0 w \<and> (b \<longrightarrow> stored sha w0 i body w)) (store_grows sha w0)" (is "interrupted ?P _ _ _")
proof -
  have "interrupted ?P (remove_file tmp) (\<lambda>_. ?P) ?P"
    unfolding remove_file_def in_root_def in_dir_def remove_in_def
    by (rule interrupted_perform)
      (use tmp stored_del [OF tmp i grows_gm_ok] in \<open>auto split: if_splits intro!: grows_del_pending\<close>)
  from interrupted_try [OF this, of "store_grows sha w0"] show ?thesis
    by (rule interrupted_weaken) (auto split: sum.splits)
qed

lemma store_body_grows:
  assumes tmp: "is_pending tmp" and i: "is_object i"
  shows "interrupted (untouched sha w0 i) (store_body sha i r tmp)
    (\<lambda>status w. store_grows sha w0 w \<and> (status = 201 \<longrightarrow> hex_encode (sha (ob_body r)) = i \<and> stored sha w0 i (ob_body r) w)) (store_grows sha w0)"
    (is "interrupted ?P _ ?Q ?I")
proof -
  note copied = interrupted_try [OF copy_body_grows [OF tmp i, of sha w0 "ob_body r" "ob_broken r"], of ?I]
  have rest: "interrupted (\<lambda>w. case res of Inl _ \<Rightarrow> store_grows sha w0 w
        | Inr written \<Rightarrow> untouched sha w0 i w \<and> gm_get (st_root_dir w) tmp = Some written \<and> written = ob_body r)
      (case res of Inl _ \<Rightarrow> ret 400
       | Inr written \<Rightarrow> if hex_encode (sha written) \<noteq> i then ret 422
         else act_then (try_act (publish_object sha tmp i)) (\<lambda>res. ret (case res of Inl _ \<Rightarrow> 507 | Inr _ \<Rightarrow> 201))) ?Q ?I" for res
  proof (cases res)
    case (Inl e)
    show ?thesis unfolding Inl sum.case by (rule interrupted_ret) simp
  next
    case (Inr written)
    show ?thesis
      unfolding Inr sum.case
    proof (rule interrupted_if)
      assume "\<not> hex_encode (sha written) \<noteq> i"
      then have hash: "hex_encode (sha written) = i" by simp
      note published = interrupted_try [OF publish_grows [where i = i and tmp = tmp and sha = sha and body = written and ?w0.0 = w0, OF i tmp hash], of ?I]
      show "interrupted (\<lambda>w. untouched sha w0 i w \<and> gm_get (st_root_dir w) tmp = Some written \<and> written = ob_body r)
          (act_then (try_act (publish_object sha tmp i)) (\<lambda>res. ret (case res of Inl _ \<Rightarrow> 507 | Inr _ \<Rightarrow> 201))) ?Q ?I"
      proof (rule interrupted_assume)
        fix w
        assume w: "untouched sha w0 i w \<and> gm_get (st_root_dir w) tmp = Some written \<and> written = ob_body r"
        show "interrupted ((=) w) (act_then (try_act (publish_object sha tmp i)) (\<lambda>res. ret (case res of Inl _ \<Rightarrow> 507 | Inr _ \<Rightarrow> 201))) ?Q ?I"
          by (rule interrupted_then [OF interrupted_pre [OF published]], use w in simp, rule interrupted_ret)
            (use w hash in \<open>auto split: sum.splits\<close>)
      qed
    qed (intro interrupted_ret, simp)
  qed
  show ?thesis unfolding store_body_def by (rule interrupted_then [OF copied rest])
qed

lemma put_grows:
  assumes i: "is_object i" and w0: "store_ok sha w0"
  shows "interrupted ((=) w0) (put_object sha i r)
    (\<lambda>reply w. store_grows sha w0 w \<and> (fst reply = 201 \<longrightarrow> hex_encode (sha (ob_body r)) = i \<and> stored sha w0 i (ob_body r) w)) (store_grows sha w0)"
    (is "interrupted _ _ ?Q ?I")
proof -
  have start: "untouched sha w0 i w0" using w0 by (simp add: store_grows_def store_keeps_def)
  note created = interrupted_try [OF create_temp_grows [OF i, of sha w0 "ob_suffixes r"], of ?I]
  have rest: "interrupted (\<lambda>w. case res of Inl _ \<Rightarrow> store_grows sha w0 w | Inr tmp \<Rightarrow> untouched sha w0 i w \<and> is_pending tmp)
      (case res of Inl _ \<Rightarrow> ret (507, [])
       | Inr tmp \<Rightarrow> act_then (store_body sha i r tmp) (\<lambda>status.
           act_then (try_act (remove_file tmp)) (\<lambda>_. ret (status, [])))) ?Q ?I" for res
  proof (cases res)
    case (Inl e)
    show ?thesis unfolding Inl sum.case by (rule interrupted_ret) simp
  next
    case (Inr tmp)
    have go: "interrupted (untouched sha w0 i) (act_then (store_body sha i r tmp) (\<lambda>status.
           act_then (try_act (remove_file tmp)) (\<lambda>_. ret (status, [])))) ?Q ?I" if tmp: "is_pending tmp"
    proof (rule interrupted_then [OF store_body_grows [OF tmp i]])
      fix status :: nat
      have clean: "interrupted (\<lambda>w. store_grows sha w0 w \<and> (status = 201 \<longrightarrow> stored sha w0 i (ob_body r) w)) (try_act (remove_file tmp))
          (\<lambda>_ w. store_grows sha w0 w \<and> (status = 201 \<longrightarrow> stored sha w0 i (ob_body r) w)) ?I"
        by (rule cleanup_grows [OF tmp i])
      show "interrupted (\<lambda>w. store_grows sha w0 w \<and> (status = 201 \<longrightarrow> hex_encode (sha (ob_body r)) = i \<and> stored sha w0 i (ob_body r) w))
        (act_then (try_act (remove_file tmp)) (\<lambda>_. ret (status, []))) ?Q ?I"
      proof (rule interrupted_assume)
        fix w
        assume w: "store_grows sha w0 w \<and> (status = 201 \<longrightarrow> hex_encode (sha (ob_body r)) = i \<and> stored sha w0 i (ob_body r) w)"
        show "interrupted ((=) w) (act_then (try_act (remove_file tmp)) (\<lambda>_. ret (status, []))) ?Q ?I"
          by (rule interrupted_then [OF interrupted_pre [OF clean]], use w in simp, rule interrupted_ret) (use w in simp)
      qed
    qed
    show ?thesis
      unfolding Inr sum.case by (rule interrupted_assume, rule interrupted_pre [OF go]) simp_all
  qed
  show ?thesis
    unfolding put_object_def by (rule interrupted_then [OF interrupted_pre [OF created] rest]) (use start in simp)
qed

lemma get_reads:
  "interrupted ((=) w0) (get_object i) (\<lambda>reply w. w = w0 \<and> (fst reply = 200 \<longrightarrow> gm_get (st_root_dir w0) i = Some (snd reply))
     \<and> (fst reply = 404 \<longrightarrow> gm_get (st_root_dir w0) i = None) \<and> fst reply \<noteq> 201) ((=) w0)" (is "interrupted _ _ ?Q ?I")
proof -
  have opened: "interrupted ((=) w0) (try_act (read_world (\<lambda>w. Inr (gm_get (st_root_dir w) i))))
      (\<lambda>res w. w = w0 \<and> (\<forall>x. res = Inr x \<longrightarrow> x = gm_get (st_root_dir w0) i)) ?I"
    by (rule interrupted_weaken [OF interrupted_try [OF interrupted_read [where P = "(=) w0" and I = "(=) w0" and Q = "\<lambda>x w. w = w0 \<and> x = gm_get (st_root_dir w0) i"]]])
      (auto split: sum.splits)
  have stat: "interrupted (\<lambda>w. w = w0) (try_act sync_call) (\<lambda>_ w. w = w0) ?I"
    unfolding sync_call_def
    by (rule interrupted_weaken [OF interrupted_try [OF interrupted_read [where P = "(=) w0" and I = "(=) w0" and Q = "\<lambda>x w. w = w0"]]])
      (auto split: sum.splits)
  have rest: "interrupted (\<lambda>w. w = w0 \<and> (\<forall>x. res = Inr x \<longrightarrow> x = gm_get (st_root_dir w0) i))
      (case res of Inl _ \<Rightarrow> ret (500, []) | Inr None \<Rightarrow> ret (404, [])
       | Inr (Some b) \<Rightarrow> act_then (try_act sync_call) (\<lambda>stat. ret (case stat of Inl _ \<Rightarrow> (500, []) | Inr _ \<Rightarrow> (200, b)))) ?Q ?I"
    for res :: "string option result"
  proof (cases res)
    case (Inl e)
    show ?thesis unfolding Inl sum.case by (rule interrupted_ret) simp
  next
    case (Inr found)
    show ?thesis
    proof (cases found)
      case None
      show ?thesis unfolding Inr None sum.case option.case by (rule interrupted_ret) simp
    next
      case (Some b)
      show ?thesis
        unfolding Inr Some sum.case option.case
        by (rule interrupted_assume, rule interrupted_then [OF interrupted_pre [OF stat]], simp, rule interrupted_ret)
          (auto split: sum.splits)
    qed
  qed
  show ?thesis unfolding get_object_def by (rule interrupted_then [OF opened rest])
qed

lemma owned_reads: "interrupted ((=) w0) (owned owner) (\<lambda>_. (=) w0) ((=) w0)"
  unfolding owned_def read_file_def
  by (intro interrupted_then_read interrupted_then_lift interrupted_lift) (auto split: sum.splits)

definition reply_means :: "(string \<Rightarrow> string) \<Rightarrow> object_store \<Rightarrow> object_request \<Rightarrow> object_reply \<Rightarrow> object_store \<Rightarrow> bool" where
  "reply_means sha w0 r reply w \<longleftrightarrow>
     (fst reply = 201 \<longrightarrow> (\<exists>i. object_id (ob_path r) = Some i \<and> hex_encode (sha (ob_body r)) = i \<and> stored sha w0 i (ob_body r) w))
   \<and> (ob_method r = ''GET'' \<longrightarrow> fst reply = 200 \<longrightarrow> ob_path r \<noteq> ''/health'' \<longrightarrow>
        (\<exists>i. object_id (ob_path r) = Some i \<and> gm_get (st_root_dir w0) i = Some (snd reply)))
   \<and> (fst reply = 404 \<longrightarrow> (\<exists>i. object_id (ob_path r) = Some i \<and> gm_get (st_root_dir w0) i = None))"

lemma put_reply: "fst reply = 404 \<or> fst reply = 200 \<Longrightarrow> put_object sha i r s \<noteq> (Inr reply, s')"
  by (auto simp: put_object_def store_body_def act_then_def try_act_def split: prod.splits sum.splits if_splits)

lemma serve_owned_grows:
  assumes w0: "store_ok sha w0"
  shows "interrupted ((=) w0) (serve_owned sha owner r) (\<lambda>reply w. store_grows sha w0 w \<and> reply_means sha w0 r reply w) (store_grows sha w0)"
    (is "interrupted _ _ ?Q ?I")
proof -
  have same: "store_grows sha w0 w0" using w0 by (simp add: store_grows_def store_keeps_def)
  have mine: "interrupted ((=) w0) (try_act (owned owner)) (\<lambda>_. (=) w0) ?I"
    by (rule interrupted_weaken [OF interrupted_try [OF owned_reads]]) (auto split: sum.splits)
  have obj: "interrupted ((=) w0) (if ob_method r = ''GET'' then get_object i else if ob_method r = ''PUT'' then put_object sha i r
      else ret (405, [])) ?Q ?I" if i: "object_id (ob_path r) = Some i" for i
  proof (intro interrupted_if)
    show "interrupted ((=) w0) (get_object i) ?Q ?I"
      by (rule interrupted_weaken [OF get_reads]) (use i same in \<open>auto simp: reply_means_def\<close>)
    assume "ob_method r = ''PUT''"
    show "interrupted ((=) w0) (put_object sha i r) ?Q ?I"
    proof (rule interruptedI)
      fix w os res w' os'
      assume "w0 = w" and run: "put_object sha i r (w, os) = (res, (w', os'))"
      from interruptedD [OF put_grows [OF object_id_is_object [OF i] w0] this(1) run]
      show "case res of Inl _ \<Rightarrow> ?I w' | Inr x \<Rightarrow> ?Q x w'"
        using put_reply [of _ sha i r "(w, os)" "(w', os')"] run i \<open>ob_method r = ''PUT''\<close>
        by (fastforce simp: reply_means_def split: sum.splits)
    qed
  qed (use same in \<open>auto intro!: interrupted_ret simp: reply_means_def\<close>)
  have rest: "interrupted ((=) w0) (case res of Inl _ \<Rightarrow> ret (503, [])
     | Inr _ \<Rightarrow> if ob_path r = ''/health'' then ret (200, render (JObj [(''owner'', JStr owner)]) @ [CHR 0x0A])
       else case object_id (ob_path r) of None \<Rightarrow> ret (400, [])
       | Some i \<Rightarrow> if ob_method r = ''GET'' then get_object i else if ob_method r = ''PUT'' then put_object sha i r else ret (405, [])) ?Q ?I"
    for res :: "unit result"
  proof (cases res)
    case (Inl e)
    show ?thesis unfolding Inl sum.case by (rule interrupted_ret) (use same in \<open>simp add: reply_means_def\<close>)
  next
    case (Inr u)
    show ?thesis
      unfolding Inr sum.case
      by (intro interrupted_if interrupted_option interrupted_ret obj) (use same in \<open>auto simp: reply_means_def\<close>)
  qed
  show ?thesis unfolding serve_owned_def by (rule interrupted_then [OF mine rest])
qed

lemma ServeHTTP_grows:
  assumes w0: "store_ok sha w0"
  shows "interrupted ((=) w0) (ServeHTTP sha owner r) (\<lambda>reply w. store_grows sha w0 w \<and> reply_means sha w0 r reply w) (store_grows sha w0)"
    (is "interrupted _ _ ?Q ?I")
proof -
  have same: "store_grows sha w0 w0" using w0 by (simp add: store_grows_def store_keeps_def)
  let ?w1 = "w0\<lparr>st_slots := st_slots w0 + 1\<rparr>"
  have ok1: "store_ok sha ?w1" using w0 by (simp add: store_ok_def)
  have means: "store_grows sha (w0\<lparr>st_slots := n\<rparr>) w \<longleftrightarrow> store_grows sha w0 w"
    "reply_means sha (w0\<lparr>st_slots := n\<rparr>) r reply w \<longleftrightarrow> reply_means sha w0 r reply w"
    "reply_means sha w0 r reply (w\<lparr>st_slots := n\<rparr>) \<longleftrightarrow> reply_means sha w0 r reply w" for w reply n
    by (simp_all add: store_grows_def store_keeps_def reply_means_def stored_def)
  have served: "interrupted ((=) ?w1) (serve_owned sha owner r) ?Q ?I"
    by (rule interrupted_weaken [OF serve_owned_grows [OF ok1]]) (simp_all only: means)
  have inside: "interrupted ((=) ?w1) (act_then (serve_owned sha owner r) (\<lambda>reply. act_then give_slot (\<lambda>_. ret reply))) ?Q ?I"
  proof (rule interrupted_then [OF served])
    fix reply
    show "interrupted (?Q reply) (act_then give_slot (\<lambda>_. ret reply)) ?Q ?I"
      unfolding give_slot_def
      by (rule interrupted_then_direct, rule interrupted_ret) (auto simp: grows_slots means)
  qed
  have taken: "interrupted ((=) w0) take_slot (\<lambda>free w. if free then w = ?w1 else w = w0) ?I"
    unfolding take_slot_def by (rule interrupted_direct) auto
  show ?thesis
    unfolding ServeHTTP_def
  proof (rule interrupted_then [OF taken])
    fix free
    show "interrupted (\<lambda>w. if free then w = ?w1 else w = w0) (if \<not> free then ret (503, [])
        else act_then (serve_owned sha owner r) (\<lambda>reply. act_then give_slot (\<lambda>_. ret reply))) ?Q ?I"
      by (rule interrupted_if; (rule interrupted_pre [OF inside] interrupted_ret)) (simp_all add: same reply_means_def)
  qed
qed

subsection \<open>Properties\<close>

abbreviation store_after :: "(string \<Rightarrow> string) \<Rightarrow> ((string \<times> object_request) \<times> outcome list) list \<Rightarrow> object_store \<Rightarrow> object_store" where
  "store_after sha requests w \<equiv> run_attempts (\<lambda>(owner, r). ServeHTTP sha owner r) requests w"

lemma store_after_grows:
  assumes "store_ok sha w"
  shows "store_grows sha w (store_after sha requests w)"
proof (rule run_attempts_inv)
  fix q :: "string \<times> object_request"
  obtain owner r where q: "q = (owner, r)" by (cases q)
  show "interrupted (store_grows sha w) (case q of (owner, r) \<Rightarrow> ServeHTTP sha owner r) (\<lambda>_. store_grows sha w) (store_grows sha w)"
    unfolding q prod.case
  proof (rule interrupted_assume)
    fix v
    assume v: "store_grows sha w v"
    then have "store_ok sha v" by (simp add: store_grows_def)
    note ServeHTTP_grows [OF this, of owner r]
    then show "interrupted ((=) v) (ServeHTTP sha owner r) (\<lambda>_. store_grows sha w) (store_grows sha w)"
      by (rule interrupted_weaken) (use v store_keeps_trans in \<open>auto simp: store_grows_def\<close>)
  qed
qed (use assms in \<open>simp add: store_grows_def store_keeps_def\<close>)

text \<open>C28. Objects are immutable and are what their names say: from a store whose objects hash to their names, after any
sequence of requests, each failing or dying at any system call, every object still hashes to its name, and
every object stored before, and the owner file, is still there with the same content.\<close>

theorem objects_are_immutable:
  assumes "store_ok sha w"
  shows "store_ok sha (store_after sha requests w)
    \<and> (\<forall>k b. (is_object k \<or> k = ''.owner'') \<and> gm_get (st_root_dir w) k = Some b
        \<longrightarrow> gm_get (st_root_dir (store_after sha requests w)) k = Some b)"
  using store_after_grows [OF assms, of requests] owner_not_object(2) pending_not_object
  unfolding store_grows_def store_keeps_def by blast


subsection \<open>Witnesses\<close>

definition sample_hash :: "string \<Rightarrow> string" where
  "sample_hash s = replicate 32 (if s = ''hi'' then CHR ''a'' else CHR ''b'')"

definition sample_store :: object_store where
  "sample_store = \<lparr>st_root_dir = [(''.owner'', ''o-1'')], st_device = 2, st_parent_device = 1, st_slots = 0\<rparr>"

definition sample_put :: object_request where
  "sample_put = \<lparr>ob_method = ''PUT'', ob_path = ''/objects/'' @ hex_encode (sample_hash ''hi''), ob_body = ''hi'', ob_broken = False, ob_suffixes = [''7'']\<rparr>"



lemma sample_store_ok: "store_ok sample_hash sample_store"
  using owner_not_object by (auto simp: store_ok_def sample_store_def gm_ok_def split: if_splits)



theorem objects_are_immutable_witness:
  "store_ok sample_hash (store_after sample_hash [((''o-1'', sample_put), [])] sample_store)
    \<and> gm_get (st_root_dir (store_after sample_hash [((''o-1'', sample_put), [])] sample_store)) ''.owner'' = Some ''o-1''"
  using objects_are_immutable [OF sample_store_ok, of "[((''o-1'', sample_put), [])]"]
  by (simp add: sample_store_def)


end
