(* ===== verification/Object_Check.thy ===== *)
theory Object_Check
  imports Objects_Props
begin

section \<open>The client of the object store: cmd/objects-check\<close>

text \<open>
  \<^verbatim>\<open>cmd/objects-check/main.go\<close>: write objects from a seeded generator and keep a manifest of those acknowledged, or
  verify every object of the manifest. The service is an interface: what an HTTP exchange does to its world.
  Parameters are the generator (\<^verbatim>\<open>math/rand\<close>, body \<open>i\<close> of a seed and a size) and the stream decoder of
  \<^verbatim>\<open>encoding/json\<close> (the values of a text and whether it ends after a value). Times are not modelled. \<^const>\<open>Inl\<close> is a
  panic, \<^term>\<open>Inr failed\<close> an exit with status 1 or 0.
\<close>

record acked =
  ao_id :: string
  ao_bytes :: int

record check_args =
  oa_url :: string
  oa_count :: int
  oa_bytes :: int
  oa_seed :: int
  oa_verify :: bool

record report =
  rp_object :: acked
  rp_stage :: string
  rp_error :: "unit result"

record 's check_world =
  kw_service :: 's
  kw_manifest :: "string option"
  kw_out :: "report list"

text \<open>Status, body, and whether the body breaks off before its end.\<close>

type_synonym response = "nat \<times> string \<times> bool"

type_synonym 's exchange = "string \<Rightarrow> string \<Rightarrow> string \<Rightarrow> ('s, response) action"

definition zero_acked :: acked where
  "zero_acked = \<lparr>ao_id = [], ao_bytes = 0\<rparr>"

definition marshal_acked :: "acked \<Rightarrow> json" where
  "marshal_acked o1 = JObj [(''id'', JStr (ao_id o1)), (''bytes'', JNum (ao_bytes o1))]"

definition acked_field :: "string \<times> json \<Rightarrow> acked \<Rightarrow> acked result" where
  "acked_field kv o1 = (case kv of (k, j) \<Rightarrow>
     if names_field k ''id'' then and_then (read_str j (ao_id o1)) (\<lambda>x. Inr (o1\<lparr>ao_id := x\<rparr>))
     else if names_field k ''bytes'' then and_then (read_int j (ao_bytes o1)) (\<lambda>x. Inr (o1\<lparr>ao_bytes := x\<rparr>))
     else unknown_field False k o1)"

definition read_acked :: "json \<Rightarrow> acked result" where
  "read_acked j = read_struct acked_field j zero_acked"

definition ack_line :: "acked \<Rightarrow> string" where
  "ack_line o1 = render (marshal_acked o1) @ [CHR 0x0A]"

subsection \<open>One object\<close>

text \<open>\<^verbatim>\<open>io.Copy(h, io.LimitReader(resp.Body, int64(o.Bytes)+1))\<close>: the addition wraps, a limit below one reads nothing.\<close>

definition copy_content :: "int \<Rightarrow> string \<Rightarrow> bool \<Rightarrow> string result" where
  "copy_content bytes content broken = (let limit = nat (if bytes = 2 ^ 63 - 1 then - (2 ^ 63) else bytes + 1) in
     if broken \<and> length content < limit then Inl ''unexpected EOF'' else Inr (take limit content))"

definition response_error :: "(string \<Rightarrow> string) \<Rightarrow> bool \<Rightarrow> acked \<Rightarrow> response \<Rightarrow> unit result" where
  "response_error sha verify o1 resp = (case resp of (status, content, broken) \<Rightarrow>
     if verify \<and> status \<noteq> 200 \<or> \<not> verify \<and> status \<noteq> 201 then Inl (''HTTP '' @ itoa status)
     else if verify then
       and_then (copy_content (ao_bytes o1) content broken) (\<lambda>got.
       guard (int (length got) = ao_bytes o1 \<and> hex_encode (sha got) = ao_id o1) ''content mismatch'')
     else Inr ())"

definition on_service :: "('s, 'a) action \<Rightarrow> ('s check_world, 'a) action" where
  "on_service a s = (case s of (k, os) \<Rightarrow> case a (kw_service k, os) of (r, (w, os')) \<Rightarrow> (r, (k\<lparr>kw_service := w\<rparr>, os')))"

definition put_line :: "report \<Rightarrow> ('s check_world, unit) action" where
  "put_line r = direct (\<lambda>k. ((), k\<lparr>kw_out := kw_out k @ [r]\<rparr>))"

definition manifest_text :: "'s check_world \<Rightarrow> string" where
  "manifest_text k = (case kw_manifest k of None \<Rightarrow> [] | Some text \<Rightarrow> text)"

text \<open>Open for appending, write the line, sync.\<close>

definition append_ack :: "acked \<Rightarrow> ('s check_world, unit) action" where
  "append_ack o1 =
     act_then (write_world (\<lambda>k. k\<lparr>kw_manifest := Some (manifest_text k)\<rparr>)) (\<lambda>_.
     act_then (write_world (\<lambda>k. k\<lparr>kw_manifest := Some (manifest_text k @ ack_line o1)\<rparr>)) (\<lambda>_.
     read_world (\<lambda>_. Inr ())))"

definition check_object :: "(string \<Rightarrow> string) \<Rightarrow> 's exchange \<Rightarrow> check_args \<Rightarrow> acked \<Rightarrow> string \<Rightarrow> ('s check_world, bool) action" where
  "check_object sha ex a o1 body =
     act_then (try_act (on_service (ex (if oa_verify a then ''GET'' else ''PUT'') (oa_url a @ ''/objects/'' @ ao_id o1) body))) (\<lambda>resp.
     let err = and_then resp (response_error sha (oa_verify a) o1) in
     act_then (put_line \<lparr>rp_object = o1, rp_stage = (if is_ok resp then ''response'' else ''request''), rp_error = err\<rparr>) (\<lambda>_.
     act_then (if is_ok err \<and> \<not> oa_verify a then append_ack o1 else ret ()) (\<lambda>_.
     ret (\<not> is_ok err))))"

subsection \<open>The two runs\<close>

definition write_objects :: "(string \<Rightarrow> string) \<Rightarrow> (int \<Rightarrow> nat \<Rightarrow> nat \<Rightarrow> string) \<Rightarrow> 's exchange \<Rightarrow> check_args \<Rightarrow> ('s check_world, bool) action" where
  "write_objects sha rng ex a =
     fold_act (\<lambda>i failed. let body = rng (oa_seed a) (nat (oa_bytes a)) i in
       act_then (check_object sha ex a \<lparr>ao_id = hex_encode (sha body), ao_bytes = int (length body)\<rparr> body) (\<lambda>bad.
       ret (failed \<or> bad))) [0..<nat (oa_count a)] False"

definition verify_value :: "(string \<Rightarrow> string) \<Rightarrow> 's exchange \<Rightarrow> check_args \<Rightarrow> json \<Rightarrow> bool \<Rightarrow> ('s check_world, bool) action" where
  "verify_value sha ex a j failed =
     act_then (lift_result (read_acked j)) (\<lambda>o1.
     act_then (check_object sha ex a o1 []) (\<lambda>bad. ret (failed \<or> bad)))"

definition verify_objects :: "(string \<Rightarrow> string) \<Rightarrow> (string \<Rightarrow> json list \<times> bool) \<Rightarrow> 's exchange \<Rightarrow> check_args \<Rightarrow> ('s check_world, bool) action" where
  "verify_objects sha values ex a =
     act_then (read_world (\<lambda>k. case kw_manifest k of None \<Rightarrow> Inl ''no such file or directory'' | Some text \<Rightarrow> Inr (values text))) (\<lambda>(js, complete).
     act_then (fold_act (verify_value sha ex a) js False) (\<lambda>failed.
     act_then (lift_result (guard complete ''unexpected EOF'')) (\<lambda>_.
     act_then (lift_result (guard (js \<noteq> []) ''empty acknowledgement manifest'')) (\<lambda>_.
     ret failed))))"

definition check_args_ok :: "check_args \<Rightarrow> bool" where
  "check_args_ok a \<longleftrightarrow> \<not> (oa_bytes a < 1 \<or> oa_bytes a > 8 * 2 ^ 20 \<or> oa_count a < 1 \<or> oa_count a > 10000)"

definition objects_check :: "(string \<Rightarrow> string) \<Rightarrow> (int \<Rightarrow> nat \<Rightarrow> nat \<Rightarrow> string) \<Rightarrow> (string \<Rightarrow> json list \<times> bool) \<Rightarrow> 's exchange \<Rightarrow> check_args \<Rightarrow> ('s check_world, bool) action" where
  "objects_check sha rng values ex a =
     act_then (lift_result (guard (check_args_ok a) ''invalid workload bounds'')) (\<lambda>_.
     if oa_verify a then verify_objects sha values ex a else write_objects sha rng ex a)"

end
