(* ===== verification/Object_Check_Props.thy ===== *)
theory Object_Check_Props
  imports Object_Check
begin

section \<open>What was acknowledged verifies\<close>

text \<open>
  The client relies on a service only through the locale: a PUT answered 201 leaves an object that stays, and a
  service in order gives it back. The handler of the object store, reached over a network that loses requests
  and replies, is its interpretation.
\<close>

subsection \<open>What is assumed of the parameters\<close>

text \<open>The generator fills a body of the size asked for; the decoder reads back the lines that the encoder wrote; no
text of another length has the hash of a body.\<close>

definition generator_law :: "(int \<Rightarrow> nat \<Rightarrow> nat \<Rightarrow> string) \<Rightarrow> bool" where
  "generator_law rng \<longleftrightarrow> (\<forall>seed n i. length (rng seed n i) = n)"

definition decoder_law :: "(string \<Rightarrow> json list \<times> bool) \<Rightarrow> bool" where
  "decoder_law values \<longleftrightarrow> (\<forall>os. list_all (\<lambda>o1. \<exists>b. ao_id o1 = hex_encode b \<and> 0 \<le> ao_bytes o1) os
     \<longrightarrow> values (concat (map ack_line os)) = (map marshal_acked os, True))"

definition lengths_law :: "(string \<Rightarrow> string) \<Rightarrow> nat \<Rightarrow> bool" where
  "lengths_law sha n \<longleftrightarrow> (\<forall>c b. sha c = sha b \<and> length b = n \<longrightarrow> length c = n)"

lemma read_marshal_acked:
  "- (2 ^ 63) \<le> ao_bytes o1 \<Longrightarrow> ao_bytes o1 < 2 ^ 63 \<Longrightarrow> read_acked (marshal_acked o1) = Inr o1"
proof -
  have "to_lower ''id'' = ''id''" "to_lower ''bytes'' = ''bytes''" by code_simp+
  then show "- (2 ^ 63) \<le> ao_bytes o1 \<Longrightarrow> ao_bytes o1 < 2 ^ 63 \<Longrightarrow> read_acked (marshal_acked o1) = Inr o1"
    by (simp add: read_acked_def marshal_acked_def acked_field_def names_field_def fold_name_def read_int_def zero_acked_def)
qed

subsection \<open>The interface\<close>

locale object_service =
  fixes sha :: "string \<Rightarrow> string"
    and ex :: "'s exchange"
    and base :: string
    and ok :: "'s \<Rightarrow> bool"
    and holds :: "string \<Rightarrow> string \<Rightarrow> 's \<Rightarrow> bool"
    and serving :: "'s \<Rightarrow> bool"
  assumes put_holds: "interrupted ok (ex ''PUT'' (base @ ''/objects/'' @ i) body)
      (\<lambda>resp w. ok w \<and> (fst resp = 201 \<longrightarrow> (\<exists>c. holds i c w \<and> sha c = sha body))) ok"
    and put_keeps: "interrupted (\<lambda>w. ok w \<and> holds i' c w) (ex ''PUT'' (base @ ''/objects/'' @ i) body) (\<lambda>_. holds i' c) (holds i' c)"
    and get_serves: "serving w \<Longrightarrow> holds i c w \<Longrightarrow> ex ''GET'' (base @ ''/objects/'' @ i) [] (w, []) = (Inr (200, c, False), (w, []))"
begin

text \<open>An acknowledgement that the service still backs.\<close>

definition backs :: "'s \<Rightarrow> nat \<Rightarrow> acked \<Rightarrow> bool" where
  "backs w n o1 \<longleftrightarrow> (\<exists>c b. holds (ao_id o1) c w \<and> ao_id o1 = hex_encode (sha b) \<and> sha c = sha b \<and> length b = n \<and> ao_bytes o1 = int n)"

definition ack_ledger :: "nat \<Rightarrow> 's check_world \<Rightarrow> bool" where
  "ack_ledger n k \<longleftrightarrow> ok (kw_service k) \<and> (\<exists>os. manifest_text k = concat (map ack_line os) \<and> list_all (backs (kw_service k) n) os)"

lemma exchange_keeps:
  "interrupted (\<lambda>w. ok w \<and> list_all (backs w n) os) (ex ''PUT'' (base @ ''/objects/'' @ i) body)
    (\<lambda>_ w. list_all (backs w n) os) (\<lambda>w. list_all (backs w n) os)"
proof (rule interruptedI)
  fix w script r w' script'
  assume w: "ok w \<and> list_all (backs w n) os" and run: "ex ''PUT'' (base @ ''/objects/'' @ i) body (w, script) = (r, (w', script'))"
  have "backs w' n o1" if "backs w n o1" for o1
  proof -
    from that obtain c b where c: "holds (ao_id o1) c w" and b: "ao_id o1 = hex_encode (sha b)" "sha c = sha b" "length b = n" "ao_bytes o1 = int n"
      unfolding backs_def by blast
    from w c have "ok w \<and> holds (ao_id o1) c w" by simp
    from interruptedD [OF put_keeps this run] have "holds (ao_id o1) c w'" by (simp split: sum.splits)
    with b show ?thesis unfolding backs_def by blast
  qed
  with w show "case r of Inl _ \<Rightarrow> list_all (backs w' n) os | Inr _ \<Rightarrow> list_all (backs w' n) os"
    by (auto simp: list_all_iff split: sum.splits)
qed

lemma exchange_ledger:
  "interrupted (ack_ledger n) (on_service (ex ''PUT'' (base @ ''/objects/'' @ i) body))
    (\<lambda>resp k. ack_ledger n k \<and> (fst resp = 201 \<longrightarrow> (\<exists>c. holds i c (kw_service k) \<and> sha c = sha body))) (ack_ledger n)"
proof (rule interruptedI)
  fix k :: "'s check_world" and script r k' script'
  assume k: "ack_ledger n k" and run: "on_service (ex ''PUT'' (base @ ''/objects/'' @ i) body) (k, script) = (r, (k', script'))"
  from run obtain w' where ex: "ex ''PUT'' (base @ ''/objects/'' @ i) body (kw_service k, script) = (r, (w', script'))"
    and k': "k' = k\<lparr>kw_service := w'\<rparr>"
    by (auto simp: on_service_def split: prod.splits)
  from k obtain os where os: "ok (kw_service k)" "manifest_text k = concat (map ack_line os)" "list_all (backs (kw_service k) n) os"
    unfolding ack_ledger_def by blast
  from os(1,3) have "ok (kw_service k) \<and> list_all (backs (kw_service k) n) os" by simp
  from interruptedD [OF exchange_keeps this ex] have "list_all (backs w' n) os" by (simp split: sum.splits)
  with os(2) have written: "\<exists>os. manifest_text k' = concat (map ack_line os) \<and> list_all (backs (kw_service k') n) os"
    by (auto simp: k' manifest_text_def)
  from interruptedD [OF put_holds os(1) ex] written
  show "case r of Inl _ \<Rightarrow> ack_ledger n k' | Inr resp \<Rightarrow> ack_ledger n k' \<and> (fst resp = 201 \<longrightarrow> (\<exists>c. holds i c (kw_service k') \<and> sha c = sha body))"
    by (auto simp: ack_ledger_def k' split: sum.splits)
qed

lemma ledger_out: "ack_ledger n (k\<lparr>kw_out := x\<rparr>) \<longleftrightarrow> ack_ledger n k"
  by (simp add: ack_ledger_def manifest_text_def)

lemma ledger_open: "ack_ledger n (k\<lparr>kw_manifest := Some (manifest_text k)\<rparr>) \<longleftrightarrow> ack_ledger n k"
  by (simp add: ack_ledger_def manifest_text_def)

lemma ledger_append:
  assumes "ack_ledger n k" and "backs (kw_service k) n o1"
  shows "ack_ledger n (k\<lparr>kw_manifest := Some (manifest_text k @ ack_line o1)\<rparr>)"
proof -
  from assms(1) obtain os where os: "manifest_text k = concat (map ack_line os)" "list_all (backs (kw_service k) n) os"
    unfolding ack_ledger_def by blast
  then show ?thesis
    using assms by (auto simp: ack_ledger_def manifest_text_def intro!: exI [of _ "os @ [o1]"])
qed

lemma append_ledger:
  "interrupted (\<lambda>k. ack_ledger n k \<and> backs (kw_service k) n o1) (append_ack o1) (\<lambda>_. ack_ledger n) (ack_ledger n)"
  unfolding append_ack_def
proof (rule interrupted_then_write [where R = "\<lambda>k. ack_ledger n k \<and> backs (kw_service k) n o1"])
  show "interrupted (\<lambda>k. ack_ledger n k \<and> backs (kw_service k) n o1)
     (act_then (write_world (\<lambda>k. k\<lparr>kw_manifest := Some (manifest_text k @ ack_line o1)\<rparr>)) (\<lambda>_. read_world (\<lambda>_. Inr ()))) (\<lambda>_. ack_ledger n) (ack_ledger n)"
    by (rule interrupted_then_write [where R = "ack_ledger n"]) (auto intro: ledger_append interrupted_read)
qed (auto simp: ledger_open)

lemma put_line_ledger:
  "interrupted (\<lambda>k. ack_ledger n k \<and> Q (kw_service k)) (put_line r) (\<lambda>_ k. ack_ledger n k \<and> Q (kw_service k)) (ack_ledger n)"
  unfolding put_line_def by (rule interrupted_direct) (simp add: ledger_out)

lemma check_object_ledger:
  assumes mode: "\<not> oa_verify a" "oa_url a = base" and o1: "o1 = \<lparr>ao_id = hex_encode (sha body), ao_bytes = int (length body)\<rparr>" "length body = n"
  shows "interrupted (ack_ledger n) (check_object sha ex a o1 body) (\<lambda>_. ack_ledger n) (ack_ledger n)"
proof -
  let ?held = "\<lambda>resp w. fst resp = 201 \<longrightarrow> (\<exists>c. holds (ao_id o1) c w \<and> sha c = sha body)"
  have call: "interrupted (ack_ledger n) (try_act (on_service (ex (if oa_verify a then ''GET'' else ''PUT'') (oa_url a @ ''/objects/'' @ ao_id o1) body)))
      (\<lambda>res k. ack_ledger n k \<and> (\<forall>resp. res = Inr resp \<longrightarrow> ?held resp (kw_service k))) (ack_ledger n)"
    unfolding mode(2) if_not_P [OF mode(1)]
    by (rule interrupted_weaken [OF interrupted_try [OF exchange_ledger]]) (auto split: sum.splits)
  have rest: "interrupted (\<lambda>k. ack_ledger n k \<and> (is_ok err \<longrightarrow> backs (kw_service k) n o1))
      (act_then (put_line r) (\<lambda>_. act_then (if is_ok err \<and> \<not> oa_verify a then append_ack o1 else ret ()) (\<lambda>_. ret (\<not> is_ok err)))) (\<lambda>_. ack_ledger n) (ack_ledger n)"
    for err :: "unit result" and r
    by (rule interrupted_then [OF put_line_ledger [where Q = "\<lambda>w. is_ok err \<longrightarrow> backs w n o1"]],
        rule interrupted_then [where R = "\<lambda>_. ack_ledger n"], rule interrupted_if)
      (auto intro: interrupted_pre [OF append_ledger] interrupted_ret)
  have backed: "is_ok (and_then res (response_error sha (oa_verify a) o1)) \<longrightarrow> backs w n o1"
    if "\<forall>resp. res = Inr resp \<longrightarrow> ?held resp w" for res w
    using that mode o1 by (cases res) (auto simp: response_error_def backs_def split: if_splits)
  show ?thesis
    unfolding check_object_def Let_def
    by (rule interrupted_then [OF call], rule interrupted_pre [OF rest]) (use backed in blast)
qed

lemma write_ledger:
  assumes "\<not> oa_verify a" "oa_url a = base" and rng: "generator_law rng"
  shows "interrupted (ack_ledger (nat (oa_bytes a))) (objects_check sha rng values ex a) (\<lambda>_. ack_ledger (nat (oa_bytes a))) (ack_ledger (nat (oa_bytes a)))"
    (is "interrupted ?L _ _ _")
proof -
  have len: "length (rng (oa_seed a) (nat (oa_bytes a)) i) = nat (oa_bytes a)" for i
    using rng by (simp add: generator_law_def)
  have "interrupted ?L (write_objects sha rng ex a) (\<lambda>_. ?L) ?L"
    unfolding write_objects_def Let_def
    by (rule interrupted_fold [where R = "\<lambda>_. ?L"], rule interrupted_then [where R = "\<lambda>_. ?L"],
        rule check_object_ledger [OF assms(1,2) refl len], rule interrupted_ret)
  with assms(1) show ?thesis
    unfolding objects_check_def by (auto intro!: interrupted_then_lift)
qed

subsection \<open>The verifying run\<close>

lemma check_object_verifies:
  assumes "oa_verify a" "oa_url a = base" "serving (kw_service k)" "backs (kw_service k) n o1" "n < 2 ^ 63 - 1"
    and lengths: "lengths_law sha n"
  shows "\<exists>out. check_object sha ex a o1 [] (k, []) = (Inr False, (k\<lparr>kw_out := out\<rparr>, []))"
proof -
  from assms(4) obtain c b where c: "holds (ao_id o1) c (kw_service k)" "ao_id o1 = hex_encode (sha b)" "sha c = sha b" "length b = n" "ao_bytes o1 = int n"
    unfolding backs_def by blast
  from lengths c(3,4) have len: "length c = n" unfolding lengths_law_def by blast
  note got = get_serves [OF assms(3) c(1)]
  have "response_error sha True o1 (200, c, False) = Inr ()"
    using c len assms(5) by (simp add: response_error_def copy_content_def Let_def and_then_def guard_def)
  then show ?thesis
    using assms(1,2) got
    by (auto simp: check_object_def act_then_def try_act_def on_service_def put_line_def direct_def Let_def
        intro!: exI [of _ "kw_out k @ [\<lparr>rp_object = o1, rp_stage = ''response'', rp_error = Inr ()\<rparr>]"])
qed

lemma verify_values_verifies:
  assumes "oa_verify a" "oa_url a = base" "n < 2 ^ 63 - 1" "lengths_law sha n"
    and "serving (kw_service k)" "list_all (backs (kw_service k) n) os"
  shows "\<exists>out. fold_act (verify_value sha ex a) (map marshal_acked os) False (k, []) = (Inr False, (k\<lparr>kw_out := out\<rparr>, []))"
  using assms(5,6)
proof (induction os arbitrary: k)
  case Nil
  then show ?case by (auto intro!: exI [of _ "kw_out k"])
next
  case (Cons o1 os)
  from Cons.prems have b: "backs (kw_service k) n o1" by simp
  from check_object_verifies [OF assms(1,2) Cons.prems(1) b assms(3,4)]
  obtain out where one: "check_object sha ex a o1 [] (k, []) = (Inr False, (k\<lparr>kw_out := out\<rparr>, []))" by blast
  from b assms(3) have "read_acked (marshal_acked o1) = Inr o1"
    by (intro read_marshal_acked) (auto simp: backs_def)
  with one have step: "verify_value sha ex a (marshal_acked o1) False (k, []) = (Inr False, (k\<lparr>kw_out := out\<rparr>, []))"
    by (simp add: verify_value_def act_then_def)
  from Cons.IH [of "k\<lparr>kw_out := out\<rparr>"] Cons.prems
  obtain out' where "fold_act (verify_value sha ex a) (map marshal_acked os) False (k\<lparr>kw_out := out\<rparr>, []) = (Inr False, (k\<lparr>kw_out := out'\<rparr>, []))"
    by auto
  with step show ?case by (auto simp: act_then_def)
qed

lemma ledger_verifies:
  assumes "ack_ledger n k" "serving (kw_service k)" "kw_manifest k = Some text" "text \<noteq> []"
    and a: "check_args_ok a" "oa_verify a" "oa_url a = base" "n < 2 ^ 63 - 1"
    and lengths: "lengths_law sha n"
    and decoder: "decoder_law values"
  shows "fst (objects_check sha rng values ex a (k, [])) = Inr False"
proof -
  from assms(1,3) obtain os where os: "text = concat (map ack_line os)" "list_all (backs (kw_service k) n) os"
    by (auto simp: ack_ledger_def manifest_text_def)
  have "list_all (\<lambda>o1. \<exists>b. ao_id o1 = hex_encode b \<and> 0 \<le> ao_bytes o1) os"
    using os(2) by (auto simp: list_all_iff backs_def)
  with decoder os(1) have decoded: "values text = (map marshal_acked os, True)"
    unfolding decoder_law_def by blast
  from verify_values_verifies [OF a(2,3,4) lengths assms(2) os(2)]
  obtain out where "fold_act (verify_value sha ex a) (map marshal_acked os) False (k, []) = (Inr False, (k\<lparr>kw_out := out\<rparr>, []))"
    by blast
  with decoded a assms(3,4) os(1) show ?thesis
    by (auto simp: objects_check_def verify_objects_def act_then_def guard_def)
qed

end

subsection \<open>The object store is such a service\<close>

text \<open>Over a network on which a request and a reply can be lost; \<open>candidates\<close> are the random names the server tries.\<close>

definition object_exchange :: "(string \<Rightarrow> string) \<Rightarrow> string \<Rightarrow> string \<Rightarrow> string list \<Rightarrow> object_store exchange" where
  "object_exchange sha owner base candidates m url body =
     act_then (read_world (\<lambda>_. Inr ())) (\<lambda>_.
     act_then (ServeHTTP sha owner \<lparr>ob_method = m, ob_path = trim_prefix url base, ob_body = body, ob_broken = False, ob_suffixes = candidates\<rparr>) (\<lambda>reply.
     act_then (read_world (\<lambda>_. Inr ())) (\<lambda>_.
     ret (fst reply, snd reply, False))))"

definition holds_object :: "string \<Rightarrow> string \<Rightarrow> object_store \<Rightarrow> bool" where
  "holds_object i c w \<longleftrightarrow> is_object i \<and> gm_get (st_root_dir w) i = Some c"

definition serving_store :: "string \<Rightarrow> object_store \<Rightarrow> bool" where
  "serving_store owner w \<longleftrightarrow> st_slots w < object_slots \<and> st_device w \<noteq> st_parent_device w
     \<and> (case gm_get (st_root_dir w) ''.owner'' of None \<Rightarrow> False | Some b \<Rightarrow> trim_space b = owner)"

lemma object_id_same: "object_id (''/objects/'' @ i) = Some i' \<Longrightarrow> i' = i \<and> is_object i"
  unfolding is_object_def object_id_path by (auto split: option.splits if_splits)

lemma exchange_grows:
  assumes "store_ok sha w0"
  shows "interrupted ((=) w0) (object_exchange sha owner base candidates m (base @ ''/objects/'' @ i) body)
    (\<lambda>resp w. store_grows sha w0 w \<and> (fst resp = 201 \<longrightarrow> (\<exists>c. holds_object i c w \<and> sha c = sha body))) (store_grows sha w0)"
    (is "interrupted _ _ ?Q ?I")
proof -
  let ?r = "\<lparr>ob_method = m, ob_path = ''/objects/'' @ i, ob_body = body, ob_broken = False, ob_suffixes = candidates\<rparr>"
  have same: "store_grows sha w0 w0" using assms by (simp add: store_grows_def store_keeps_def)
  have means: "\<exists>c. holds_object i c w \<and> sha c = sha body" if "reply_means sha w0 ?r reply w" "fst reply = 201" for reply w
    using that object_id_same [of i] by (auto simp: reply_means_def stored_def holds_object_def) (metis hex_encode_inj)
  have out: "?Q (fst reply, snd reply, False) w" if "store_grows sha w0 w" "reply_means sha w0 ?r reply w" for reply w
    using that(1) means [OF that(2)] by simp
  have send: "interrupted ((=) w0) (read_world (\<lambda>_. Inr ())) (\<lambda>_. (=) w0) ?I"
    by (rule interrupted_read) (use same in auto)
  have answer: "interrupted (\<lambda>w. store_grows sha w0 w \<and> reply_means sha w0 ?r reply w)
      (act_then (read_world (\<lambda>_. Inr ())) (\<lambda>_. ret (fst reply, snd reply, False))) ?Q ?I" for reply
    by (rule interrupted_then_read, simp, rule interrupted_ret, elim conjE, rule out)
  show ?thesis
    unfolding object_exchange_def trim_prefix_append
    by (rule interrupted_then [OF send], rule interrupted_then [OF ServeHTTP_grows [OF assms]], rule answer)
qed

lemma exchange_serves:
  assumes w: "serving_store owner w" and c: "holds_object i c w"
  shows "object_exchange sha owner base candidates ''GET'' (base @ ''/objects/'' @ i) [] (w, []) = (Inr (200, c, False), (w, []))"
proof -
  have i: "object_id (''/objects/'' @ i) = Some i" "''/objects/'' @ i \<noteq> ''/health''"
    and b: "gm_get (st_root_dir w) i = Some c"
    using c by (auto simp: holds_object_def is_object_def)
  show ?thesis
    using w i b
    by (auto simp: object_exchange_def serving_store_def ServeHTTP_def take_slot_def give_slot_def direct_def act_then_def
        try_act_def serve_owned_def owned_def read_file_def get_object_def sync_call_def guard_def split: option.splits)
qed

interpretation stored: object_service sha "object_exchange sha owner base candidates" base "store_ok sha" holds_object "serving_store owner"
  for sha owner base candidates
proof
  fix i body
  show "interrupted (store_ok sha) (object_exchange sha owner base candidates ''PUT'' (base @ ''/objects/'' @ i) body)
      (\<lambda>resp w. store_ok sha w \<and> (fst resp = 201 \<longrightarrow> (\<exists>c. holds_object i c w \<and> sha c = sha body))) (store_ok sha)"
    by (rule interrupted_assume, rule interrupted_weaken [OF exchange_grows]) (auto simp: store_grows_def)
next
  fix i' c i body
  show "interrupted (\<lambda>w. store_ok sha w \<and> holds_object i' c w) (object_exchange sha owner base candidates ''PUT'' (base @ ''/objects/'' @ i) body)
      (\<lambda>_. holds_object i' c) (holds_object i' c)"
    by (rule interrupted_assume, rule interrupted_weaken [OF exchange_grows])
      (use pending_not_object in \<open>auto simp: store_grows_def store_keeps_def holds_object_def\<close>)
qed (rule exchange_serves)

lemma backs_later:
  "stored.backs sha w n o1 \<Longrightarrow> store_keeps w w' \<Longrightarrow> stored.backs sha w' n o1"
  using pending_not_object unfolding stored.backs_def store_keeps_def holds_object_def by blast

lemma ledger_later:
  assumes "stored.ack_ledger sha n k" and "store_grows sha (kw_service k) w"
  shows "stored.ack_ledger sha n (k\<lparr>kw_service := w\<rparr>)"
  using assms backs_later
  by (fastforce simp: stored.ack_ledger_def manifest_text_def store_grows_def list_all_iff)

subsection \<open>The property\<close>

text \<open>C36. Every acknowledgement that the client wrote down stands: take a run that writes objects to the modelled
  service, with any failures of either on the way and the manifest with what it acknowledged; once no file of the
  service is damaged and the calls succeed, the verification of that manifest passes.\<close>

theorem acknowledged_objects_verify:
  assumes start: "store_ok sha (kw_service k)" "kw_manifest k = None"
    and params: "generator_law rng" "decoder_law decode" "lengths_law sha (nat (oa_bytes a))"
    and run: "objects_check sha rng decode (object_exchange sha owner (oa_url a) candidates) a (k, os) = (r, (k1, os1))" "\<not> oa_verify a"
    and acked: "kw_manifest k1 = Some text" "text \<noteq> []"
    and later: "serving_store owner (store_after sha requests (kw_service k1))"
  shows "fst (objects_check sha rng decode (object_exchange sha owner (oa_url a) candidates') (a\<lparr>oa_verify := True\<rparr>)
    (k1\<lparr>kw_service := store_after sha requests (kw_service k1)\<rparr>, [])) = Inr False"
proof -
  let ?n = "nat (oa_bytes a)" and ?k2 = "k1\<lparr>kw_service := store_after sha requests (kw_service k1)\<rparr>"
  have "stored.ack_ledger sha ?n k"
    using start by (auto simp: stored.ack_ledger_def manifest_text_def intro!: exI [of _ "[]"])
  from interruptedD [OF stored.write_ledger [OF run(2) refl params(1)] this run(1)]
  have one: "stored.ack_ledger sha ?n k1" by (simp split: sum.splits)
  then have "store_ok sha (kw_service k1)" by (simp add: stored.ack_ledger_def)
  from ledger_later [OF one store_after_grows [OF this]] have two: "stored.ack_ledger sha ?n ?k2" .
  have bounds: "check_args_ok a"
  proof (rule ccontr)
    assume "\<not> check_args_ok a"
    with run(1) have "k1 = k" by (auto simp: objects_check_def act_then_def)
    with acked start show False by simp
  qed
  then have "?n < 2 ^ 63 - 1" "check_args_ok (a\<lparr>oa_verify := True\<rparr>)" by (auto simp: check_args_ok_def)
  then show ?thesis
    by (intro stored.ledger_verifies [OF two]) (use params acked later in simp_all)
qed

subsection \<open>Witness\<close>

text \<open>A decoder of the lines of a manifest, one after the other.\<close>

fun line_values :: "nat \<Rightarrow> string \<Rightarrow> json list" where
  "line_values 0 t = []"
| "line_values (Suc fuel) t = (if t = [] then [] else
     let t1 = drop 7 t; t2 = drop 10 (dropWhile (\<lambda>c. c \<noteq> CHR 0x22) t1); d = takeWhile (\<lambda>c. c \<noteq> CHR ''}'') t2 in
     JObj [(''id'', JStr (takeWhile (\<lambda>c. c \<noteq> CHR 0x22) t1)), (''bytes'', JNum (case read_digits 0 d of None \<Rightarrow> 0 | Some n \<Rightarrow> int n))]
       # line_values fuel (drop 2 (dropWhile (\<lambda>c. c \<noteq> CHR ''}'') t2)))"

definition line_decoder :: "string \<Rightarrow> json list \<times> bool" where
  "line_decoder t = (line_values (length t) t, True)"

lemma hex_chars: "c \<in> set (hex_encode b) \<Longrightarrow> escape_char c = [c] \<and> c \<noteq> CHR 0x22"
proof (induction b)
  case (Cons x b)
  have all: "\<forall>n < 16. escape_char (hex_digit n) = [hex_digit n] \<and> hex_digit n \<noteq> CHR 0x22" by code_simp
  have "(of_char x :: nat) div 16 < 16" by (simp add: less_mult_imp_div_less of_char_less_256)
  with Cons all show ?case by auto
qed simp

lemma quote_hex: "quote (hex_encode b) = CHR 0x22 # hex_encode b @ [CHR 0x22]"
proof -
  have "concat (map escape_char cs) = cs" if "\<forall>c \<in> set cs. escape_char c = [c]" for cs
    using that by (induction cs) auto
  then have "concat (map escape_char (hex_encode b)) = hex_encode b" by (auto dest: hex_chars)
  then show ?thesis by (simp add: quote_def)
qed

lemma ack_line_shape:
  "ack_line \<lparr>ao_id = hex_encode b, ao_bytes = int n\<rparr> =
     [CHR ''{'', CHR 0x22, CHR ''i'', CHR ''d'', CHR 0x22, CHR '':'', CHR 0x22] @ hex_encode b
     @ [CHR 0x22, CHR '','', CHR 0x22, CHR ''b'', CHR ''y'', CHR ''t'', CHR ''e'', CHR ''s'', CHR 0x22, CHR '':''] @ itoa n @ [CHR ''}'', CHR 0x0A]"
proof -
  have "quote ''id'' = [CHR 0x22, CHR ''i'', CHR ''d'', CHR 0x22]"
    "quote ''bytes'' = [CHR 0x22, CHR ''b'', CHR ''y'', CHR ''t'', CHR ''e'', CHR ''s'', CHR 0x22]"
    by code_simp+
  then show ?thesis by (simp add: ack_line_def marshal_acked_def quote_hex render_int_def)
qed

lemma line_values_written:
  "list_all (\<lambda>o1. \<exists>b. ao_id o1 = hex_encode b \<and> 0 \<le> ao_bytes o1) os \<Longrightarrow> length os \<le> fuel
    \<Longrightarrow> line_values fuel (concat (map ack_line os)) = map marshal_acked os"
proof (induction os arbitrary: fuel)
  case Nil
  then show ?case by (cases fuel) auto
next
  case (Cons o1 os)
  from Cons.prems obtain fuel' where fuel: "fuel = Suc fuel'" "length os \<le> fuel'" by (cases fuel) auto
  from Cons.prems obtain b where "ao_id o1 = hex_encode b" "0 \<le> ao_bytes o1" by auto
  then obtain n where o1: "o1 = \<lparr>ao_id = hex_encode b, ao_bytes = int n\<rparr>" by (cases o1) (auto dest: zero_le_imp_eq_int)
  let ?rest = "concat (map ack_line os)"
  have id_end: "takeWhile (\<lambda>c. c \<noteq> CHR 0x22) (hex_encode b @ CHR 0x22 # t) = hex_encode b"
      "dropWhile (\<lambda>c. c \<noteq> CHR 0x22) (hex_encode b @ CHR 0x22 # t) = CHR 0x22 # t" for t
    by (subst takeWhile_append2 dropWhile_append2; auto dest: hex_chars)+
  have "c \<noteq> CHR ''}''" if "c \<in> set (itoa n)" for c
    using itoa_digits [OF that] by (auto simp: digit_value_def less_eq_char_def)
  then have digits: "takeWhile (\<lambda>c. c \<noteq> CHR ''}'') (itoa n @ CHR ''}'' # t) = itoa n"
      "dropWhile (\<lambda>c. c \<noteq> CHR ''}'') (itoa n @ CHR ''}'' # t) = CHR ''}'' # t" for t
    by (subst takeWhile_append2 dropWhile_append2; auto)+
  have "line_values fuel' ?rest = map marshal_acked os" using Cons fuel(2) by simp
  then show ?case
    by (simp add: fuel o1 ack_line_shape Let_def id_end digits read_digits_itoa)
      (simp add: marshal_acked_def)
qed

lemma line_decoder_law: "decoder_law line_decoder"
  unfolding decoder_law_def
proof (intro allI impI)
  fix os :: "acked list"
  assume os: "list_all (\<lambda>o1. \<exists>b. ao_id o1 = hex_encode b \<and> 0 \<le> ao_bytes o1) os"
  have "length os \<le> length (concat (map ack_line os))"
    by (induction os) (auto simp: ack_line_def)
  with os show "line_decoder (concat (map ack_line os)) = (map marshal_acked os, True)"
    by (simp add: line_decoder_def line_values_written)
qed

definition length_hash :: "string \<Rightarrow> string" where
  "length_hash s = replicate 32 (if length s = 2 then CHR ''a'' else CHR ''b'')"

definition same_bodies :: "int \<Rightarrow> nat \<Rightarrow> nat \<Rightarrow> string" where
  "same_bodies seed n i = replicate n CHR ''x''"

definition sample_check :: check_args where
  "sample_check = \<lparr>oa_url = ''http://s'', oa_count = 2, oa_bytes = 2, oa_seed = 1, oa_verify = False\<rparr>"

definition sample_world :: "object_store check_world" where
  "sample_world = \<lparr>kw_service = sample_store, kw_manifest = None, kw_out = []\<rparr>"

definition sample_run :: "bool result \<times> object_store check_world \<times> outcome list" where
  "sample_run = objects_check length_hash same_bodies line_decoder (object_exchange length_hash ''o-1'' ''http://s'' [''7''])
     sample_check (sample_world, [Refused ''connection refused''])"

text \<open>The first PUT is refused by the network, the second is acknowledged.\<close>

lemma sample_run_acks:
  "fst sample_run = Inr True" "kw_manifest (fst (snd sample_run)) = Some (ack_line \<lparr>ao_id = hex_encode (length_hash ''xx''), ao_bytes = 2\<rparr>)"
  "serving_store ''o-1'' (kw_service (fst (snd sample_run)))"
  by code_simp+

theorem acknowledged_objects_verify_witness:
  "fst (objects_check length_hash same_bodies line_decoder (object_exchange length_hash ''o-1'' ''http://s'' []) (sample_check\<lparr>oa_verify := True\<rparr>)
    ((fst (snd sample_run))\<lparr>kw_service := kw_service (fst (snd sample_run))\<rparr>, [])) = Inr False"
proof -
  have run: "objects_check length_hash same_bodies line_decoder (object_exchange length_hash ''o-1'' (oa_url sample_check) [''7'']) sample_check
      (sample_world, [Refused ''connection refused'']) = (fst sample_run, (fst (snd sample_run), snd (snd sample_run)))"
    by (simp add: sample_run_def sample_check_def)
  have ok: "store_ok length_hash (kw_service sample_world)" "kw_manifest sample_world = None"
    using owner_not_object by (auto simp: sample_world_def store_ok_def sample_store_def gm_ok_def split: if_splits)
  have params: "generator_law same_bodies" "lengths_law length_hash (nat (oa_bytes sample_check))"
    by (auto simp: generator_law_def same_bodies_def lengths_law_def length_hash_def sample_check_def split: if_splits)
  have writes: "\<not> oa_verify sample_check" "ack_line o1 \<noteq> []" for o1 by (simp_all add: sample_check_def ack_line_def)
  from acknowledged_objects_verify [OF ok params(1) line_decoder_law params(2) run writes(1) sample_run_acks(2) writes(2), of "[]" "[]"]
    sample_run_acks(3)
  show ?thesis by (simp add: sample_check_def)
qed

end
