(* ===== verification/Router_Service.thy ===== *)
theory Router_Service
  imports Recovery_Peers
begin

section \<open>The router as a service: publish, view, start\<close>

text \<open>
  The handlers \<^verbatim>\<open>publish\<close>, \<^verbatim>\<open>view\<close> and \<^verbatim>\<open>health\<close> of \<^verbatim>\<open>routing/src/main.rs\<close>, its start, and \<^verbatim>\<open>load\<close> and \<^verbatim>\<open>save\<close> of
  \<^verbatim>\<open>routing/src/storage.rs\<close>. The world is the configuration, the active state and the state file; the file holds
  a state rather than its JSON text. A handler runs to its end: the second look at the credential under the writer
  lock is modelled, other handlers in between are not. A busy writer is an outcome of the lock. Limits on
  subscribers and connections are not modelled.
\<close>

record identity =
  idn_token :: string
  idn_applications :: "string list"

record routing_node =
  rn_owners :: "(string, identity) go_map"
  rn_active :: router_state
  rn_disk :: "router_state option"

type_synonym 'a node_action = "(routing_node, 'a) action"

definition empty_state :: router_state where
  "empty_state = \<lparr>rt_generation = 0, rt_owners = []\<rparr>"

definition view_limit :: nat where
  "view_limit = 16 * 1024 * 1024"

text \<open>\<^verbatim>\<open>Policy::new\<close>\<close>

definition policy_of :: "identity \<Rightarrow> router_policy" where
  "policy_of i = \<lparr>pol_applications = idn_applications i, pol_record_limit = 4096, pol_view_limit = view_limit\<rparr>"

subsection \<open>storage.rs\<close>

definition load_state :: "(router_state \<Rightarrow> nat) \<Rightarrow> router_state option node_action" where
  "load_state json_bytes = read_world (\<lambda>v. case rn_disk v of None \<Rightarrow> Inr None
     | Some st \<Rightarrow> if view_limit < json_bytes st then Inl ''state exceeds capacity'' else Inr (Some (after_restart st)))"

text \<open>The pending file, its content and its sync; the rename; the sync of the directory.\<close>

definition save_state :: "router_state \<Rightarrow> unit node_action" where
  "save_state st =
     act_then (read_world (\<lambda>_. Inr ())) (\<lambda>_.
     act_then (read_world (\<lambda>_. Inr ())) (\<lambda>_.
     act_then (read_world (\<lambda>_. Inr ())) (\<lambda>_.
     act_then (write_world (\<lambda>v. v\<lparr>rn_disk := Some st\<rparr>)) (\<lambda>_.
     read_world (\<lambda>_. Inr ())))))"

subsection \<open>The handlers\<close>

definition expected_hash :: "(string \<Rightarrow> string) \<Rightarrow> string \<Rightarrow> identity \<Rightarrow> routing_node \<Rightarrow> string" where
  "expected_hash sha owner i v = (case Option.bind (gm_get (rt_owners (rn_active v)) owner) own_credential of
     Some h \<Rightarrow> h | None \<Rightarrow> hex_encode (sha (idn_token i)))"

definition look :: "(routing_node \<Rightarrow> 'a) \<Rightarrow> 'a node_action" where
  "look f = direct (\<lambda>v. (f v, v))"

definition answer :: "nat \<Rightarrow> json \<Rightarrow> router_reply" where
  "answer status j = \<lparr>rep_status = status, rep_length = length (render j), rep_body = Inr j\<rparr>"

definition accepted_json :: "router_state \<Rightarrow> json" where
  "accepted_json st = JObj [(''accepted'', JBool True), (''generation'', JNum (uint (rt_generation st)))]"

definition publish_candidate :: "router_state \<Rightarrow> router_reply node_action" where
  "publish_candidate st =
     act_then (try_act (save_state st)) (\<lambda>saved.
     case saved of Inl _ \<Rightarrow> ret (refuse 507)
     | Inr _ \<Rightarrow> act_then (direct (\<lambda>v. ((), v\<lparr>rn_active := st\<rparr>))) (\<lambda>_. ret (answer 200 (accepted_json st))))"

definition publish_known :: "(string \<Rightarrow> string) \<Rightarrow> (router_state \<Rightarrow> nat) \<Rightarrow> string \<Rightarrow> routeSnapshot \<Rightarrow> u64 \<Rightarrow> identity \<Rightarrow> router_reply node_action" where
  "publish_known sha json_bytes token s now i =
     act_then (look (expected_hash sha (snap_owner s) i)) (\<lambda>expected.
     if hex_encode (sha token) \<noteq> expected then ret (refuse 401) else
     act_then (try_act (read_world (\<lambda>_. Inr ()))) (\<lambda>lock.
     case lock of Inl _ \<Rightarrow> ret (refuse 503)
     | Inr _ \<Rightarrow>
       act_then (look (expected_hash sha (snap_owner s) i)) (\<lambda>current_hash.
       if current_hash \<noteq> expected then ret (refuse 401) else
       act_then (look rn_active) (\<lambda>current.
       if gm_get (rt_owners current) (snap_owner s) = None \<and> snap_incarnation s \<noteq> 1 then ret (refuse 409) else
       case router_accept json_bytes current (snap_owner s) s (policy_of i) now of
         Inl e \<Rightarrow> ret (refuse 409)
       | Inr candidate \<Rightarrow> publish_candidate candidate))))"

definition publish_handler :: "(string \<Rightarrow> string) \<Rightarrow> (router_state \<Rightarrow> nat) \<Rightarrow> string \<Rightarrow> routeSnapshot \<Rightarrow> u64 \<Rightarrow> router_reply node_action" where
  "publish_handler sha json_bytes token s now =
     act_then (look rn_owners) (\<lambda>owners. case gm_get owners (snap_owner s) of
       None \<Rightarrow> ret (refuse 401)
     | Some i \<Rightarrow> publish_known sha json_bytes token s now i)"

definition marshal_state :: "router_state \<Rightarrow> json" where
  "marshal_state st = JObj [(''generation'', JNum (uint (rt_generation st))),
     (''owners'', JObj (map (\<lambda>(k, e). (k, marshal_owner e)) (rt_owners st)))]"

text \<open>The length of a view is that of its JSON; the header with the generations skipped is not modelled.\<close>

definition view_handler :: "(router_state \<Rightarrow> nat) \<Rightarrow> router_reply node_action" where
  "view_handler json_bytes = act_then (look rn_active) (\<lambda>st.
     ret \<lparr>rep_status = 200, rep_length = json_bytes st, rep_body = Inr (marshal_state st)\<rparr>)"

text \<open>The answer without the counters of subscribers and of coalesced deliveries.\<close>

definition health_handler :: "router_reply node_action" where
  "health_handler = act_then (look rn_active) (\<lambda>st.
     ret (answer 200 (JObj [(''generation'', JNum (uint (rt_generation st))), (''owners'', JNum (int (length (rt_owners st)))), (''ready'', JBool True)])))"

subsection \<open>The start\<close>

definition config_ok :: "(string, identity) go_map \<Rightarrow> bool" where
  "config_ok owners \<longleftrightarrow> owners \<noteq> [] \<and> length owners \<le> 16
     \<and> list_all (\<lambda>(k, i). 32 \<le> length (idn_token i) \<and> length (idn_token i) \<le> 128 \<and> idn_applications i \<noteq> []) owners"

definition validate_owner :: "string \<times> owner_entry \<Rightarrow> unit \<Rightarrow> unit result" where
  "validate_owner ke u = (case ke of (k, e) \<Rightarrow>
     if k \<noteq> snap_owner (own_snapshot e) \<or> (case own_frozen_by e of None \<Rightarrow> False | Some op \<Rightarrow> \<not> router_name op)
     then Inl ''invalid persisted owner metadata''
     else if (case own_credential e of None \<Rightarrow> False | Some h \<Rightarrow> \<not> router_hex h)
       \<or> (case own_recovery e of None \<Rightarrow> False | Some m \<Rightarrow> \<not> router_name (mark_operation m) \<or> \<not> router_hex (mark_digest m))
       \<or> 1 < snap_incarnation (own_snapshot e) \<and> (own_credential e = None \<or> own_recovery e = None)
     then Inl ''missing or invalid recovery fence''
     else Inr ())"

definition validate_metadata :: "router_state \<Rightarrow> unit result" where
  "validate_metadata st = (if 16 < length (rt_owners st) then Inl ''too many owners''
     else fold_result validate_owner (rt_owners st) ())"

definition revalidate :: "(router_state \<Rightarrow> nat) \<Rightarrow> (string, identity) go_map \<Rightarrow> string \<times> owner_entry \<Rightarrow> router_state \<Rightarrow> router_state result" where
  "revalidate json_bytes owners ke validated = (case ke of (k, e) \<Rightarrow>
     (case gm_get owners k of None \<Rightarrow> Inl ''persisted owner missing from configuration''
      | Some i \<Rightarrow> router_accept json_bytes validated k (own_snapshot e) (policy_of i) (own_reconciled e)))"

definition router_start :: "(router_state \<Rightarrow> nat) \<Rightarrow> unit node_action" where
  "router_start json_bytes =
     act_then (look rn_owners) (\<lambda>owners.
     act_then (lift_result (guard (config_ok owners) ''expected 1..16 owners with credentials and applications'')) (\<lambda>_.
     act_then (read_world (\<lambda>_. Inr ())) (\<lambda>_.
     act_then (load_state json_bytes) (\<lambda>loaded.
     let st = (case loaded of None \<Rightarrow> empty_state | Some st \<Rightarrow> st) in
     act_then (lift_result (validate_metadata st)) (\<lambda>_.
     act_then (lift_result (fold_result (revalidate json_bytes owners) (rt_owners st) empty_state)) (\<lambda>_.
     direct (\<lambda>v. ((), v\<lparr>rn_active := st\<rparr>))))))))"

end
