(* ===== verification/Routing_Check.thy ===== *)
theory Routing_Check
  imports Router_Service
begin

section \<open>The verifier of the routing foundation: cmd/routing-check\<close>

text \<open>
  \<^verbatim>\<open>main.go\<close> and \<^verbatim>\<open>convergence.go\<close> of \<^verbatim>\<open>cmd/routing-check\<close>: a client that starts routers, publishes snapshots to them
  and reports for each case whether the answers are the expected ones. The routers are an interface: what a
  request, a start and a kill do to the world \<open>'w\<close>. Its record, snapshot and their JSON are those of the worker,
  field for field. Not modelled: addresses, log files, delays and the time limits, of which only the number of
  polls for readiness is kept; the evidence that is written to files.
\<close>

subsection \<open>The routers\<close>

text \<open>Node 0 is the router of \<^verbatim>\<open>run\<close>, 1 and 2 those of \<^verbatim>\<open>convergence\<close>. A request has method, path, token and body.\<close>

record 'w routers =
  rs_call :: "nat \<Rightarrow> string \<Rightarrow> string \<Rightarrow> string \<Rightarrow> routeSnapshot option \<Rightarrow> ('w, router_reply) action"
  rs_start :: "nat \<Rightarrow> ('w, unit) action"
  rs_kill :: "nat \<Rightarrow> ('w, unit) action"
  rs_polls :: nat

record ownerView =
  ov_snapshot :: routeSnapshot
  ov_reconciled :: u64
  ov_stale :: bool

record router_view =
  vw_generation :: u64
  vw_owners :: "(string, ownerView) go_map"

record observation =
  obs_case :: string
  obs_result :: "unit result"

definition zero_view :: router_view where
  "zero_view = \<lparr>vw_generation = 0, vw_owners = []\<rparr>"

definition zero_owner_view :: ownerView where
  "zero_owner_view = \<lparr>ov_snapshot = zero_snapshot, ov_reconciled = 0, ov_stale = False\<rparr>"

definition owner_view_field :: "string \<times> json \<Rightarrow> ownerView \<Rightarrow> ownerView result" where
  "owner_view_field kv o1 = (case kv of (k, j) \<Rightarrow>
     if names_field k ''snapshot'' then and_then (snapshot_into j (ov_snapshot o1)) (\<lambda>x. Inr (o1\<lparr>ov_snapshot := x\<rparr>))
     else if names_field k ''reconciled_ms'' then and_then (read_u64 j (ov_reconciled o1)) (\<lambda>x. Inr (o1\<lparr>ov_reconciled := x\<rparr>))
     else if names_field k ''stale'' then and_then (read_bool j (ov_stale o1)) (\<lambda>x. Inr (o1\<lparr>ov_stale := x\<rparr>))
     else unknown_field False k o1)"

definition view_field :: "string \<times> json \<Rightarrow> router_view \<Rightarrow> router_view result" where
  "view_field kv v = (case kv of (k, j) \<Rightarrow>
     if names_field k ''generation'' then and_then (read_u64 j (vw_generation v)) (\<lambda>x. Inr (v\<lparr>vw_generation := x\<rparr>))
     else if names_field k ''owners'' then
       and_then (read_map (read_struct owner_view_field) zero_owner_view j (vw_owners v)) (\<lambda>x. Inr (v\<lparr>vw_owners := x\<rparr>))
     else unknown_field False k v)"

definition read_view :: "json \<Rightarrow> router_view result" where
  "read_view j = read_struct view_field j zero_view"

text \<open>A lookup in a Go map of structs: the zero value when there is none.\<close>

definition owner_of :: "router_view \<Rightarrow> string \<Rightarrow> ownerView" where
  "owner_of v k = (case gm_get (vw_owners v) k of None \<Rightarrow> zero_owner_view | Some x \<Rightarrow> x)"

definition record_of :: "routeSnapshot \<Rightarrow> string \<Rightarrow> routeRecord" where
  "record_of s k = (case gm_get (snap_records s) k of None \<Rightarrow> zero_record | Some r \<Rightarrow> r)"

subsection \<open>The client\<close>

definition request :: "'w routers \<Rightarrow> nat \<Rightarrow> string \<Rightarrow> string \<Rightarrow> string \<Rightarrow> routeSnapshot option \<Rightarrow> ('w, nat \<times> json result) action" where
  "request rs n m path token data =
     act_then (rs_call rs n m path token data) (\<lambda>reply.
     lift_result (if 16 * 1024 * 1024 < rep_length reply then Inl ''response capacity exceeded''
       else Inr (rep_status reply, rep_body reply)))"

definition publish :: "'w routers \<Rightarrow> nat \<Rightarrow> string \<Rightarrow> routeSnapshot \<Rightarrow> nat \<Rightarrow> ('w, unit) action" where
  "publish rs n token s want =
     act_then (request rs n ''POST'' ''/snapshot'' token (Some s)) (\<lambda>(code, data).
     lift_result (guard (code = want) ''publish status''))"

definition current :: "'w routers \<Rightarrow> nat \<Rightarrow> ('w, router_view) action" where
  "current rs n =
     act_then (request rs n ''GET'' ''/view'' [] None) (\<lambda>(code, data).
     lift_result (if code \<noteq> 200 then Inl ''view status'' else and_then data read_view))"

text \<open>\<^verbatim>\<open>check\<close>: an error is an observation and does not end the run.\<close>

definition check :: "string \<Rightarrow> ('w, unit) action \<Rightarrow> observation list \<Rightarrow> ('w, observation list) action" where
  "check name body obs = act_then (try_act body) (\<lambda>r. ret (obs @ [\<lparr>obs_case = name, obs_result = r\<rparr>]))"

text \<open>Polling \<^verbatim>\<open>/health\<close> until the deadline; \<open>rs_polls\<close> is how many polls fit in.\<close>

fun await_ready :: "'w routers \<Rightarrow> nat \<Rightarrow> nat \<Rightarrow> ('w, bool) action" where
  "await_ready rs n 0 = ret False"
| "await_ready rs n (Suc polls) =
     act_then (try_act (request rs n ''GET'' ''/health'' [] None)) (\<lambda>r.
     case r of Inr (code, data) \<Rightarrow> if code = 200 then ret True else await_ready rs n polls | Inl _ \<Rightarrow> await_ready rs n polls)"

definition start_router :: "'w routers \<Rightarrow> nat \<Rightarrow> ('w, unit) action" where
  "start_router rs n =
     act_then (rs_start rs n) (\<lambda>_.
     act_then (await_ready rs n (rs_polls rs)) (\<lambda>ready.
     lift_result (guard ready ''router readiness timeout'')))"

text \<open>A stop without a process does nothing; a kill of a process that is down is one.\<close>

definition stop_router :: "'w routers \<Rightarrow> nat \<Rightarrow> ('w, unit) action" where
  "stop_router rs n = act_then (try_act (rs_kill rs n)) (\<lambda>_. ret ())"

subsection \<open>convergence.go\<close>

definition fixture_record :: "string \<Rightarrow> string \<Rightarrow> u64 \<Rightarrow> bool \<Rightarrow> routeRecord" where
  "fixture_record i endpoint rv deleted = \<lparr>rec_id = i, rec_app = ''echo'', rec_endpoint = endpoint, rec_revision = rv, rec_deleted = deleted\<rparr>"

definition fixture_snapshot :: "u64 \<Rightarrow> (string, routeRecord) go_map \<Rightarrow> routeSnapshot" where
  "fixture_snapshot rv records = \<lparr>snap_schema = 1, snap_owner = ''worker-1'', snap_incarnation = 1, snap_revision = rv, snap_records = records\<rparr>"

definition first_snapshot :: routeSnapshot where
  "first_snapshot = fixture_snapshot 1 [(''one'', fixture_record ''one'' ''127.0.0.1:19001'' 1 False)]"

definition second_snapshot :: routeSnapshot where
  "second_snapshot = fixture_snapshot 2 [(''one'', record_of first_snapshot ''one''), (''two'', fixture_record ''two'' ''127.0.0.1:19002'' 2 False)]"

definition final_snapshot :: routeSnapshot where
  "final_snapshot = fixture_snapshot 3 [(''one'', fixture_record ''one'' ''127.0.0.1:19001'' 3 True), (''two'', record_of second_snapshot ''two'')]"

record history_step =
  hs_node :: nat
  hs_snapshot :: routeSnapshot
  hs_status :: nat
  hs_drop :: bool

definition convergence_steps :: "history_step list" where
  "convergence_steps = map (\<lambda>(n, s, status, dropped). \<lparr>hs_node = n, hs_snapshot = s, hs_status = status, hs_drop = dropped\<rparr>)
     [(0, first_snapshot, 200, False), (1, first_snapshot, 200, False), (0, second_snapshot, 200, False),
      (1, second_snapshot, 0, True), (0, second_snapshot, 200, False), (1, final_snapshot, 200, False),
      (0, final_snapshot, 200, False), (0, second_snapshot, 409, False), (1, first_snapshot, 409, False)]"

definition convergence_step :: "'w routers \<Rightarrow> string \<Rightarrow> history_step \<Rightarrow> unit \<Rightarrow> ('w, unit) action" where
  "convergence_step rs token st u = (if hs_drop st then ret () else publish rs (Suc (hs_node st)) token (hs_snapshot st) (hs_status st))"

definition same_final :: "'w routers \<Rightarrow> nat \<Rightarrow> unit \<Rightarrow> ('w, unit) action" where
  "same_final rs n u =
     act_then (current rs (Suc n)) (\<lambda>v.
     lift_result (guard (ov_snapshot (owner_of v ''worker-1'') = final_snapshot) ''node differs from independent final history''))"

text \<open>A free address and a log file, calls that can fail, come before each child.\<close>

definition start_nodes :: "'w routers \<Rightarrow> ('w, unit) action" where
  "start_nodes rs = fold_act (\<lambda>i _.
     act_then (read_world (\<lambda>_. Inr ())) (\<lambda>_.
     act_then (read_world (\<lambda>_. Inr ())) (\<lambda>_.
     start_router rs (Suc i)))) [0, 1] ()"

text \<open>
  The history is written to a file, then sent; both nodes are compared with its end. The test of the elapsed time
  and the report are calls that can fail. The children are killed on every way out.
\<close>

definition converge_nodes :: "'w routers \<Rightarrow> string \<Rightarrow> ('w, unit) action" where
  "converge_nodes rs token =
     act_then (start_nodes rs) (\<lambda>_.
     act_then (read_world (\<lambda>_. Inr ())) (\<lambda>_.
     act_then (fold_act (convergence_step rs token) convergence_steps ()) (\<lambda>_.
     act_then (fold_act (same_final rs) [0, 1] ()) (\<lambda>_.
     act_then (read_world (\<lambda>_. Inr ())) (\<lambda>_.
     read_world (\<lambda>_. Inr ()))))))"

definition convergence :: "'w routers \<Rightarrow> string \<Rightarrow> ('w, unit) action" where
  "convergence rs token =
     act_then (try_act (converge_nodes rs token)) (\<lambda>r.
     act_then (fold_act (\<lambda>i _. stop_router rs (Suc i)) [0, 1] ()) (\<lambda>_.
     lift_result r))"

subsection \<open>The cases of run\<close>

definition router_token :: string where
  "router_token = ''fixture-only-routing-verifier-token-0001''"

definition expect_status :: "'w routers \<Rightarrow> string \<Rightarrow> routeSnapshot \<Rightarrow> nat \<Rightarrow> ('w, unit) action" where
  "expect_status rs token s want =
     act_then (request rs 0 ''POST'' ''/snapshot'' token (Some s)) (\<lambda>(code, data).
     lift_result (guard (code = want) ''unexpected status''))"

definition restored_snapshot :: routeSnapshot where
  "restored_snapshot = \<lparr>snap_schema = 1, snap_owner = ''worker-2'', snap_incarnation = 2, snap_revision = 1,
     snap_records = [(''unknown'', fixture_record ''unknown'' ''127.0.0.1:19500'' 1 False)]\<rparr>"

definition changed_snapshot :: routeSnapshot where
  "changed_snapshot = fixture_snapshot 1 [(''one'', fixture_record ''one'' ''127.0.0.1:19002'' 1 False)]"

definition deleted_snapshot :: routeSnapshot where
  "deleted_snapshot = fixture_snapshot 2 [(''one'', fixture_record ''one'' ''127.0.0.1:19001'' 2 True)]"

definition case_conflict :: "'w routers \<Rightarrow> ('w, unit) action" where
  "case_conflict rs =
     act_then (publish rs 0 router_token changed_snapshot 409) (\<lambda>_.
     act_then (current rs 0) (\<lambda>v.
     lift_result (guard (rec_endpoint (record_of (ov_snapshot (owner_of v ''worker-1'')) ''one'') = ''127.0.0.1:19001'') ''rejected endpoint activated'')))"

definition case_replay :: "'w routers \<Rightarrow> ('w, unit) action" where
  "case_replay rs = act_then (publish rs 0 router_token deleted_snapshot 200) (\<lambda>_. publish rs 0 router_token first_snapshot 409)"

definition case_delivery :: "'w routers \<Rightarrow> router_view \<Rightarrow> ('w, unit) action" where
  "case_delivery rs before =
     act_then (current rs 0) (\<lambda>after.
     lift_result (guard (ov_reconciled (owner_of after ''worker-1'') = ov_reconciled (owner_of before ''worker-1'')) ''source freshness changed on delivery''))"

definition case_restart :: "'w routers \<Rightarrow> router_view \<Rightarrow> ('w, unit) action" where
  "case_restart rs before =
     act_then (stop_router rs 0) (\<lambda>_.
     act_then (start_router rs 0) (\<lambda>_.
     act_then (current rs 0) (\<lambda>v.
     let owner = owner_of v ''worker-1'' in
     lift_result (guard (ov_stale owner \<and> rec_deleted (record_of (ov_snapshot owner) ''one'')
       \<and> ov_reconciled owner = ov_reconciled (owner_of before ''worker-1'')) ''restart lost deletion or source freshness''))))"

text \<open>\<^verbatim>\<open>fmt.Sprintf("instance-%04d", i)\<close>\<close>

definition instance_id :: "nat \<Rightarrow> string" where
  "instance_id i = ''instance-'' @ replicate (4 - length (itoa i)) CHR ''0'' @ itoa i"

definition large_records :: "(string, routeRecord) go_map" where
  "large_records = fold (\<lambda>i m. gm_put (instance_id i) (fixture_record (instance_id i) (''127.0.0.1:'' @ itoa (20000 + i)) 3 False) m)
     [1..<4096] [(''one'', record_of deleted_snapshot ''one'')]"

definition large_snapshot :: routeSnapshot where
  "large_snapshot = fixture_snapshot 3 large_records"

definition excess_snapshot :: routeSnapshot where
  "excess_snapshot = fixture_snapshot 4 (gm_put ''excess'' (fixture_record ''excess'' ''127.0.0.1:30000'' 4 False) large_records)"

definition retired_snapshot :: routeSnapshot where
  "retired_snapshot = fixture_snapshot 4 (let r = record_of large_snapshot (instance_id 1) in gm_put (rec_id r) (r\<lparr>rec_revision := 4, rec_deleted := True\<rparr>)
     (gm_del ''excess'' (snap_records excess_snapshot)))"

definition case_capacity :: "'w routers \<Rightarrow> ('w, unit) action" where
  "case_capacity rs =
     act_then (publish rs 0 router_token large_snapshot 200) (\<lambda>_.
     act_then (publish rs 0 router_token excess_snapshot 409) (\<lambda>_.
     act_then (publish rs 0 router_token retired_snapshot 200) (\<lambda>_.
     act_then (current rs 0) (\<lambda>v.
     let s = ov_snapshot (owner_of v ''worker-1'') in
     lift_result (guard (length (snap_records s) = 4096 \<and> rec_deleted (record_of s (instance_id 1))) ''capacity deletion missing'')))))"

text \<open>The evidence directory, its run, the path of the binary, an address and the configuration file: calls that can fail.\<close>

definition run_setup :: "('w, unit) action" where
  "run_setup = fold_act (\<lambda>i _. read_world (\<lambda>_. Inr ())) [0..<5] ()"

definition run_checks :: "'w routers \<Rightarrow> ('w, observation list) action" where
  "run_checks rs =
     act_then run_setup (\<lambda>_.
     act_then (start_router rs 0) (\<lambda>_.
     act_then (check ''authenticated-publication'' (publish rs 0 router_token first_snapshot 200) []) (\<lambda>obs.
     act_then (check ''wrong-credential'' (expect_status rs ''wrong'' first_snapshot 401) obs) (\<lambda>obs.
     act_then (check ''owner-impersonation'' (expect_status rs (router_token @ ''2'') first_snapshot 401) obs) (\<lambda>obs.
     act_then (check ''unreconciled-incarnation-on-empty-node'' (expect_status rs (router_token @ ''2'') restored_snapshot 409) obs) (\<lambda>obs.
     act_then (check ''conflicting-revision-retains-active-view'' (case_conflict rs) obs) (\<lambda>obs.
     act_then (check ''deletion-rejects-stale-replay'' (case_replay rs) obs) (\<lambda>obs.
     act_then (check ''new-incarnation-cannot-resurrect-backup'' (publish rs 0 router_token (first_snapshot\<lparr>snap_incarnation := 2\<rparr>) 409) obs) (\<lambda>obs.
     act_then (check ''retired-endpoint-reserved-across-owners'' (expect_status rs (router_token @ ''2'') (first_snapshot\<lparr>snap_owner := ''worker-2''\<rparr>) 409) obs) (\<lambda>obs.
     act_then (current rs 0) (\<lambda>before.
     act_then (check ''delivery-does-not-refresh-source'' (case_delivery rs before) obs) (\<lambda>obs.
     act_then (check ''process-restart-retains-deletion-and-marks-stale'' (case_restart rs before) obs) (\<lambda>obs.
     act_then (check ''record-capacity-preserves-deletion'' (case_capacity rs) obs) (\<lambda>obs.
     act_then (stop_router rs 0) (\<lambda>_.
     check ''two-node-delay-duplicate-loss-reorder-convergence'' (convergence rs router_token) obs)))))))))))))))"

definition failed_checks :: "observation list \<Rightarrow> nat" where
  "failed_checks obs = length (filter (\<lambda>o1. \<not> is_ok (obs_result o1)) obs)"

text \<open>The run, its results written, and its exit status; the router is stopped when the run ends early.\<close>

definition routing_check :: "'w routers \<Rightarrow> ('w, unit) action" where
  "routing_check rs =
     act_then (try_act (run_checks rs)) (\<lambda>r.
     case r of Inl e \<Rightarrow> act_then (stop_router rs 0) (\<lambda>_. lift_result (Inl e))
     | Inr obs \<Rightarrow>
       act_then (read_world (\<lambda>_. Inr ())) (\<lambda>_.
       lift_result (guard (failed_checks obs = 0) (itoa (failed_checks obs) @ '' checks failed''))))"

end
