(* ===== verification/Router_Converge.thy ===== *)
theory Router_Converge
  imports Router_Service Registry_Props
begin

section \<open>Routers converge on the newest snapshot\<close>

text \<open>
  When a router accepts a snapshot, and what follows for the snapshots of one history: in whatever order, how
  often and with whatever faults they are delivered, the one a router holds only moves forward in the history.
\<close>

subsection \<open>When a snapshot is accepted\<close>

definition admissible :: "router_policy \<Rightarrow> routeSnapshot \<Rightarrow> bool" where
  "admissible policy s \<longleftrightarrow> snap_schema s = 1 \<and> router_name (snap_owner s) \<and> snap_incarnation s \<noteq> 0 \<and> snap_revision s \<noteq> 0
     \<and> length (snap_records s) \<le> pol_record_limit policy \<and> gm_ok (snap_records s)
     \<and> list_all (\<lambda>(k, r). canonical_endpoint (rec_endpoint r) \<and> valid_record policy (snap_revision s) k r) (snap_records s)
     \<and> distinct (map (\<lambda>(k, r). rec_endpoint r) (snap_records s))"

text \<open>No endpoint of the snapshot is reserved for anything else.\<close>

definition unreserved :: "router_state \<Rightarrow> routeSnapshot \<Rightarrow> bool" where
  "unreserved st s \<longleftrightarrow> list_all (\<lambda>(k, r). list_all (\<lambda>(e, owner, i). e = rec_endpoint r \<longrightarrow> owner = snap_owner s \<and> i = rec_id r) (reservations st))
     (snap_records s)"

lemma reservation_ok:
  assumes "list_all (\<lambda>(e, owner, i). e = x \<longrightarrow> owner = o1 \<and> i = i1) res"
  shows "\<not> (case map_of (rev res) x of None \<Rightarrow> False | Some (owner, i) \<Rightarrow> owner \<noteq> o1 \<or> i \<noteq> i1)"
proof (cases "map_of (rev res) x")
  case (Some y)
  then have "(x, y) \<in> set res" by (auto dest: map_of_SomeD)
  with assms Some show ?thesis by (auto simp: list_all_iff)
qed simp

lemma record_checks_ok:
  assumes "list_all (\<lambda>(k, r). canonical_endpoint (rec_endpoint r) \<and> valid_record policy (snap_revision s) k r) xs"
    and "list_all (\<lambda>(k, r). list_all (\<lambda>(e, owner, i). e = rec_endpoint r \<longrightarrow> owner = snap_owner s \<and> i = rec_id r) (reservations st)) xs"
    and "distinct (rev seen @ map (\<lambda>(k, r). rec_endpoint r) xs)"
  shows "\<exists>seen'. fold_result (record_check policy st s) xs seen = Inr seen'"
  using assms
proof (induction xs arbitrary: seen)
  case (Cons x xs)
  obtain k r where x: "x = (k, r)" by (cases x)
  with Cons.prems have "record_check policy st s x seen = Inr (rec_endpoint r # seen)"
    using reservation_ok [of "rec_endpoint r" "snap_owner s" "rec_id r" "reservations st"] by (auto simp: record_check_def)
  moreover have "\<exists>seen'. fold_result (record_check policy st s) xs (rec_endpoint r # seen) = Inr seen'"
    by (rule Cons.IH) (use Cons.prems x in auto)
  ultimately show ?case by simp
qed simp

text \<open>The state after the snapshot.\<close>

definition holding :: "routeSnapshot \<Rightarrow> u64 \<Rightarrow> router_state \<Rightarrow> router_state" where
  "holding s now st = st\<lparr>rt_generation := rt_generation st + 1,
     rt_owners := gm_put (snap_owner s)
       \<lparr>own_snapshot = s, own_reconciled = now, own_stale = False, own_frozen_by = None,
        own_credential = Option.bind (gm_get (rt_owners st) (snap_owner s)) own_credential,
        own_recovery = Option.bind (gm_get (rt_owners st) (snap_owner s)) own_recovery\<rparr> (rt_owners st)\<rparr>"

lemma router_accept_works:
  assumes "admissible policy s" "unreserved st s" "rt_generation st \<noteq> max_u64"
    and "case gm_get (rt_owners st) (snap_owner s) of None \<Rightarrow> True | Some e \<Rightarrow> own_frozen_by e = None \<and> history_extends (own_snapshot e) s"
    and "json_bytes (reserve_state (holding s now st)) \<le> pol_view_limit policy"
  shows "router_accept json_bytes st (snap_owner s) s policy now = Inr (holding s now st)"
proof -
  obtain seen where seen: "fold_result (record_check policy st s) (snap_records s) [] = Inr seen"
    using record_checks_ok [of policy s "snap_records s" st "[]"] assms(1,2) by (auto simp: admissible_def unreserved_def)
  have history: "(case gm_get (rt_owners st) (snap_owner s) of None \<Rightarrow> Inr () | Some p \<Rightarrow> history_check p s) = Inr ()"
    using assms(4) by (auto simp: history_check_iff split: option.splits)
  show ?thesis
    using assms(1,3,5) by (simp add: router_accept_def Let_def seen history admissible_def holding_def not_less)
qed

text \<open>An older snapshot of the history is refused.\<close>

lemma router_accept_regressed:
  assumes "gm_get (rt_owners st) (snap_owner s) = Some e" "history_extends s (own_snapshot e)" "s \<noteq> own_snapshot e"
  shows "\<exists>msg. router_accept json_bytes st (snap_owner s) s policy now = Inl msg"
proof -
  have "snap_revision s < snap_revision (own_snapshot e)"
    using assms(2,3) by (auto simp: history_extends_def order.order_iff_strict)
  then have "history_check e s \<noteq> Inr ()"
    by (auto simp: history_check_iff history_extends_def)
  then obtain msg where "history_check e s = Inl msg" by (cases "history_check e s") auto
  with assms(1) show ?thesis by (auto simp: router_accept_def Let_def)
qed

subsection \<open>A history and a node that is fed from it\<close>

text \<open>The snapshots of a history are pairwise in order, of one owner in its first incarnation.\<close>

definition history_of :: "string \<Rightarrow> router_policy \<Rightarrow> routeSnapshot list \<Rightarrow> bool" where
  "history_of owner policy hist \<longleftrightarrow>
     list_all (\<lambda>s. snap_owner s = owner \<and> snap_incarnation s = 1 \<and> admissible policy s
       \<and> list_all (\<lambda>s'. history_extends s s' \<or> history_extends s' s) hist) hist"

definition newest :: "routeSnapshot list \<Rightarrow> routeSnapshot \<Rightarrow> bool" where
  "newest hist s \<longleftrightarrow> s \<in> set hist \<and> list_all (\<lambda>s'. history_extends s' s) hist"

text \<open>The other owners, with their endpoints and the room they leave.\<close>

definition others :: "string \<Rightarrow> router_state \<Rightarrow> (string, owner_entry) go_map" where
  "others owner st = gm_del owner (rt_owners st)"

definition room_for :: "(router_state \<Rightarrow> nat) \<Rightarrow> string \<Rightarrow> (string, owner_entry) go_map \<Rightarrow> routeSnapshot \<Rightarrow> bool" where
  "room_for json_bytes owner rest s \<longleftrightarrow>
     unreserved \<lparr>rt_generation = 0, rt_owners = rest\<rparr> s
     \<and> json_bytes (reserve_state \<lparr>rt_generation = 0, rt_owners = gm_put owner
         \<lparr>own_snapshot = s, own_reconciled = 0, own_stale = False, own_frozen_by = None, own_credential = None, own_recovery = None\<rparr> rest\<rparr>) \<le> view_limit"

text \<open>A node that the owner can publish to: what it holds of the owner, if anything, is of the history.\<close>

definition node_ready :: "(string \<Rightarrow> string) \<Rightarrow> (router_state \<Rightarrow> nat) \<Rightarrow> string \<Rightarrow> string \<Rightarrow> routeSnapshot list \<Rightarrow> nat \<Rightarrow> routing_node \<Rightarrow> bool" where
  "node_ready sha json_bytes owner token hist n v \<longleftrightarrow>
     (case gm_get (rn_owners v) owner of None \<Rightarrow> False
      | Some i \<Rightarrow> hex_encode (sha token) = expected_hash sha owner i v \<and> history_of owner (policy_of i) hist)
     \<and> gm_ok (rt_owners (rn_active v)) \<and> unat (rt_generation (rn_active v)) + n < 2 ^ 64
     \<and> list_all (room_for json_bytes owner (others owner (rn_active v))) hist
     \<and> (case gm_get (rt_owners (rn_active v)) owner of None \<Rightarrow> True
        | Some e \<Rightarrow> own_frozen_by e = None \<and> own_snapshot e \<in> set hist)"

definition held :: "string \<Rightarrow> routing_node \<Rightarrow> routeSnapshot option" where
  "held owner v = map_option own_snapshot (gm_get (rt_owners (rn_active v)) owner)"

subsection \<open>One publication\<close>

lemma read_keeps: "read_world f (v, os) = (r, (v', os')) \<Longrightarrow> v' = v"
  unfolding read_world_def by (cases "(\<lambda>w. (f w, w), (v, os))" rule: perform.cases) auto

lemma write_outcome: "write_world g (v, os) = (r, (v', os')) \<Longrightarrow> (v' = v \<and> r \<noteq> Inr ()) \<or> v' = g v"
  unfolding write_world_def by (cases "(\<lambda>w. (Inr () :: unit result, g w), (v, os))" rule: perform.cases) auto

lemma save_outcome:
  assumes "save_state c (v, os) = (r, (v', os'))"
  shows "(v' = v \<and> r \<noteq> Inr ()) \<or> v' = v\<lparr>rn_disk := Some c\<rparr>"
  using assms unfolding save_state_def
  by (auto simp: act_then_def split: prod.splits sum.splits dest!: read_keeps write_outcome)

lemma save_clean: "save_state c (v, []) = (Inr (), (v\<lparr>rn_disk := Some c\<rparr>, []))"
  by (simp add: save_state_def act_then_def)

lemma act_look: "act_then (look f) k (v, os) = k (f v) (v, os)"
  by (simp add: act_then_def look_def direct_def)

lemma candidate_outcome:
  assumes "publish_candidate c (v, os) = (r, (v', os'))"
  shows "(\<exists>reply. r = Inr reply) \<and> rn_owners v' = rn_owners v \<and> (rn_active v' = rn_active v \<or> rn_active v' = c)"
proof -
  obtain r1 v1 os1 where save: "save_state c (v, os) = (r1, (v1, os1))" by (metis prod.exhaust)
  from save_outcome [OF save] have "v1 = v \<or> v1 = v\<lparr>rn_disk := Some c\<rparr>" by blast
  with assms save show ?thesis
    by (cases r1) (auto simp: publish_candidate_def act_then_def try_act_def direct_def)
qed

text \<open>Whatever goes wrong, the active state is the old one or the candidate, and the candidate only with status 200.\<close>

lemma publish_outcome:
  assumes "gm_get (rn_owners v) (snap_owner s) = Some i" "hex_encode (sha token) = expected_hash sha (snap_owner s) i v"
    and "publish_handler sha json_bytes token s now (v, os) = (r, (v', os'))"
  shows "(\<exists>reply. r = Inr reply) \<and> rn_owners v' = rn_owners v \<and> (rn_active v' = rn_active v
    \<or> router_accept json_bytes (rn_active v) (snap_owner s) s (policy_of i) now = Inr (rn_active v'))"
proof -
  obtain r1 v1 os1 where lock: "read_world (\<lambda>_. Inr () :: unit result) (v, os) = (r1, (v1, os1))" by (metis prod.exhaust)
  from read_keeps [OF this] have v1: "v1 = v" .
  show ?thesis
  proof (cases r1)
    case (Inl e)
    with assms(3) lock v1 show ?thesis
      by (auto simp: publish_handler_def publish_known_def act_look assms(1,2) act_then_def [of "try_act _"] try_act_def)
  next
    case (Inr u)
    have run: "(if gm_get (rt_owners (rn_active v)) (snap_owner s) = None \<and> snap_incarnation s \<noteq> 1 then ret (refuse 409)
        else case router_accept json_bytes (rn_active v) (snap_owner s) s (policy_of i) now of
          Inl e \<Rightarrow> ret (refuse 409) | Inr c \<Rightarrow> publish_candidate c) (v, os1) = (r, (v', os'))"
      using assms(3) lock v1 Inr
      by (simp add: publish_handler_def publish_known_def act_look assms(1,2) act_then_def [of "try_act _"] try_act_def)
    then show ?thesis
      by (cases "router_accept json_bytes (rn_active v) (snap_owner s) s (policy_of i) now")
        (auto split: if_splits dest: candidate_outcome)
  qed
qed

lemma publish_clean:
  assumes "gm_get (rn_owners v) (snap_owner s) = Some i" "hex_encode (sha token) = expected_hash sha (snap_owner s) i v"
    and "snap_incarnation s = 1"
  shows "publish_handler sha json_bytes token s now (v, []) =
    (case router_accept json_bytes (rn_active v) (snap_owner s) s (policy_of i) now of
       Inl e \<Rightarrow> (Inr (refuse 409), (v, []))
     | Inr c \<Rightarrow> (Inr (answer 200 (accepted_json c)), (v\<lparr>rn_disk := Some c, rn_active := c\<rparr>, [])))"
  by (simp add: publish_handler_def publish_known_def act_look assms act_then_def [of "try_act _"] try_act_def publish_candidate_def save_clean
      act_then_def [of "direct _"] direct_def split: sum.split)

subsection \<open>Publishing from a history\<close>

lemma map_gm_put: "map (\<lambda>(k, e). (k, f e)) (gm_put k v m) = gm_put k (f v) (map (\<lambda>(k, e). (k, f e)) m)"
  by (induction m) (auto split: prod.splits)

lemma put_others: "gm_ok (rt_owners st) \<Longrightarrow> gm_put owner e (others owner st) = gm_put owner e (rt_owners st)"
  unfolding others_def by (rule gm.ext) (auto simp: gm.get_put gm.get_del)

lemma others_put: "gm_ok m \<Longrightarrow> gm_del owner (gm_put owner e m) = gm_del owner m"
  by (rule gm.ext) (auto simp: gm.get_put gm.get_del)

lemma reserve_holding:
  assumes "gm_ok (rt_owners st)"
  shows "reserve_state (holding s now st) = reserve_state \<lparr>rt_generation = 0, rt_owners = gm_put (snap_owner s)
     \<lparr>own_snapshot = s, own_reconciled = 0, own_stale = False, own_frozen_by = None, own_credential = None, own_recovery = None\<rparr>
     (others (snap_owner s) st)\<rparr>"
  by (simp add: reserve_state_def holding_def put_others [OF assms] map_gm_put reserve_owner_def)

lemma reservation_cases:
  assumes "(x, ow, i) \<in> set (reservations st)" "gm_ok (rt_owners st)"
  shows "(\<exists>e k r. gm_get (rt_owners st) owner = Some e \<and> (k, r) \<in> set (snap_records (own_snapshot e)) \<and> ow = owner \<and> x = rec_endpoint r \<and> i = rec_id r)
    \<or> (x, ow, i) \<in> set (reservations \<lparr>rt_generation = 0, rt_owners = others owner st\<rparr>)"
proof -
  from assms(1) obtain e k r where e: "(ow, e) \<in> set (rt_owners st)" "(k, r) \<in> set (snap_records (own_snapshot e))" "x = rec_endpoint r" "i = rec_id r"
    by (auto simp: reservations_def)
  show ?thesis
  proof (cases "ow = owner")
    case True
    with e assms(2) show ?thesis by (auto simp: gm_in_set_iff)
  next
    case False
    with e have "(ow, e) \<in> set (others owner st)" by (simp add: others_def gm_del_def)
    with e show ?thesis by (force simp: reservations_def)
  qed
qed

lemma endpoint_record:
  assumes "distinct (map (\<lambda>(k, r). rec_endpoint r) m)" "(k, r) \<in> set m" "(k', r') \<in> set m" "rec_endpoint r = rec_endpoint r'"
  shows "(k, r) = (k', r')"
  using assms inj_onD [of "\<lambda>(k, r). rec_endpoint r" "set m" "(k, r)" "(k', r')"] by (simp add: distinct_map)

lemma unreserved_own:
  assumes st: "gm_ok (rt_owners st)" and rest: "unreserved \<lparr>rt_generation = 0, rt_owners = others (snap_owner s) st\<rparr> s"
    and s: "admissible policy s"
    and own: "case gm_get (rt_owners st) (snap_owner s) of None \<Rightarrow> True | Some e \<Rightarrow> history_extends (own_snapshot e) s"
  shows "unreserved st s"
  unfolding unreserved_def
proof (clarsimp simp: list_all_iff)
  fix k r ow i
  assume r: "(k, r) \<in> set (snap_records s)" and res: "(rec_endpoint r, ow, i) \<in> set (reservations st)"
  from reservation_cases [OF res st, of "snap_owner s"] show "ow = snap_owner s \<and> i = rec_id r"
  proof (elim disjE exE conjE)
    fix e k' r'
    assume e: "gm_get (rt_owners st) (snap_owner s) = Some e" and r': "(k', r') \<in> set (snap_records (own_snapshot e))"
      and same: "ow = snap_owner s" "rec_endpoint r = rec_endpoint r'" "i = rec_id r'"
    from own e have "records_extend (snap_records (own_snapshot e)) (snap_records s)" by (simp add: history_extends_def)
    with r' obtain new where new: "gm_get (snap_records s) k' = Some new" "record_extends r' new"
      by (auto simp: records_extend_def split: option.splits)
    then have "(k', new) \<in> set (snap_records s)" by (auto dest: map_of_SomeD)
    with r new(2) s same(2) have "(k, r) = (k', new)"
      by (intro endpoint_record [of "snap_records s"]) (auto simp: admissible_def record_extends_def)
    with same new(2) show ?thesis by (simp add: record_extends_def)
  next
    assume "(rec_endpoint r, ow, i) \<in> set (reservations \<lparr>rt_generation = 0, rt_owners = others (snap_owner s) st\<rparr>)"
    with rest r show ?thesis by (auto simp: unreserved_def list_all_iff)
  qed
qed

lemma generation_not_max: "unat (g :: u64) + Suc n < 2 ^ 64 \<Longrightarrow> g \<noteq> max_u64 \<and> unat (g + 1) = Suc (unat g)"
  by (auto simp: unat_word_ariths unsigned_eq_0_iff)

text \<open>A ready node that is sent a snapshot of the history accepts it exactly when it is not behind what it holds.\<close>

lemma ready_accepts:
  assumes ready: "node_ready sha json_bytes owner token hist (Suc n) v" and s: "s \<in> set hist"
    and i: "gm_get (rn_owners v) owner = Some i"
    and forward: "case held owner v of None \<Rightarrow> True | Some h \<Rightarrow> history_extends h s"
  shows "router_accept json_bytes (rn_active v) owner s (policy_of i) now = Inr (holding s now (rn_active v))"
proof -
  let ?st = "rn_active v"
  from ready i s have adm: "admissible (policy_of i) s" and owner: "snap_owner s = owner" and ok: "gm_ok (rt_owners ?st)"
    and room: "room_for json_bytes owner (others owner ?st) s" and gen: "unat (rt_generation ?st) + Suc n < 2 ^ 64"
    by (auto simp: node_ready_def history_of_def list_all_iff)
  have own: "case gm_get (rt_owners ?st) owner of None \<Rightarrow> True | Some e \<Rightarrow> own_frozen_by e = None \<and> history_extends (own_snapshot e) s"
    using ready forward by (auto simp: node_ready_def held_def split: option.splits)
  have "unreserved ?st s"
    by (rule unreserved_own [OF ok _ adm]) (use room own owner in \<open>auto simp: room_for_def split: option.splits\<close>)
  moreover have "json_bytes (reserve_state (holding s now ?st)) \<le> pol_view_limit (policy_of i)"
    using room owner by (simp add: reserve_holding [OF ok] room_for_def policy_of_def)
  ultimately show ?thesis
    using router_accept_works [OF adm _ _ _, of ?st json_bytes now] owner own generation_not_max [OF gen] by simp
qed

lemma ready_holding:
  assumes ready: "node_ready sha json_bytes owner token hist (Suc n) v" and s: "s \<in> set hist"
    and v': "rn_owners v' = rn_owners v" "rn_active v' = holding s now (rn_active v)"
  shows "node_ready sha json_bytes owner token hist n v' \<and> held owner v' = Some s"
proof -
  from ready s have owner: "snap_owner s = owner" and ok: "gm_ok (rt_owners (rn_active v))"
    by (auto simp: node_ready_def history_of_def list_all_iff split: option.splits)
  from ready have gen: "unat (rt_generation (rn_active v)) + Suc n < 2 ^ 64" by (simp add: node_ready_def)
  have same: "others owner (holding s now (rn_active v)) = others owner (rn_active v)"
    using ok by (simp add: others_def holding_def owner others_put)
  have cred: "expected_hash sha owner i v' = expected_hash sha owner i v" for i
    by (simp add: expected_hash_def v'(2) holding_def owner gm.get_put)
  let ?e = "\<lparr>own_snapshot = s, own_reconciled = now, own_stale = False, own_frozen_by = None,
     own_credential = Option.bind (gm_get (rt_owners (rn_active v)) owner) own_credential,
     own_recovery = Option.bind (gm_get (rt_owners (rn_active v)) owner) own_recovery\<rparr>"
  have entry: "gm_get (rt_owners (holding s now (rn_active v))) owner = Some ?e" "gm_ok (rt_owners (holding s now (rn_active v)))"
    "rt_generation (holding s now (rn_active v)) = rt_generation (rn_active v) + 1"
    using ok by (simp_all add: holding_def owner gm.get_put)
  show ?thesis
    using ready s gen generation_not_max [OF gen]
    by (simp add: node_ready_def v' same cred held_def entry split: option.splits)
qed

lemma ready_weaken: "node_ready sha json_bytes owner token hist (Suc n) v \<Longrightarrow> rn_owners v' = rn_owners v \<Longrightarrow> rn_active v' = rn_active v
    \<Longrightarrow> node_ready sha json_bytes owner token hist n v'"
  by (auto simp: node_ready_def expected_hash_def split: option.splits)

lemma ready_identity:
  assumes "node_ready sha json_bytes owner token hist n v"
  obtains i where "gm_get (rn_owners v) owner = Some i" "hex_encode (sha token) = expected_hash sha owner i v" "history_of owner (policy_of i) hist"
  using assms by (auto simp: node_ready_def split: option.splits)

text \<open>Every delivery moves the node forward in the history or leaves it where it is.\<close>

definition forward :: "routeSnapshot option \<Rightarrow> routeSnapshot option \<Rightarrow> bool" where
  "forward x y \<longleftrightarrow> (case x of None \<Rightarrow> True | Some a \<Rightarrow> (case y of None \<Rightarrow> False | Some b \<Rightarrow> history_extends a b))"

lemma held_in_history:
  "node_ready sha json_bytes owner token hist n v \<Longrightarrow> held owner v = Some h \<Longrightarrow> h \<in> set hist \<and> gm_ok (snap_records h)"
  by (auto simp: node_ready_def held_def history_of_def list_all_iff admissible_def split: option.splits)

lemma deliver_forward:
  assumes ready: "node_ready sha json_bytes owner token hist (Suc n) v" and s: "s \<in> set hist"
    and run: "publish_handler sha json_bytes token s now (v, os) = (r, (v', os'))"
  shows "node_ready sha json_bytes owner token hist n v' \<and> forward (held owner v) (held owner v')"
proof -
  obtain i where i: "gm_get (rn_owners v) owner = Some i" "hex_encode (sha token) = expected_hash sha owner i v" "history_of owner (policy_of i) hist"
    using ready by (rule ready_identity)
  then have owner: "snap_owner s = owner" and chain: "\<forall>h \<in> set hist. history_extends s h \<or> history_extends h s"
    using s by (auto simp: history_of_def list_all_iff)
  from publish_outcome [of v s i sha token json_bytes now os r v' os'] i run owner
  have v': "rn_owners v' = rn_owners v"
    "rn_active v' = rn_active v \<or> router_accept json_bytes (rn_active v) owner s (policy_of i) now = Inr (rn_active v')" by simp_all
  have stay: "forward (held owner v) (held owner v)"
    using held_in_history [OF ready] by (auto simp: forward_def history_extends_refl split: option.splits)
  show ?thesis
  proof (cases "rn_active v' = rn_active v")
    case True
    then show ?thesis using ready_weaken [OF ready v'(1)] stay by (simp add: held_def)
  next
    case False
    with v'(2) have acc: "router_accept json_bytes (rn_active v) owner s (policy_of i) now = Inr (rn_active v')" by simp
    have fwd: "case held owner v of None \<Rightarrow> True | Some h \<Rightarrow> history_extends h s"
    proof (cases "held owner v")
      case (Some h)
      then obtain e where e: "gm_get (rt_owners (rn_active v)) owner = Some e" "own_snapshot e = h" by (auto simp: held_def)
      from held_in_history [OF ready Some] have h: "h \<in> set hist" "gm_ok (snap_records h)" by auto
      have "history_extends h s"
      proof (rule ccontr)
        assume no: "\<not> history_extends h s"
        with chain h have "history_extends s h" "s \<noteq> h" by (auto simp: history_extends_refl)
        with router_accept_regressed [of "rn_active v" s e json_bytes "policy_of i" now] e owner acc show False by auto
      qed
      then show ?thesis by (simp add: Some)
    qed simp
    from ready_accepts [OF ready s i(1) fwd] acc have "rn_active v' = holding s now (rn_active v)" by simp
    from ready_holding [OF ready s v'(1) this] fwd show ?thesis by (auto simp: forward_def split: option.splits)
  qed
qed

subsection \<open>Any deliveries\<close>

text \<open>Publications, each with its snapshot, its time and the outcomes of its external calls.\<close>

type_synonym delivery = "(routeSnapshot \<times> u64) \<times> outcome list"

definition deliver_all :: "(string \<Rightarrow> string) \<Rightarrow> (router_state \<Rightarrow> nat) \<Rightarrow> string \<Rightarrow> delivery list \<Rightarrow> routing_node \<Rightarrow> routing_node" where
  "deliver_all sha json_bytes token = run_attempts (\<lambda>(s, now). publish_handler sha json_bytes token s now)"

definition delivers :: "routeSnapshot list \<Rightarrow> delivery list \<Rightarrow> bool" where
  "delivers hist ds \<longleftrightarrow> list_all (\<lambda>((s, now), os). s \<in> set hist) ds"

lemma deliver_simps [simp]:
  "deliver_all sha json_bytes token [] v = v"
  "deliver_all sha json_bytes token (((s, now), os) # ds) v =
     deliver_all sha json_bytes token ds (fst (snd (publish_handler sha json_bytes token s now (v, os))))"
  by (simp_all add: deliver_all_def)

lemma deliver_append: "deliver_all sha json_bytes token (ds @ ds') v = deliver_all sha json_bytes token ds' (deliver_all sha json_bytes token ds v)"
  by (induction ds arbitrary: v) auto

lemma forward_trans:
  "forward x y \<Longrightarrow> forward y z \<Longrightarrow> (case x of None \<Rightarrow> True | Some a \<Rightarrow> gm_ok (snap_records a)) \<Longrightarrow> forward x z"
  by (auto simp: forward_def split: option.splits intro: history_extends_trans)

lemma deliveries_forward:
  "node_ready sha json_bytes owner token hist (length ds + n) v \<Longrightarrow> delivers hist ds \<Longrightarrow>
    node_ready sha json_bytes owner token hist n (deliver_all sha json_bytes token ds v)
    \<and> forward (held owner v) (held owner (deliver_all sha json_bytes token ds v))"
proof (induction ds arbitrary: v)
  case Nil
  have "forward (held owner v) (held owner v)"
    using held_in_history [of sha json_bytes owner token hist n v] Nil by (auto simp: forward_def history_extends_refl split: option.splits)
  with Nil show ?case by simp
next
  case (Cons d ds)
  obtain s now os where d: "d = ((s, now), os)" by (metis prod.exhaust)
  obtain r v' os' where run: "publish_handler sha json_bytes token s now (v, os) = (r, (v', os'))" by (metis prod.exhaust)
  have ready: "node_ready sha json_bytes owner token hist (Suc (length ds + n)) v" and s: "s \<in> set hist" and ds: "delivers hist ds"
    using Cons.prems d by (auto simp: delivers_def)
  note step = deliver_forward [OF ready s run]
  from Cons.IH [OF conjunct1 [OF step] ds] step held_in_history [OF ready]
  show ?case by (auto simp: d run intro: forward_trans split: option.splits)
qed

lemma newest_is_last: "newest hist s \<Longrightarrow> s' \<in> set hist \<Longrightarrow> history_extends s s' \<Longrightarrow> s' = s"
  by (auto simp: newest_def list_all_iff history_extends_def)

lemma converge_newest:
  assumes new: "newest hist s" and ready: "node_ready sha json_bytes owner token hist (Suc (length before + length after)) v"
    and ds: "delivers hist before" "delivers hist after"
  shows "held owner (deliver_all sha json_bytes token (before @ [((s, now), [])] @ after) v) = Some s"
proof -
  let ?v1 = "deliver_all sha json_bytes token before v"
  from new have s: "s \<in> set hist" by (simp add: newest_def)
  have "node_ready sha json_bytes owner token hist (length before + Suc (length after)) v" using ready by simp
  from deliveries_forward [OF this ds(1)] have ready1: "node_ready sha json_bytes owner token hist (Suc (length after)) ?v1" by simp
  then obtain i where i: "gm_get (rn_owners ?v1) owner = Some i" "hex_encode (sha token) = expected_hash sha owner i ?v1" "history_of owner (policy_of i) hist"
    by (rule ready_identity)
  then have owner: "snap_owner s = owner" "snap_incarnation s = 1" using s by (auto simp: history_of_def list_all_iff)
  have fwd: "case held owner ?v1 of None \<Rightarrow> True | Some h \<Rightarrow> history_extends h s"
    using held_in_history [OF ready1] new by (auto simp: newest_def list_all_iff split: option.splits)
  note acc = ready_accepts [OF ready1 s i(1) fwd, of now]
  let ?v2 = "fst (snd (publish_handler sha json_bytes token s now (?v1, [])))"
  have v2: "rn_owners ?v2 = rn_owners ?v1" "rn_active ?v2 = holding s now (rn_active ?v1)"
    using publish_clean [of ?v1 s i sha token json_bytes now] i owner acc by simp_all
  from ready_holding [OF ready1 s v2] have ready2: "node_ready sha json_bytes owner token hist (length after + 0) ?v2" "held owner ?v2 = Some s"
    by simp_all
  from deliveries_forward [OF ready2(1) ds(2)] ready2(2)
  obtain b where b: "held owner (deliver_all sha json_bytes token after ?v2) = Some b" "history_extends s b"
    "node_ready sha json_bytes owner token hist 0 (deliver_all sha json_bytes token after ?v2)"
    by (auto simp: forward_def split: option.splits)
  with newest_is_last [OF new] held_in_history [OF b(3,1)] show ?thesis by (simp add: deliver_append)
qed

subsection \<open>The history of the registry\<close>

text \<open>The snapshots a worker can have published in the course of some registrations.\<close>

definition worker_snapshot :: "routing_db \<Rightarrow> routeSnapshot" where
  "worker_snapshot db = (case daemon_snapshot no_faults db of Inl _ \<Rightarrow> zero_snapshot | Inr s \<Rightarrow> s)"

definition published_history :: "(string \<Rightarrow> string) \<Rightarrow> string \<Rightarrow> (sql_faults \<times> registration) list \<Rightarrow> routeSnapshot list" where
  "published_history sha owner calls = map (\<lambda>n. worker_snapshot (registry_after sha owner (take n calls))) [0..<Suc (length calls)]"

lemma run_calls_append: "run_calls f (xs @ ys) db = run_calls f ys (run_calls f xs db)"
  by (induction xs arbitrary: db) (auto split: prod.splits)

lemma published_in_order:
  assumes "m \<le> n" "n \<le> length calls"
  shows "history_extends (worker_snapshot (registry_after sha owner (take m calls))) (worker_snapshot (registry_after sha owner (take n calls)))"
proof -
  have "take n calls = take m calls @ take (n - m) (drop m calls)"
    using assms by (metis le_add_diff_inverse take_add)
  with registry_after_extends [where sha = sha and owner = owner and calls = "take m calls" and later = "take (n - m) (drop m calls)"]
  show ?thesis by (auto simp: db_extends_def worker_snapshot_def run_calls_append split: sum.splits)
qed

lemma published_member: "s \<in> set (published_history sha owner calls) \<longleftrightarrow>
    (\<exists>n \<le> length calls. s = worker_snapshot (registry_after sha owner (take n calls)))"
  unfolding published_history_def set_map set_upt image_iff by (simp only: atLeast0LessThan lessThan_iff less_Suc_eq_le Bex_def conj_commute)

lemma published_newest: "newest (published_history sha owner calls) (worker_snapshot (registry_after sha owner calls))"
proof -
  have le: "history_extends (worker_snapshot (registry_after sha owner (take n calls))) (worker_snapshot (registry_after sha owner calls))"
    if "n \<le> length calls" for n
    using published_in_order [OF that order.refl, of sha owner] by simp
  have "worker_snapshot (registry_after sha owner calls) \<in> set (published_history sha owner calls)"
    unfolding published_member by (rule exI [of _ "length calls"]) simp
  moreover have "\<forall>s \<in> set (published_history sha owner calls). history_extends s (worker_snapshot (registry_after sha owner calls))"
  proof
    fix s
    assume "s \<in> set (published_history sha owner calls)"
    then obtain n where n: "n \<le> length calls" "s = worker_snapshot (registry_after sha owner (take n calls))"
      by (auto simp only: published_member)
    from le [OF n(1)] show "history_extends s (worker_snapshot (registry_after sha owner calls))" by (simp only: n(2))
  qed
  ultimately show ?thesis by (simp add: newest_def list_all_iff)
qed

lemma published_chain: "s \<in> set (published_history sha owner calls) \<Longrightarrow> s' \<in> set (published_history sha owner calls)
    \<Longrightarrow> history_extends s s' \<or> history_extends s' s"
proof -
  assume "s \<in> set (published_history sha owner calls)" "s' \<in> set (published_history sha owner calls)"
  then obtain m n where m: "m \<le> length calls" "s = worker_snapshot (registry_after sha owner (take m calls))"
    and n: "n \<le> length calls" "s' = worker_snapshot (registry_after sha owner (take n calls))"
    by (auto simp only: published_member)
  show ?thesis
  proof (cases "m \<le> n")
    case True
    from published_in_order [OF this n(1), of sha owner] show ?thesis by (simp only: m n simp_thms)
  next
    case False
    then have "n \<le> m" by simp
    from published_in_order [OF this m(1), of sha owner] show ?thesis by (simp only: m n simp_thms)
  qed
qed

subsection \<open>Property\<close>

text \<open>C4. Routers converge on what the worker published last. Let a registry run through any requests with any SQL
  faults, and let its snapshots reach a router in any order, with losses, repetitions, a busy writer and failing
  writes of the state file. One delivery of the newest snapshot without a fault makes the router hold exactly this
  snapshot, and it still does after whatever deliveries follow.\<close>

theorem routers_converge:
  assumes "node_ready sha json_bytes owner token (published_history sha owner calls) (Suc (length before + length after)) v"
    and "delivers (published_history sha owner calls) before" "delivers (published_history sha owner calls) after"
  shows "held owner (deliver_all sha json_bytes token
      (before @ [((worker_snapshot (registry_after sha owner calls), now), [])] @ after) v)
    = Some (worker_snapshot (registry_after sha owner calls))"
  by (rule converge_newest [OF published_newest assms])

definition sample_calls :: "(sql_faults \<times> registration) list" where
  "sample_calls = [(no_faults, sample_request False)]"

definition sample_node :: routing_node where
  "sample_node = \<lparr>rn_owners = [(''worker-1'', \<lparr>idn_token = ''t'', idn_applications = [''echo'']\<rparr>)], rn_active = empty_state, rn_disk = None\<rparr>"

text \<open>The newest snapshot arrives between two deliveries of the first, one of which finds the writer busy.\<close>

definition sample_older :: routeSnapshot where
  "sample_older = initial_snapshot ''worker-1''"

definition sample_newer :: routeSnapshot where
  "sample_newer = register_apply sample_older (sample_request False)"

lemma sample_published: "published_history (\<lambda>s. s) ''worker-1'' sample_calls = [sample_older, sample_newer]"
  by (simp add: published_history_def worker_snapshot_def sample_calls_def sample_older_def sample_newer_def register_eval)

lemma sample_ready: "node_ready (\<lambda>s. s) (\<lambda>_. 900) ''worker-1'' ''t'' (published_history (\<lambda>s. s) ''worker-1'' sample_calls) 3 sample_node"
  unfolding sample_published by code_simp

lemma sample_delivers: "delivers (published_history (\<lambda>s. s) ''worker-1'' sample_calls) [((sample_older, n), os)]"
  by (simp add: sample_published delivers_def)

theorem routers_converge_witness:
  "held ''worker-1'' (deliver_all (\<lambda>s. s) (\<lambda>_. 900) ''t'' ([((sample_older, 1), [Refused ''busy''])]
      @ [((worker_snapshot (registry_after (\<lambda>s. s) ''worker-1'' sample_calls), 2), [])] @ [((sample_older, 3), [])]) sample_node)
    = Some (worker_snapshot (registry_after (\<lambda>s. s) ''worker-1'' sample_calls))"
  by (rule routers_converge) (use sample_ready sample_delivers in \<open>simp_all add: numeral_3_eq_3\<close>)

end
