(* ===== verification/Json_Size.thy ===== *)
theory Json_Size
  imports Router_Service
begin

section \<open>The size of a router's JSON\<close>

text \<open>
  How long the text of a state can get: a text grows at most sixfold in quotes, a machine word has at most twenty
  digits. One owner with 4096 records of short texts stays within the limit of a view.
\<close>

lemma length_escape: "length (escape_char c) \<le> 6"
  by (simp add: escape_char_def)

lemma length_quote: "length (quote s) \<le> 6 * length s + 2"
proof -
  have "length (concat (map escape_char s)) \<le> 6 * length s"
    by (induction s) (auto intro: add_mono length_escape simp: add_mono [OF length_escape])
  then show ?thesis by (simp add: quote_def)
qed

lemma length_itoa: "n < 10 ^ Suc k \<Longrightarrow> length (itoa n) \<le> Suc k"
proof (induction k arbitrary: n)
  case 0
  then show ?case by (simp add: itoa.simps [of n])
next
  case (Suc k)
  then have "n div 10 < 10 ^ Suc k" by (simp add: less_mult_imp_div_less)
  from Suc.IH [OF this] show ?case by (simp add: itoa.simps [of n])
qed

lemma length_word: "length (render_int (uint (w :: u64))) \<le> 20"
proof -
  have "unat w < 10 ^ Suc 19" using unsigned_less [of w, where ?'a = nat] by simp
  from length_itoa [OF this] show ?thesis by (simp add: render_int_def nat_uint_eq)
qed

lemma length_members: "length (render_members ms) \<le> (\<Sum>(k, j) \<leftarrow> ms. 6 * length k + length (render j) + 4)"
proof (induction ms)
  case (Cons m ms)
  obtain k j where m: "m = (k, j)" by (cases m)
  show ?case using Cons length_quote [of k] by (simp add: m)
qed simp

lemma length_object: "length (render (JObj ms)) \<le> (\<Sum>(k, j) \<leftarrow> ms. 6 * length k + length (render j) + 4) + 2"
  using length_members [of ms] by simp

lemma length_bool: "length (render (JBool b)) \<le> 5"
  by simp

text \<open>Records, snapshots and owners with short texts.\<close>

definition short_record :: "string \<times> routeRecord \<Rightarrow> bool" where
  "short_record kr \<longleftrightarrow> (case kr of (k, r) \<Rightarrow> length k \<le> 64 \<and> length (rec_id r) \<le> 64 \<and> length (rec_app r) \<le> 64 \<and> length (rec_endpoint r) \<le> 64)"

definition small_snapshot :: "routeSnapshot \<Rightarrow> bool" where
  "small_snapshot s \<longleftrightarrow> snap_schema s = 1 \<and> length (snap_owner s) \<le> 64 \<and> length (snap_records s) \<le> 4096 \<and> list_all short_record (snap_records s)"

definition small_entry :: "owner_entry \<Rightarrow> bool" where
  "small_entry e \<longleftrightarrow> small_snapshot (own_snapshot e)
     \<and> (case own_frozen_by e of None \<Rightarrow> True | Some x \<Rightarrow> length x \<le> 128) \<and> (case own_credential e of None \<Rightarrow> True | Some x \<Rightarrow> length x \<le> 64)
     \<and> (case own_recovery e of None \<Rightarrow> True | Some m \<Rightarrow> length (mark_operation m) \<le> 128 \<and> length (mark_digest m) \<le> 64)"

definition small_state :: "router_state \<Rightarrow> bool" where
  "small_state st \<longleftrightarrow> length (rt_owners st) \<le> 1 \<and> list_all (\<lambda>(k, e). length k \<le> 64 \<and> small_entry e) (rt_owners st)"

lemma length_text: "length s \<le> n \<Longrightarrow> length (render (JStr s)) \<le> 6 * n + 2"
  using length_quote [of s] by simp

lemma length_record: "short_record (k, r) \<Longrightarrow> length (render (marshal_record r)) \<le> 1500"
  using length_object [of "[(''id'', JStr (rec_id r)), (''app'', JStr (rec_app r)), (''endpoint'', JStr (rec_endpoint r)),
      (''revision'', JNum (uint (rec_revision r))), (''deleted'', JBool (rec_deleted r))]"]
    length_text [of "rec_id r" 64] length_text [of "rec_app r" 64] length_text [of "rec_endpoint r" 64] length_word [of "rec_revision r"]
  by (simp add: marshal_record_def short_record_def del: render.simps(6)) (simp del: render.simps(6) split: if_splits)

lemma length_records:
  "list_all short_record rs \<Longrightarrow> length (render (JObj (map (\<lambda>(k, r). (k, marshal_record r)) rs))) \<le> 1900 * length rs + 2"
proof -
  assume short: "list_all short_record rs"
  have "(\<Sum>(k, j) \<leftarrow> map (\<lambda>(k, r). (k, marshal_record r)) rs. 6 * length k + length (render j) + 4) \<le> 1900 * length rs"
    using short
  proof (induction rs)
    case (Cons kr rs)
    obtain k r where kr: "kr = (k, r)" by (cases kr)
    from Cons show ?case using length_record [of k r] by (simp add: kr short_record_def)
  qed simp
  then show ?thesis using length_object [of "map (\<lambda>(k, r). (k, marshal_record r)) rs"] by linarith
qed

lemma length_snapshot: "small_snapshot s \<Longrightarrow> length (render (marshal_snapshot s)) \<le> 1900 * 4096 + 1000"
proof -
  assume s: "small_snapshot s"
  have "length (itoa 1) = 1" by code_simp
  then have one: "length (render (JNum (snap_schema s))) = 1" using s by (simp add: small_snapshot_def render_int_def)
  have recs: "length (render (JObj (map (\<lambda>(k, r). (k, marshal_record r)) (snap_records s)))) \<le> 1900 * 4096 + 2"
    using length_records [of "snap_records s"] s by (simp add: small_snapshot_def del: render.simps(6))
  show ?thesis
    using length_object [of "[(''schema'', JNum (snap_schema s)), (''owner'', JStr (snap_owner s)),
      (''incarnation'', JNum (uint (snap_incarnation s))), (''revision'', JNum (uint (snap_revision s))),
      (''records'', JObj (map (\<lambda>(k, r). (k, marshal_record r)) (snap_records s)))]"]
      one recs length_text [of "snap_owner s" 64] length_word [of "snap_incarnation s"] length_word [of "snap_revision s"] s
    by (simp add: marshal_snapshot_def small_snapshot_def del: render.simps(6))
qed

lemma length_pointer: "(\<And>x. v = Some x \<Longrightarrow> length (render (f x)) \<le> n) \<Longrightarrow> 4 \<le> n \<Longrightarrow> length (render (write_pointer f v)) \<le> n"
  by (cases v) (simp_all add: write_pointer_def)

lemma length_mark:
  assumes "length (mark_operation m) \<le> 128" "length (mark_digest m) \<le> 64"
  shows "length (render (JObj [(''operation'', JStr (mark_operation m)), (''digest'', JStr (mark_digest m))])) \<le> 1500"
  using length_object [of "[(''operation'', JStr (mark_operation m)), (''digest'', JStr (mark_digest m))]"]
    length_text [OF assms(1)] length_text [OF assms(2)] by (simp del: render.simps(6))

lemma length_owner: "small_entry e \<Longrightarrow> length (render (marshal_owner e)) \<le> 1900 * 4096 + 10000"
proof -
  assume e: "small_entry e"
  have frozen: "length (render (write_pointer JStr (own_frozen_by e))) \<le> 1000"
    by (rule length_pointer) (use e length_text [of _ 128] in \<open>fastforce simp: small_entry_def\<close>, simp)
  have cred: "length (render (write_pointer JStr (own_credential e))) \<le> 1000"
    by (rule length_pointer) (use e length_text [of _ 64] in \<open>fastforce simp: small_entry_def\<close>, simp)
  have mark: "length (render (write_pointer (\<lambda>m. JObj [(''operation'', JStr (mark_operation m)), (''digest'', JStr (mark_digest m))]) (own_recovery e))) \<le> 1500"
    by (rule length_pointer) (use e in \<open>auto simp: small_entry_def simp del: render.simps intro!: length_mark\<close>)
  have snap: "length (render (marshal_snapshot (own_snapshot e))) \<le> 1900 * 4096 + 1000"
    using length_snapshot e by (simp add: small_entry_def)
  show ?thesis
    using length_object [of "[(''snapshot'', marshal_snapshot (own_snapshot e)), (''reconciled_ms'', JNum (uint (own_reconciled e))),
      (''stale'', JBool (own_stale e)), (''frozen_by'', write_pointer JStr (own_frozen_by e)),
      (''credential_hash'', write_pointer JStr (own_credential e)),
      (''recovery'', write_pointer (\<lambda>m. JObj [(''operation'', JStr (mark_operation m)), (''digest'', JStr (mark_digest m))]) (own_recovery e))]"]
      snap frozen cred mark length_word [of "own_reconciled e"] length_bool [of "own_stale e"]
    by (simp add: marshal_owner_def del: render.simps(2,6))
qed

text \<open>The limit of a view is \<open>16 MiB\<close>.\<close>

lemma length_state:
  assumes "small_state st"
  shows "length (render (marshal_state st)) \<le> view_limit"
proof -
  have "length (render (JObj (map (\<lambda>(k, e). (k, marshal_owner e)) (rt_owners st)))) \<le> 1900 * 4096 + 11000"
  proof (cases "rt_owners st")
    case (Cons ke rest)
    then obtain k e where ke: "rt_owners st = [(k, e)]" "length k \<le> 64" "small_entry e"
      using assms by (cases ke; cases rest) (auto simp: small_state_def)
    then show ?thesis using length_object [of "[(k, marshal_owner e)]"] length_owner [OF ke(3)] by (simp del: render.simps(6))
  qed simp
  then show ?thesis
    using length_object [of "[(''generation'', JNum (uint (rt_generation st))), (''owners'', JObj (map (\<lambda>(k, e). (k, marshal_owner e)) (rt_owners st)))]"]
      length_word [of "rt_generation st"]
    by (simp add: marshal_state_def view_limit_def del: render.simps(6))
qed

end
