(* ===== verification/Routing_Bench.thy ===== *)
theory Routing_Bench
  imports Routing_Check Router_Converge Json_Size
begin

section \<open>Modelled routers under the verifier\<close>

text \<open>
  Three router processes with their state files, as the verifier starts them: the interface of
  \<^verbatim>\<open>cmd/routing-check\<close> implemented by the handlers of the router. The clock is a list of readings, one per
  publication.
\<close>

record bench_process =
  bp_node :: routing_node
  bp_up :: bool

record bench =
  bn_nodes :: "bench_process list"
  bn_clock :: "u64 list"

definition bench_call :: "(string \<Rightarrow> string) \<Rightarrow> (router_state \<Rightarrow> nat) \<Rightarrow> nat \<Rightarrow> string \<Rightarrow> string \<Rightarrow> string \<Rightarrow> routeSnapshot option \<Rightarrow> (bench, router_reply) action" where
  "bench_call sha json_bytes n m path token data s = (case s of (b, os) \<Rightarrow>
     if length (bn_nodes b) \<le> n \<or> \<not> bp_up (bn_nodes b ! n) then (Inl ''connection refused'', s)
     else let v = bp_node (bn_nodes b ! n); now = (case bn_clock b of [] \<Rightarrow> 0 | t # ts \<Rightarrow> t) in
       case (if m = ''POST'' \<and> path = ''/snapshot'' then (case data of None \<Rightarrow> ret (refuse 422) (v, os) | Some x \<Rightarrow> publish_handler sha json_bytes token x now (v, os))
         else if m = ''GET'' \<and> path = ''/view'' then view_handler json_bytes (v, os)
         else if m = ''GET'' \<and> path = ''/health'' then health_handler (v, os)
         else ret (refuse 404) (v, os)) of
       (r, (v', os')) \<Rightarrow> (r, (b\<lparr>bn_nodes := (bn_nodes b)[n := (bn_nodes b ! n)\<lparr>bp_node := v'\<rparr>],
         bn_clock := (if m = ''POST'' then tl (bn_clock b) else bn_clock b)\<rparr>, os')))"

text \<open>A start fails if the router is up already or refuses its state file; a kill keeps only the file.\<close>

definition bench_start :: "(router_state \<Rightarrow> nat) \<Rightarrow> nat \<Rightarrow> (bench, unit) action" where
  "bench_start json_bytes n s = (case s of (b, os) \<Rightarrow>
     if length (bn_nodes b) \<le> n \<or> bp_up (bn_nodes b ! n) then (Inl ''cannot start'', s)
     else case router_start json_bytes (bp_node (bn_nodes b ! n), os) of
       (Inl e, (v', os')) \<Rightarrow> (Inl e, (b, os'))
     | (Inr u, (v', os')) \<Rightarrow> (Inr u, (b\<lparr>bn_nodes := (bn_nodes b)[n := \<lparr>bp_node = v', bp_up = True\<rparr>]\<rparr>, os')))"

definition bench_kill :: "nat \<Rightarrow> (bench, unit) action" where
  "bench_kill n s = (case s of (b, os) \<Rightarrow>
     if length (bn_nodes b) \<le> n then (Inl ''no process'', s)
     else (Inr (), (b\<lparr>bn_nodes := (bn_nodes b)[n := (bn_nodes b ! n)\<lparr>bp_up := False\<rparr>]\<rparr>, os)))"

definition bench_routers :: "(string \<Rightarrow> string) \<Rightarrow> (router_state \<Rightarrow> nat) \<Rightarrow> nat \<Rightarrow> bench routers" where
  "bench_routers sha json_bytes polls =
     \<lparr>rs_call = bench_call sha json_bytes, rs_start = bench_start json_bytes, rs_kill = bench_kill, rs_polls = polls\<rparr>"

text \<open>The configuration that the verifier writes, and the bench before the run.\<close>

definition bench_config :: "(string, identity) go_map" where
  "bench_config = [(''worker-1'', \<lparr>idn_token = router_token, idn_applications = [''echo'']\<rparr>),
     (''worker-2'', \<lparr>idn_token = router_token @ ''2'', idn_applications = [''echo'']\<rparr>)]"

definition fresh_node :: routing_node where
  "fresh_node = \<lparr>rn_owners = bench_config, rn_active = empty_state, rn_disk = None\<rparr>"

definition fresh_bench :: "u64 list \<Rightarrow> bench" where
  "fresh_bench clock = \<lparr>bn_nodes = replicate 3 \<lparr>bp_node = fresh_node, bp_up = False\<rparr>, bn_clock = clock\<rparr>"

end
