(* ===== verification/Routing_Check_Props.thy ===== *)
theory Routing_Check_Props
  imports Routing_Bench
begin

section \<open>The verifier passes on the modelled routers\<close>

subsection \<open>Large snapshots\<close>

lemma read_zeros: "read_digits 0 (replicate k CHR ''0'' @ s) = read_digits 0 s"
proof (induction k)
  case (Suc k)
  have "digit_value CHR ''0'' = Some 0" by code_simp
  with Suc show ?case by simp
qed simp

lemma instance_id_inj: "instance_id i = instance_id j \<longleftrightarrow> i = j"
proof
  assume "instance_id i = instance_id j"
  then have "read_digits 0 (replicate (4 - length (itoa i)) CHR ''0'' @ itoa i) = read_digits 0 (replicate (4 - length (itoa j)) CHR ''0'' @ itoa j)"
    by (simp add: instance_id_def)
  then show "i = j" by (simp add: read_zeros read_digits_itoa)
qed simp

lemma itoa_alnum: "c \<in> set (itoa n) \<Longrightarrow> is_alnum c"
  using itoa_digits [of c n] by (auto simp: digit_value_def is_alnum_def split: if_splits)

lemma instance_id_name: "i < 10000 \<Longrightarrow> router_name (instance_id i) \<and> length (instance_id i) = 13"
proof -
  assume "i < 10000"
  then have len: "length (itoa i) \<le> 4" using length_itoa [of i 3] by simp
  have "router_name ''instance-''" "is_alnum CHR ''0''" by code_simp+
  with len itoa_alnum [of _ i] show ?thesis
    by (auto simp: router_name_def instance_id_def list_all_iff)
qed

lemma local_endpoint:
  assumes "0 < p" "p < 65536"
  shows "canonical_endpoint (''127.0.0.1:'' @ itoa p) \<and> usable_endpoint (''127.0.0.1:'' @ itoa p) \<and> length (''127.0.0.1:'' @ itoa p) \<le> 15"
proof -
  have shown: "''127.0.0.1:'' @ itoa p = show_addr_port (V4 [127, 0, 0, 1], p)"
  proof -
    have "show_addr (V4 [127, 0, 0, 1]) = ''127.0.0.1''" by code_simp
    then show ?thesis by (simp add: show_addr_port_def)
  qed
  have "parse_addr_port (''127.0.0.1:'' @ itoa p) = Some (V4 [127, 0, 0, 1], p)"
    unfolding shown by (rule parse_show_ipv4_port) (use assms in \<open>auto simp: addr_ok_def\<close>)
  moreover have "\<not> is_unspecified (V4 [127, 0, 0, 1]) \<and> \<not> is_multicast (V4 [127, 0, 0, 1])" by code_simp
  ultimately show ?thesis
    using assms length_itoa [of p 4] by (simp add: canonical_endpoint_def usable_endpoint_def)
qed

text \<open>The records of the large snapshot, as entries in a list.\<close>

definition large_entries :: "nat \<Rightarrow> (string \<times> routeRecord) list" where
  "large_entries n = map (\<lambda>i. (instance_id i, fixture_record (instance_id i) (''127.0.0.1:'' @ itoa (20000 + i)) 3 False)) [1..<n]"

definition large_base :: "(string, routeRecord) go_map" where
  "large_base = [(''one'', record_of deleted_snapshot ''one'')]"

definition large_upto :: "nat \<Rightarrow> (string, routeRecord) go_map" where
  "large_upto n = fold (\<lambda>(k, x). gm_put k x) (large_entries n) large_base"

lemma large_records_upto: "large_records = large_upto 4096"
  by (simp only: large_records_def large_upto_def large_entries_def large_base_def fold_map comp_def prod.case)

lemma large_base_facts: "large_base = [(''one'', fixture_record ''one'' ''127.0.0.1:19001'' 2 True)]"
  by (simp add: large_base_def record_of_def deleted_snapshot_def fixture_snapshot_def)

lemma large_keys: "distinct (map fst (large_entries n))" "''one'' \<notin> set (map fst (large_entries n))"
proof -
  show "distinct (map fst (large_entries n))"
    by (simp add: large_entries_def comp_def distinct_map inj_on_def instance_id_inj)
  show "''one'' \<notin> set (map fst (large_entries n))" by (auto simp: large_entries_def instance_id_def)
qed

lemma large_get: "gm_get (large_upto n) = gm_get large_base ++ gm_get (large_entries n)"
  unfolding large_upto_def by (rule gm_get_fold_put [OF large_keys(1)])

lemma large_ok: "gm_ok (large_upto n)"
  unfolding large_upto_def by (rule gm_ok_fold_put) (simp add: large_base_facts gm_ok_def)

lemma large_set: "set (large_upto n) = insert (''one'', fixture_record ''one'' ''127.0.0.1:19001'' 2 True) (set (large_entries n))"
proof (rule set_eqI)
  fix kr :: "string \<times> routeRecord"
  obtain k r where kr: "kr = (k, r)" by (cases kr)
  have "kr \<in> set (large_upto n) \<longleftrightarrow> gm_get (large_upto n) k = Some r" by (simp add: kr gm_in_set_iff [OF large_ok])
  also have "\<dots> \<longleftrightarrow> kr \<in> insert (''one'', fixture_record ''one'' ''127.0.0.1:19001'' 2 True) (set (large_entries n))"
    using large_keys [of n]
    by (auto simp: large_get kr large_base_facts map_add_Some_iff map_of_eq_None_iff map_of_eq_Some_iff image_iff)
  finally show "kr \<in> set (large_upto n) \<longleftrightarrow> kr \<in> insert (''one'', fixture_record ''one'' ''127.0.0.1:19001'' 2 True) (set (large_entries n))" .
qed

lemma large_length: "0 < n \<Longrightarrow> length (large_upto n) = n"
proof -
  assume "0 < n"
  have "length (large_upto n) = card (set (large_upto n))"
    using gm_ok_distinct [OF large_ok] by (simp add: distinct_card distinct_map)
  also have "\<dots> = Suc (card (set (large_entries n)))"
    using large_keys(2) [of n] by (subst large_set) (force simp: card_insert_if)
  also have "card (set (large_entries n)) = n - 1"
    using large_keys(1) [of n] by (simp add: distinct_card distinct_map) (simp add: large_entries_def)
  finally show ?thesis using \<open>0 < n\<close> by simp
qed

lemma large_endpoints: "n \<le> 10000 \<Longrightarrow> distinct (map (\<lambda>(k, r). rec_endpoint r) (large_upto n))"
proof -
  have "inj_on (\<lambda>(k, r). rec_endpoint r) (set (large_upto n))"
  proof (rule inj_onI)
    fix x y
    have one: "''127.0.0.1:19001'' = ''127.0.0.1:'' @ itoa 19001" by code_simp
    assume "x \<in> set (large_upto n)" "y \<in> set (large_upto n)" "(case x of (k, r) \<Rightarrow> rec_endpoint r) = (case y of (k, r) \<Rightarrow> rec_endpoint r)"
    then show "x = y"
      by (auto simp: large_set large_entries_def fixture_record_def itoa_inj one simp del: append.simps)
  qed
  then show "n \<le> 10000 \<Longrightarrow> distinct (map (\<lambda>(k, r). rec_endpoint r) (large_upto n))"
    using gm_ok_distinct [OF large_ok, of n] by (simp add: distinct_map)
qed

subsection \<open>The snapshots of the verifier\<close>

definition bench_identity :: identity where
  "bench_identity = \<lparr>idn_token = router_token, idn_applications = [''echo'']\<rparr>"

definition local_record :: "u64 \<Rightarrow> string \<times> routeRecord \<Rightarrow> bool" where
  "local_record rv kr \<longleftrightarrow> kr = (''one'', fixture_record ''one'' ''127.0.0.1:19001'' 2 True)
     \<or> (\<exists>i x d. i < 4096 \<and> x \<noteq> 0 \<and> x \<le> rv \<and> kr = (instance_id i, fixture_record (instance_id i) (''127.0.0.1:'' @ itoa (20000 + i)) x d))"

definition local_records :: "u64 \<Rightarrow> (string, routeRecord) go_map \<Rightarrow> bool" where
  "local_records rv m \<longleftrightarrow> gm_ok m \<and> length m \<le> 4096 \<and> (\<forall>kr \<in> set m. local_record rv kr)"

text \<open>The JSON of one owner with at most 4096 records of short texts fits in 16 MiB, as it does in the Go rendering.\<close>

definition size_law :: "(router_state \<Rightarrow> nat) \<Rightarrow> bool" where
  "size_law json_bytes \<longleftrightarrow> (\<forall>st. small_state st \<longrightarrow> json_bytes st \<le> view_limit)"

lemma rendered_size: "size_law (\<lambda>st. length (render (marshal_state st)))"
  unfolding size_law_def using length_state by blast

lemma local_record_valid:
  assumes "local_record rv (k, r)" "2 \<le> rv"
  shows "canonical_endpoint (rec_endpoint r) \<and> valid_record (policy_of bench_identity) rv k r
    \<and> length k \<le> 64 \<and> length (rec_id r) \<le> 64 \<and> length (rec_app r) \<le> 64 \<and> length (rec_endpoint r) \<le> 64"
proof -
  have echo: "router_name ''echo''" "router_name ''one''" by code_simp+
  show ?thesis
    using assms(1) unfolding local_record_def
  proof (elim disjE exE conjE)
    assume one: "(k, r) = (''one'', fixture_record ''one'' ''127.0.0.1:19001'' 2 True)"
    have "canonical_endpoint ''127.0.0.1:19001'' \<and> usable_endpoint ''127.0.0.1:19001''" by code_simp
    with one assms(2) echo show ?thesis
      by (simp add: fixture_record_def valid_record_def policy_of_def bench_identity_def)
  next
    fix i x d
    assume "i < 4096" "x \<noteq> 0" "x \<le> rv" "(k, r) = (instance_id i, fixture_record (instance_id i) (''127.0.0.1:'' @ itoa (20000 + i)) x d)"
    with echo instance_id_name [of i] local_endpoint [of "20000 + i"] show ?thesis
      by (simp add: fixture_record_def valid_record_def policy_of_def bench_identity_def)
  qed
qed

lemma local_records_small: "local_records rv m \<Longrightarrow> 2 \<le> rv \<Longrightarrow> small_snapshot (fixture_snapshot x m)"
  using local_record_valid by (fastforce simp: local_records_def small_snapshot_def short_record_def fixture_snapshot_def list_all_iff)

lemma local_endpoints:
  assumes "local_records rv m"
  shows "distinct (map (\<lambda>(k, r). rec_endpoint r) m)"
proof -
  have one: "''127.0.0.1:19001'' = ''127.0.0.1:'' @ itoa 19001" by code_simp
  have ends: "(\<exists>i. rec_endpoint r = ''127.0.0.1:'' @ itoa (20000 + i) \<and> k = instance_id i) \<or> rec_endpoint r = ''127.0.0.1:'' @ itoa 19001 \<and> k = ''one''"
    if "(k, r) \<in> set m" for k r
  proof -
    have "local_record rv (k, r)" using that assms by (simp add: local_records_def)
    then show ?thesis
      unfolding local_record_def
    proof (elim disjE exE conjE)
      assume "(k, r) = (''one'', fixture_record ''one'' ''127.0.0.1:19001'' 2 True)"
      then have "rec_endpoint r = ''127.0.0.1:'' @ itoa 19001 \<and> k = ''one''"
        unfolding one [symmetric] by (simp add: fixture_record_def)
      then show ?thesis ..
    next
      fix i x d
      assume "(k, r) = (instance_id i, fixture_record (instance_id i) (''127.0.0.1:'' @ itoa (20000 + i)) x d)"
      then show ?thesis by (auto simp: fixture_record_def simp del: append.simps)
    qed
  qed
  have ok: "gm_ok m" using assms by (simp add: local_records_def)
  have "inj_on (\<lambda>(k, r). rec_endpoint r) (set m)"
  proof (rule inj_onI)
    fix x y :: "string \<times> routeRecord"
    obtain k r k' r' where xy: "x = (k, r)" "y = (k', r')" by (metis prod.exhaust)
    assume m: "x \<in> set m" "y \<in> set m" and "(case x of (k, r) \<Rightarrow> rec_endpoint r) = (case y of (k, r) \<Rightarrow> rec_endpoint r)"
    then have same: "rec_endpoint r = rec_endpoint r'" by (simp add: xy)
    have "k = k'"
      using ends [of k r] ends [of k' r'] m same by (auto simp: xy itoa_inj)
    then show "x = y" using m ok by (auto simp: xy gm_in_set_iff)
  qed
  then show ?thesis using gm_ok_distinct [OF ok] by (simp add: distinct_map)
qed

lemma local_records_admissible:
  assumes "local_records rv m" "2 \<le> rv"
  shows "admissible (policy_of bench_identity) (fixture_snapshot rv m)"
proof -
  have "router_name ''worker-1''" by code_simp
  moreover have "rv \<noteq> 0" using assms(2) by auto
  ultimately show ?thesis
    using assms local_endpoints [OF assms(1)] local_record_valid [OF _ assms(2)]
    by (auto simp: admissible_def fixture_snapshot_def local_records_def list_all_iff policy_of_def)
qed

lemma large_local: "local_records 3 large_records"
proof -
  have "local_record 3 kr" if "kr \<in> set (large_upto 4096)" for kr
  proof (cases "kr \<in> set (large_entries 4096)")
    case True
    then obtain i where i: "i \<in> set [1..<4096]" "kr = (instance_id i, fixture_record (instance_id i) (''127.0.0.1:'' @ itoa (20000 + i)) 3 False)"
      unfolding large_entries_def set_map by (elim imageE) (rule that)
    have "i < 4096" using i(1) by simp
    then show ?thesis
      unfolding local_record_def i(2) by (intro disjI2 exI conjI) (assumption, simp_all)
  next
    case False
    with that show ?thesis by (simp add: large_set local_record_def)
  qed
  then show ?thesis
    using large_ok [of 4096] large_length [of 4096] by (simp add: local_records_def large_records_upto)
qed

lemma excess_new: "''excess'' \<notin> fst ` set large_records"
  by (auto simp: large_records_upto large_set large_entries_def instance_id_def)

lemma large_first: "record_of large_snapshot (instance_id 1) = fixture_record (instance_id 1) (''127.0.0.1:'' @ itoa 20001) 3 False"
proof -
  have "(1 :: nat) \<in> set [1..<4096]" by simp
  then have "(instance_id 1, fixture_record (instance_id 1) (''127.0.0.1:'' @ itoa (20000 + 1)) 3 False) \<in> set large_records"
    unfolding large_records_upto large_set large_entries_def set_map by blast
  then have "gm_get large_records (instance_id 1) = Some (fixture_record (instance_id 1) (''127.0.0.1:'' @ itoa 20001) 3 False)"
    using large_local by (simp add: local_records_def gm_in_set_iff)
  then show ?thesis by (simp add: record_of_def large_snapshot_def fixture_snapshot_def)
qed

definition retired_records :: "(string, routeRecord) go_map" where
  "retired_records = gm_put (instance_id 1) (fixture_record (instance_id 1) (''127.0.0.1:'' @ itoa 20001) 4 True) large_records"

lemma retired_snapshot: "retired_snapshot = fixture_snapshot 4 retired_records"
proof -
  have none: "gm_get large_records ''excess'' = None" using excess_new by (simp add: map_of_eq_None_iff)
  then have "gm_get (gm_del ''excess'' (gm_put ''excess'' x large_records)) = gm_get large_records" for x
    using large_local by (auto simp: local_records_def gm.get_put gm.get_del fun_eq_iff)
  then have "gm_del ''excess'' (gm_put ''excess'' x large_records) = large_records" for x
    using large_local by (intro gm.ext) (simp_all add: local_records_def)
  then show ?thesis
    unfolding retired_snapshot_def retired_records_def large_first Let_def
    by (simp add: excess_snapshot_def fixture_snapshot_def fixture_record_def)
qed

lemma large_has_first: "gm_get large_records (instance_id 1) \<noteq> None"
proof
  assume "gm_get large_records (instance_id 1) = None"
  then have "record_of large_snapshot (instance_id 1) = zero_record" by (simp add: record_of_def large_snapshot_def fixture_snapshot_def)
  with large_first show False by (simp add: fixture_record_def zero_record_def)
qed

lemma local_mono: "local_record rv kr \<Longrightarrow> rv \<le> rv' \<Longrightarrow> local_record rv' kr"
  unfolding local_record_def by (blast intro: order.trans)

lemma retired_local: "local_records 4 retired_records"
proof -
  have new: "local_record 4 (instance_id 1, fixture_record (instance_id 1) (''127.0.0.1:'' @ itoa 20001) 4 True)"
    unfolding local_record_def by (intro disjI2 exI [of _ 1] exI [of _ "4 :: u64"] exI [of _ True]) simp
  have old: "local_record 4 kr" if "kr \<in> set large_records" for kr
    using that large_local local_mono [of 3 kr 4] by (simp add: local_records_def)
  have "length retired_records = length large_records"
    using large_local large_has_first by (simp add: retired_records_def gm.size_put local_records_def)
  then show ?thesis
    using large_local new old by (auto simp: local_records_def retired_records_def gm_put_set)
qed

subsection \<open>A router with one owner\<close>

definition worker_entry :: "routeSnapshot \<Rightarrow> u64 \<Rightarrow> bool \<Rightarrow> owner_entry" where
  "worker_entry s now stale = \<lparr>own_snapshot = s, own_reconciled = now, own_stale = stale, own_frozen_by = None, own_credential = None, own_recovery = None\<rparr>"

definition worker_state :: "u64 \<Rightarrow> routeSnapshot \<Rightarrow> u64 \<Rightarrow> bool \<Rightarrow> router_state" where
  "worker_state g s now stale = \<lparr>rt_generation = g, rt_owners = [(''worker-1'', worker_entry s now stale)]\<rparr>"

text \<open>A snapshot that the worker can publish, and one that it has published.\<close>

definition publishable :: "routeSnapshot \<Rightarrow> bool" where
  "publishable s \<longleftrightarrow> snap_owner s = ''worker-1'' \<and> snap_incarnation s = 1 \<and> admissible (policy_of bench_identity) s \<and> small_snapshot s"

lemma reserve_small: "small_snapshot s \<Longrightarrow> small_state (reserve_state (worker_state g s now stale))"
  by (auto simp: small_state_def reserve_state_def worker_state_def worker_entry_def small_entry_def reserve_owner_def small_snapshot_def
      short_record_def reserve_record_def list_all_iff)

lemma accept_first:
  assumes "publishable s" "size_law json_bytes"
  shows "router_accept json_bytes empty_state ''worker-1'' s (policy_of bench_identity) now = Inr (worker_state 1 s now False)"
proof -
  have h: "holding s now empty_state = worker_state 1 s now False"
    using assms(1) by (simp add: holding_def empty_state_def publishable_def worker_state_def worker_entry_def)
  have "json_bytes (reserve_state (worker_state 1 s now False)) \<le> view_limit"
    using assms reserve_small by (simp add: size_law_def publishable_def)
  then have room: "json_bytes (reserve_state (holding s now empty_state)) \<le> pol_view_limit (policy_of bench_identity)"
    by (simp add: h policy_of_def)
  have "router_accept json_bytes empty_state (snap_owner s) s (policy_of bench_identity) now = Inr (holding s now empty_state)"
    by (rule router_accept_works [where json_bytes = json_bytes, OF _ _ _ _ room])
      (use assms(1) in \<open>simp_all add: publishable_def empty_state_def unreserved_def reservations_def list_all_iff\<close>)
  then show ?thesis using assms(1) by (simp add: h publishable_def)
qed

lemma accept_next:
  assumes "publishable s" "size_law json_bytes" "history_extends old s" "g \<noteq> max_u64"
  shows "router_accept json_bytes (worker_state g old t stale) ''worker-1'' s (policy_of bench_identity) now = Inr (worker_state (g + 1) s now False)"
proof -
  let ?st = "worker_state g old t stale"
  have owner: "snap_owner s = ''worker-1''" and adm: "admissible (policy_of bench_identity) s" using assms(1) by (simp_all add: publishable_def)
  have h: "holding s now ?st = worker_state (g + 1) s now False"
    by (simp add: holding_def owner worker_state_def worker_entry_def)
  have "unreserved ?st s"
    by (rule unreserved_own) (use adm assms(3) owner in \<open>simp_all add: worker_state_def worker_entry_def others_def gm_del_def unreserved_def reservations_def gm_ok_def list_all_iff\<close>)
  moreover have "json_bytes (reserve_state (holding s now ?st)) \<le> pol_view_limit (policy_of bench_identity)"
    using assms reserve_small by (simp add: h size_law_def publishable_def policy_of_def)
  ultimately show ?thesis
    using router_accept_works [OF adm, of ?st json_bytes now] owner assms(3,4) by (simp add: h) (simp add: worker_state_def worker_entry_def)
qed

lemma refuse_next:
  assumes "\<not> history_extends old s" "snap_owner s = ''worker-1''"
  shows "\<exists>e. router_accept json_bytes (worker_state g old t stale) ''worker-1'' s policy now = Inl e"
proof -
  have "history_check (worker_entry old t stale) s \<noteq> Inr ()" using assms(1) by (simp add: history_check_iff worker_entry_def)
  then obtain e where "history_check (worker_entry old t stale) s = Inl e" by (cases "history_check (worker_entry old t stale) s") auto
  with assms(2) show ?thesis by (auto simp: router_accept_def Let_def worker_state_def)
qed

subsection \<open>Calls to the bench\<close>

definition live :: "router_state \<Rightarrow> router_state option \<Rightarrow> bench_process" where
  "live st d = \<lparr>bp_node = \<lparr>rn_owners = bench_config, rn_active = st, rn_disk = d\<rparr>, bp_up = True\<rparr>"

definition now_of :: "bench \<Rightarrow> u64" where
  "now_of b = (case bn_clock b of [] \<Rightarrow> 0 | t # ts \<Rightarrow> t)"

definition put_process :: "nat \<Rightarrow> bench_process \<Rightarrow> bench \<Rightarrow> bench" where
  "put_process n p b = b\<lparr>bn_nodes := (bn_nodes b)[n := p], bn_clock := tl (bn_clock b)\<rparr>"

text \<open>No two of the three credentials of the run have one hash.\<close>

definition token_law :: "(string \<Rightarrow> string) \<Rightarrow> bool" where
  "token_law sha \<longleftrightarrow> sha ''wrong'' \<noteq> sha router_token \<and> sha (router_token @ ''2'') \<noteq> sha router_token"

lemma short_answer: "rep_length (answer 200 (accepted_json st)) \<le> 16 * 1024 * 1024"
proof -
  have "unat (rt_generation st) < 10 ^ Suc 19"     using unsigned_less [of "rt_generation st", where ?'a = nat] by simp
  from length_itoa [OF this] have "length (itoa (unat (rt_generation st))) \<le> 20" by simp
  moreover have "quote ''accepted'' = CHR 0x22 # ''accepted'' @ [CHR 0x22]" "quote ''generation'' = CHR 0x22 # ''generation'' @ [CHR 0x22]" by code_simp+
  ultimately show ?thesis by (simp add: answer_def accepted_json_def render_int_def nat_uint_eq)
qed

lemma config_worker: "gm_get bench_config ''worker-1'' = Some bench_identity"
  by (simp add: bench_config_def bench_identity_def)

lemma publish_accepted:
  assumes n: "n < length (bn_nodes b)" "bn_nodes b ! n = live st d"
    and s: "snap_owner s = ''worker-1''" "snap_incarnation s = 1" "Option.bind (gm_get (rt_owners st) ''worker-1'') own_credential = None"
    and acc: "router_accept json_bytes st ''worker-1'' s (policy_of bench_identity) (now_of b) = Inr c"
  shows "publish (bench_routers sha json_bytes polls) n router_token s 200 (b, []) = (Inr (), (put_process n (live c (Some c)) b, []))"
proof -
  let ?v = "\<lparr>rn_owners = bench_config, rn_active = st, rn_disk = d\<rparr>"
  have hash: "hex_encode (sha router_token) = expected_hash sha (snap_owner s) bench_identity ?v"
    using s by (simp add: expected_hash_def bench_identity_def)
  have "publish_handler sha json_bytes router_token s (now_of b) (?v, []) = (Inr (answer 200 (accepted_json c)), (\<lparr>rn_owners = bench_config, rn_active = c, rn_disk = Some c\<rparr>, []))"
    using publish_clean [of ?v s bench_identity sha router_token json_bytes "now_of b"] hash s acc config_worker by simp
  then show ?thesis
    using n short_answer [of c]
    by (simp add: publish_def request_def bench_routers_def bench_call_def live_def now_of_def put_process_def act_then_def Let_def answer_def guard_def)
qed

lemma post_refused:
  assumes n: "n < length (bn_nodes b)" "bn_nodes b ! n = live st d"
    and h: "publish_handler sha json_bytes token s (now_of b) (\<lparr>rn_owners = bench_config, rn_active = st, rn_disk = d\<rparr>, [])
      = (Inr (refuse code), (\<lparr>rn_owners = bench_config, rn_active = st, rn_disk = d\<rparr>, []))"
  shows "publish (bench_routers sha json_bytes polls) n token s code (b, []) = (Inr (), (put_process n (live st d) b, []))"
    "n = 0 \<Longrightarrow> expect_status (bench_routers sha json_bytes polls) token s code (b, []) = (Inr (), (put_process n (live st d) b, []))"
  using n h
  by (simp_all add: publish_def expect_status_def request_def bench_routers_def bench_call_def live_def now_of_def put_process_def act_then_def Let_def
      refuse_def guard_def)

lemma handler_refuses:
  fixes v :: routing_node
  assumes "gm_get (rn_owners v) (snap_owner s) = Some i" "hex_encode (sha token) = expected_hash sha (snap_owner s) i v"
    and "(gm_get (rt_owners (rn_active v)) (snap_owner s) = None \<and> snap_incarnation s \<noteq> 1)
      \<or> (\<exists>e. router_accept json_bytes (rn_active v) (snap_owner s) s (policy_of i) now = Inl e)"
  shows "publish_handler sha json_bytes token s now (v, []) = (Inr (refuse 409), (v, []))"
  using assms(3)
  by (auto simp: publish_handler_def publish_known_def act_look assms(1,2) act_then_def [of "try_act _"] try_act_def)

lemma handler_unauthorized:
  assumes "gm_get (rn_owners v) (snap_owner s) = Some i" "hex_encode (sha token) \<noteq> expected_hash sha (snap_owner s) i v"
  shows "publish_handler sha json_bytes token s now (v, []) = (Inr (refuse 401), (v, []))"
  using assms by (simp add: publish_handler_def publish_known_def act_look)

subsection \<open>Views\<close>

definition view_of :: "router_state \<Rightarrow> router_view" where
  "view_of st = \<lparr>vw_generation = rt_generation st,
     vw_owners = map (\<lambda>(k, e). (k, \<lparr>ov_snapshot = own_snapshot e, ov_reconciled = own_reconciled e, ov_stale = own_stale e\<rparr>)) (rt_owners st)\<rparr>"

lemma read_owner_view:
  assumes "snapshot_wf (own_snapshot e)"
  shows "read_struct owner_view_field (marshal_owner e) zero_owner_view
    = Inr \<lparr>ov_snapshot = own_snapshot e, ov_reconciled = own_reconciled e, ov_stale = own_stale e\<rparr>"
  using assms
  by (simp add: marshal_owner_def owner_view_field_def names_simps recovery_names zero_owner_view_def snapshot_into_marshal unknown_field_def)

lemma read_view_state:
  assumes "gm_ok (rt_owners st)" "list_all (\<lambda>(k, e). snapshot_wf (own_snapshot e)) (rt_owners st)"
  shows "read_view (marshal_state st) = Inr (view_of st)"
proof -
  have names: "to_lower ''generation'' = ''generation''" "to_lower ''owners'' = ''owners''" by code_simp+
  let ?f = "\<lambda>e. \<lparr>ov_snapshot = own_snapshot e, ov_reconciled = own_reconciled e, ov_stale = own_stale e\<rparr>"
  let ?step = "\<lambda>(k, v) m. and_then (read_struct owner_view_field v zero_owner_view) (\<lambda>x. Inr (gm_put k x m))"
  have fold: "list_all (\<lambda>(k, e). snapshot_wf (own_snapshot e)) xs \<Longrightarrow>
      fold_result ?step (map (\<lambda>(k, e). (k, marshal_owner e)) xs) acc = Inr (fold (\<lambda>(k, x). gm_put k x) (map (\<lambda>(k, e). (k, ?f e)) xs) acc)" for xs acc
    by (induction xs arbitrary: acc) (auto simp: read_owner_view split: prod.splits)
  have "gm_ok (map (\<lambda>(k, e). (k, ?f e)) (rt_owners st))"
    using assms(1) by (simp add: gm_ok_def comp_def case_prod_beta)
  from gm_fold_put_id [OF this] fold [OF assms(2), of "[]"]
  have "read_map (read_struct owner_view_field) zero_owner_view (JObj (map (\<lambda>(k, e). (k, marshal_owner e)) (rt_owners st))) []
      = Inr (map (\<lambda>(k, e). (k, ?f e)) (rt_owners st))"
    by (simp add: read_map_def)
  then show ?thesis
    by (simp add: read_view_def marshal_state_def view_field_def names_field_def fold_name_def names zero_view_def view_of_def)
qed

lemma current_view:
  assumes n: "n < length (bn_nodes b)" "bn_nodes b ! n = live st d"
    and st: "gm_ok (rt_owners st)" "list_all (\<lambda>(k, e). snapshot_wf (own_snapshot e)) (rt_owners st)" "json_bytes st \<le> view_limit"
  shows "current (bench_routers sha json_bytes polls) n (b, []) = (Inr (view_of st), (b, []))"
proof -
  have same: "b\<lparr>bn_nodes := (bn_nodes b)[n := live st d]\<rparr> = b" using n(2) by (simp flip: n(2))
  have "bench_call sha json_bytes n ''GET'' ''/view'' [] None (b, [])
      = (Inr \<lparr>rep_status = 200, rep_length = json_bytes st, rep_body = Inr (marshal_state st)\<rparr>, (b, []))"
    using n same by (simp add: bench_call_def view_handler_def act_look Let_def) (simp add: live_def act_look)
  then show ?thesis
    using read_view_state [OF st(1,2)] st(3)
    by (simp add: current_def request_def bench_routers_def act_then_def view_limit_def)
qed

text \<open>What the verifier looks up in the view of a router that holds a snapshot of the worker.\<close>

lemma worker_view: "owner_of (view_of (worker_state g s t stale)) ''worker-1'' = \<lparr>ov_snapshot = s, ov_reconciled = t, ov_stale = stale\<rparr>"
  by (simp add: owner_of_def view_of_def worker_state_def worker_entry_def)

lemma current_worker:
  assumes "n < length (bn_nodes b)" "bn_nodes b ! n = live (worker_state g s t stale) d"
    and "publishable s" "size_law json_bytes"
  shows "current (bench_routers sha json_bytes polls) n (b, []) = (Inr (view_of (worker_state g s t stale)), (b, []))"
proof (rule current_view [OF assms(1,2)])
  have "snapshot_wf s" using assms(3) by (auto simp: publishable_def admissible_def snapshot_wf_def)
  then show "gm_ok (rt_owners (worker_state g s t stale))" "list_all (\<lambda>(k, e). snapshot_wf (own_snapshot e)) (rt_owners (worker_state g s t stale))"
    by (simp_all add: worker_state_def worker_entry_def gm_ok_def)
  have "small_state (worker_state g s t stale)"
    using assms(3) by (simp add: small_state_def worker_state_def worker_entry_def small_entry_def publishable_def)
  then show "json_bytes (worker_state g s t stale) \<le> view_limit" using assms(4) by (simp add: size_law_def)
qed

subsection \<open>Starting and stopping\<close>

definition down :: "router_state \<Rightarrow> router_state option \<Rightarrow> bench_process" where
  "down st d = (live st d)\<lparr>bp_up := False\<rparr>"

definition set_process :: "nat \<Rightarrow> bench_process \<Rightarrow> bench \<Rightarrow> bench" where
  "set_process n p b = b\<lparr>bn_nodes := (bn_nodes b)[n := p]\<rparr>"

lemma process_simps [simp]:
  "bn_nodes (put_process n p b) = (bn_nodes b)[n := p]" "bn_nodes (set_process n p b) = (bn_nodes b)[n := p]"
  by (simp_all add: put_process_def set_process_def)

lemma short_health: "length (rt_owners st) \<le> 1 \<Longrightarrow> rep_length (answer 200
    (JObj [(''generation'', JNum (uint (rt_generation st))), (''owners'', JNum (int (length (rt_owners st)))), (''ready'', JBool True)])) \<le> 16 * 1024 * 1024"
proof -
  assume owners: "length (rt_owners st) \<le> 1"
  have "unat (rt_generation st) < 10 ^ Suc 19"
    using unsigned_less [of "rt_generation st", where ?'a = nat] by simp
  from length_itoa [OF this] have gen: "length (itoa (unat (rt_generation st))) \<le> 20" by simp
  have "length (itoa (length (rt_owners st))) \<le> 1" using length_itoa [of "length (rt_owners st)" 0] owners by simp
  moreover have "quote ''owners'' = CHR 0x22 # ''owners'' @ [CHR 0x22]" "quote ''generation'' = CHR 0x22 # ''generation'' @ [CHR 0x22]"
    "quote ''ready'' = CHR 0x22 # ''ready'' @ [CHR 0x22]" by code_simp+
  ultimately show ?thesis using gen by (simp add: answer_def render_int_def nat_uint_eq)
qed

lemma ready_at_once:
  assumes "n < length (bn_nodes b)" "bn_nodes b ! n = live st d" "length (rt_owners st) \<le> 1" "polls \<noteq> 0"
  shows "await_ready (bench_routers sha json_bytes k) n polls (b, []) = (Inr True, (b, []))"
proof -
  obtain m where polls: "polls = Suc m" using assms(4) by (cases polls) auto
  have same: "b\<lparr>bn_nodes := (bn_nodes b)[n := live st d]\<rparr> = b" using assms(2) by (simp flip: assms(2))
  have "bench_call sha json_bytes n ''GET'' ''/health'' [] None (b, []) = (Inr (answer 200
    (JObj [(''generation'', JNum (uint (rt_generation st))), (''owners'', JNum (int (length (rt_owners st)))), (''ready'', JBool True)])), (b, []))"
    using assms same by (simp add: bench_call_def health_handler_def act_look Let_def) (simp add: live_def act_look)
  then show ?thesis
    using short_health [OF assms(3)] by (simp add: polls request_def bench_routers_def act_then_def try_act_def) (simp add: answer_def)
qed

lemma bench_config_ok: "config_ok bench_config"
  by code_simp

lemma start_fresh:
  assumes "n < length (bn_nodes b)" "bn_nodes b ! n = \<lparr>bp_node = fresh_node, bp_up = False\<rparr>" "polls \<noteq> 0"
  shows "start_router (bench_routers sha json_bytes polls) n (b, []) = (Inr (), (set_process n (live empty_state None) b, []))"
proof -
  have "router_start json_bytes (fresh_node, []) = (Inr (), (fresh_node, []))"
    by (simp add: router_start_def Let_def look_def act_then_def load_state_def fresh_node_def bench_config_ok validate_metadata_def empty_state_def direct_def guard_def)
  then have "bench_start json_bytes n (b, []) = (Inr (), (set_process n (live empty_state None) b, []))"
    using assms by (simp add: bench_start_def set_process_def live_def fresh_node_def)
  then show ?thesis
    using assms ready_at_once [of n "set_process n (live empty_state None) b" empty_state None polls sha json_bytes polls]
    by (simp add: start_router_def act_then_def bench_routers_def empty_state_def guard_def)
qed

lemma start_again:
  assumes "n < length (bn_nodes b)" "bn_nodes b ! n = down st (Some (worker_state g s t stale))" "polls \<noteq> 0"
    and "publishable s" "size_law json_bytes"
  shows "start_router (bench_routers sha json_bytes polls) n (b, []) =
    (Inr (), (set_process n (live (worker_state g s t True) (Some (worker_state g s t stale))) b, []))"
proof -
  let ?w = "worker_state g s t stale"
  have restarted: "after_restart ?w = worker_state g s t True" by (simp add: after_restart_def worker_state_def worker_entry_def)
  have "small_state ?w" using assms(4) by (simp add: small_state_def worker_state_def worker_entry_def small_entry_def publishable_def)
  then have load: "\<not> view_limit < json_bytes ?w" using assms(5) by (simp add: size_law_def not_less)
  have meta: "validate_metadata (worker_state g s t True) = Inr ()"
    using assms(4) by (simp add: validate_metadata_def worker_state_def worker_entry_def validate_owner_def publishable_def)
  have again: "fold_result (revalidate json_bytes bench_config) (rt_owners (worker_state g s t True)) empty_state = Inr (worker_state 1 s t False)"
    using accept_first [OF assms(4,5), of t] config_worker by (simp add: worker_state_def [of g] worker_entry_def revalidate_def)
  have "router_start json_bytes (\<lparr>rn_owners = bench_config, rn_active = st, rn_disk = Some ?w\<rparr>, [])
      = (Inr (), (\<lparr>rn_owners = bench_config, rn_active = worker_state g s t True, rn_disk = Some ?w\<rparr>, []))"
    by (simp add: router_start_def Let_def look_def act_then_def load_state_def bench_config_ok load restarted meta again direct_def guard_def)
  then have "bench_start json_bytes n (b, []) = (Inr (), (set_process n (live (worker_state g s t True) (Some ?w)) b, []))"
    using assms(1,2) by (simp add: bench_start_def set_process_def live_def down_def)
  then show ?thesis
    using assms ready_at_once [of n "set_process n (live (worker_state g s t True) (Some ?w)) b" "worker_state g s t True" "Some ?w" polls sha json_bytes polls]
    by (simp add: start_router_def act_then_def bench_routers_def guard_def) (simp add: worker_state_def)
qed

lemma stop_live:
  assumes "n < length (bn_nodes b)" "bn_nodes b ! n = live st d"
  shows "stop_router (bench_routers sha json_bytes polls) n (b, []) = (Inr (), (set_process n (down st d) b, []))"
  using assms by (simp add: stop_router_def bench_routers_def bench_kill_def act_then_def try_act_def set_process_def down_def)

subsection \<open>The fixtures in order\<close>

lemma fixtures_publishable:
  "publishable first_snapshot" "publishable second_snapshot" "publishable final_snapshot" "publishable deleted_snapshot"
  by code_simp+

lemma large_publishable: "publishable large_snapshot" "publishable retired_snapshot"
  using local_records_admissible [OF large_local] local_records_small [OF large_local, of 3]
    local_records_admissible [OF retired_local] local_records_small [OF retired_local, of 4]
  by (simp_all add: publishable_def large_snapshot_def retired_snapshot fixture_snapshot_def)

lemma fixtures_extend:
  "history_extends first_snapshot second_snapshot" "history_extends first_snapshot final_snapshot"
  "history_extends second_snapshot second_snapshot" "history_extends second_snapshot final_snapshot"
  "history_extends first_snapshot deleted_snapshot"
  by code_simp+

lemma fixtures_conflict:
  "\<not> history_extends first_snapshot changed_snapshot" "\<not> history_extends deleted_snapshot first_snapshot"
  "\<not> history_extends deleted_snapshot (first_snapshot\<lparr>snap_incarnation := 2\<rparr>)"
  "\<not> history_extends final_snapshot second_snapshot" "\<not> history_extends final_snapshot first_snapshot"
  by code_simp+

lemma deleted_extends_large: "history_extends deleted_snapshot large_snapshot"
proof -
  have "gm_get large_records ''one'' = Some (fixture_record ''one'' ''127.0.0.1:19001'' 2 True)"
    using large_local by (simp add: local_records_def large_records_upto large_set flip: gm_in_set_iff)
  then have "records_extend (snap_records deleted_snapshot) large_records"
    by (simp add: deleted_snapshot_def fixture_snapshot_def records_extend_def)
  moreover have "(2 :: u64) \<le> 3" "(3 :: u64) \<noteq> 2" by simp_all
  ultimately show ?thesis by (simp add: history_extends_def large_snapshot_def deleted_snapshot_def fixture_snapshot_def)
qed

lemma large_extends_retired: "history_extends large_snapshot retired_snapshot"
proof -
  have first: "gm_get large_records (instance_id 1) = Some (fixture_record (instance_id 1) (''127.0.0.1:'' @ itoa 20001) 3 False)"
    using large_first large_has_first by (auto simp: record_of_def large_snapshot_def fixture_snapshot_def split: option.splits)
  have "records_extend large_records retired_records"
    by (rule records_extend_getI)
      (use large_local first in \<open>auto simp: local_records_def retired_records_def gm.get_put record_extends_def fixture_record_def\<close>)
  moreover have "(3 :: u64) \<le> 4" "(4 :: u64) \<noteq> 3" by simp_all
  ultimately show ?thesis by (simp add: history_extends_def large_snapshot_def retired_snapshot fixture_snapshot_def)
qed

subsection \<open>Publications of the worker\<close>

lemma publish_first:
  assumes "n < length (bn_nodes b)" "bn_nodes b ! n = live empty_state d" "publishable s" "size_law json_bytes"
  shows "publish (bench_routers sha json_bytes polls) n router_token s 200 (b, []) = (Inr (),
    (put_process n (live (worker_state 1 s (now_of b) False) (Some (worker_state 1 s (now_of b) False))) b, []))"
  by (rule publish_accepted [OF assms(1,2)])
    (use accept_first [OF assms(3,4)] assms(3) in \<open>simp_all add: publishable_def empty_state_def\<close>)

lemma publish_next:
  assumes "n < length (bn_nodes b)" "bn_nodes b ! n = live (worker_state g old t stale) d" "publishable s" "size_law json_bytes"
    and "history_extends old s" "g \<noteq> max_u64"
  shows "publish (bench_routers sha json_bytes polls) n router_token s 200 (b, []) = (Inr (),
    (put_process n (live (worker_state (g + 1) s (now_of b) False) (Some (worker_state (g + 1) s (now_of b) False))) b, []))"
  by (rule publish_accepted [OF assms(1,2)])
    (use accept_next [OF assms(3-6)] assms(3) in \<open>simp_all add: publishable_def worker_state_def worker_entry_def\<close>)

lemma publish_refused:
  assumes "n < length (bn_nodes b)" "bn_nodes b ! n = live (worker_state g old t stale) d" "snap_owner s = ''worker-1''"
    and "\<exists>e. router_accept json_bytes (worker_state g old t stale) ''worker-1'' s (policy_of bench_identity) (now_of b) = Inl e"
  shows "publish (bench_routers sha json_bytes polls) n router_token s 409 (b, []) = (Inr (), (put_process n (live (worker_state g old t stale) d) b, []))"
  by (rule post_refused(1) [OF assms(1,2)], rule handler_refuses [where i = bench_identity])
    (use assms(3,4) config_worker in \<open>simp_all add: expected_hash_def worker_state_def worker_entry_def bench_identity_def\<close>)

lemma publish_old:
  assumes "n < length (bn_nodes b)" "bn_nodes b ! n = live (worker_state g old t stale) d" "snap_owner s = ''worker-1''" "\<not> history_extends old s"
  shows "publish (bench_routers sha json_bytes polls) n router_token s 409 (b, []) = (Inr (), (put_process n (live (worker_state g old t stale) d) b, []))"
  by (rule publish_refused [OF assms(1-3)]) (rule refuse_next [OF assms(4,3)])

lemma fixture_owner: "snap_owner first_snapshot = ''worker-1''" "snap_owner second_snapshot = ''worker-1''"
  "snap_owner changed_snapshot = ''worker-1''" "snap_owner excess_snapshot = ''worker-1''"
  by (simp_all add: first_snapshot_def second_snapshot_def changed_snapshot_def excess_snapshot_def fixture_snapshot_def)

subsection \<open>Convergence\<close>

abbreviation stopped :: bench_process where
  "stopped \<equiv> \<lparr>bp_node = fresh_node, bp_up = False\<rparr>"

text \<open>The same in terms of what the bench holds, whatever the clock shows.\<close>

lemma first_held:
  assumes "bn_nodes b ! n = live empty_state d" "n < length (bn_nodes b)" "publishable s" "size_law json_bytes"
  shows "\<exists>b' t e. publish (bench_routers sha json_bytes polls) n router_token s 200 (b, []) = (Inr (), (b', []))
    \<and> bn_nodes b' = (bn_nodes b)[n := live (worker_state 1 s t False) (Some (worker_state 1 s t False))]"
  unfolding publish_first [OF assms(2,1,3,4)] by auto

lemma next_held:
  assumes "bn_nodes b ! n = live (worker_state g old t stale) d" "n < length (bn_nodes b)" "history_extends old s" "publishable s" "size_law json_bytes"
    and "g \<noteq> max_u64"
  shows "\<exists>b' t. publish (bench_routers sha json_bytes polls) n router_token s 200 (b, []) = (Inr (), (b', []))
    \<and> bn_nodes b' = (bn_nodes b)[n := live (worker_state (g + 1) s t False) (Some (worker_state (g + 1) s t False))]"
  unfolding publish_next [OF assms(2,1,4,5,3,6)] by auto

lemma old_held:
  assumes "bn_nodes b ! n = live (worker_state g old t stale) d" "n < length (bn_nodes b)" "\<not> history_extends old s" "snap_owner s = ''worker-1''"
  shows "\<exists>b'. publish (bench_routers sha json_bytes polls) n router_token s 409 (b, []) = (Inr (), (b', [])) \<and> bn_nodes b' = bn_nodes b"
  unfolding publish_old [OF assms(2,1,4,3)] using assms(1) by (auto simp flip: assms(1))

text \<open>The routers of the convergence are the second and the third.\<close>

lemma third: "[x, y, z] ! 2 = z" "[x, y, z][2 := w] = [x, y, w]"
  by (simp_all add: numeral_2_eq_2)

lemma steps_pass:
  assumes b: "bn_nodes b = [p, live empty_state None, live empty_state None]" and law: "size_law json_bytes"
  shows "\<exists>b' t u d e. fold_act (convergence_step (bench_routers sha json_bytes polls) router_token) convergence_steps () (b, []) = (Inr (), (b', []))
    \<and> bn_nodes b' = [p, live (worker_state 4 final_snapshot t False) d, live (worker_state 2 final_snapshot u False) e]"
proof -
  let ?pub = "\<lambda>n. publish (bench_routers sha json_bytes polls) n router_token"
  let ?w = "\<lambda>g s t. live (worker_state g s t False) (Some (worker_state g s t False))"
  note pubs = fixtures_publishable law
  obtain b1 t1 where s1: "?pub 1 first_snapshot 200 (b, []) = (Inr (), (b1, []))" and b1: "bn_nodes b1 = [p, ?w 1 first_snapshot t1, live empty_state None]"
    using first_held [of b 1 None first_snapshot json_bytes sha polls] b pubs by auto
  obtain b2 t2 where s2: "?pub 2 first_snapshot 200 (b1, []) = (Inr (), (b2, []))" and b2: "bn_nodes b2 = [p, ?w 1 first_snapshot t1, ?w 1 first_snapshot t2]"
    using first_held [of b1 2 None first_snapshot json_bytes sha polls] b1 pubs by (auto simp: third)
  obtain b3 t3 where s3: "?pub 1 second_snapshot 200 (b2, []) = (Inr (), (b3, []))" and b3: "bn_nodes b3 = [p, ?w 2 second_snapshot t3, ?w 1 first_snapshot t2]"
    using next_held [OF _ _ fixtures_extend(1), of b2 1 1 t1 False "Some (worker_state 1 first_snapshot t1 False)" json_bytes sha polls] b2 pubs by auto
  obtain b4 t4 where s4: "?pub 1 second_snapshot 200 (b3, []) = (Inr (), (b4, []))" and b4: "bn_nodes b4 = [p, ?w 3 second_snapshot t4, ?w 1 first_snapshot t2]"
    using next_held [OF _ _ fixtures_extend(3), of b3 1 2 t3 False "Some (worker_state 2 second_snapshot t3 False)" json_bytes sha polls] b3 pubs by auto
  obtain b5 t5 where s5: "?pub 2 final_snapshot 200 (b4, []) = (Inr (), (b5, []))" and b5: "bn_nodes b5 = [p, ?w 3 second_snapshot t4, ?w 2 final_snapshot t5]"
    using next_held [OF _ _ fixtures_extend(2), of b4 2 1 t2 False "Some (worker_state 1 first_snapshot t2 False)" json_bytes sha polls] b4 pubs
    by (auto simp: third)
  obtain b6 t6 where s6: "?pub 1 final_snapshot 200 (b5, []) = (Inr (), (b6, []))" and b6: "bn_nodes b6 = [p, ?w 4 final_snapshot t6, ?w 2 final_snapshot t5]"
    using next_held [OF _ _ fixtures_extend(4), of b5 1 3 t4 False "Some (worker_state 3 second_snapshot t4 False)" json_bytes sha polls] b5 pubs by auto
  obtain b7 where s7: "?pub 1 second_snapshot 409 (b6, []) = (Inr (), (b7, []))" and b7: "bn_nodes b7 = bn_nodes b6"
    using old_held [OF _ _ fixtures_conflict(4) fixture_owner(2), of b6 1 4 t6 False _ sha json_bytes polls] b6 by auto
  obtain b8 where s8: "?pub 2 first_snapshot 409 (b7, []) = (Inr (), (b8, []))" and b8: "bn_nodes b8 = bn_nodes b6"
    using old_held [OF _ _ fixtures_conflict(5) fixture_owner(1), of b7 2 2 t5 False _ sha json_bytes polls] b6 b7 by (auto simp: third)
  have "fold_act (convergence_step (bench_routers sha json_bytes polls) router_token) convergence_steps () (b, []) = (Inr (), (b8, []))"
    using s1 s2 s3 s4 s5 s6 s7 s8 by (simp add: convergence_steps_def convergence_step_def act_then_def flip: numeral_2_eq_2)
  with b8 b6 show ?thesis by auto
qed

lemma convergence_passes:
  assumes "bn_nodes b = [p, stopped, stopped]" "size_law json_bytes" "polls \<noteq> 0"
  shows "\<exists>b'. convergence (bench_routers sha json_bytes polls) router_token (b, []) = (Inr (), (b', []))"
proof -
  let ?rs = "bench_routers sha json_bytes polls" and ?E = "live empty_state None"
  let ?b1 = "set_process 2 ?E (set_process 1 ?E b)"
  have up: "start_nodes ?rs (b, []) = (Inr (), (?b1, []))"
    using assms by (simp add: start_nodes_def act_then_def start_fresh third flip: numeral_2_eq_2)
  have "bn_nodes ?b1 = [p, ?E, ?E]" using assms(1) by (simp add: third)
  from steps_pass [OF this assms(2), of sha polls] obtain b2 t u d e
    where steps: "fold_act (convergence_step ?rs router_token) convergence_steps () (?b1, []) = (Inr (), (b2, []))"
      and b2: "bn_nodes b2 = [p, live (worker_state 4 final_snapshot t False) d, live (worker_state 2 final_snapshot u False) e]" by blast
  have final: "fold_act (same_final ?rs) [0, 1] () (b2, []) = (Inr (), (b2, []))"
    using b2 assms(2) by (simp add: same_final_def act_then_def current_worker fixtures_publishable worker_view third guard_def flip: numeral_2_eq_2)
  have nodes: "converge_nodes ?rs router_token (b, []) = (Inr (), (b2, []))"
    using up steps final by (simp add: converge_nodes_def act_then_def)
  have "\<exists>b3. fold_act (\<lambda>i _. stop_router ?rs (Suc i)) [0, 1] () (b2, []) = (Inr (), (b3, []))"
    using b2 by (simp add: act_then_def stop_live third flip: numeral_2_eq_2)
  then show ?thesis by (auto simp: convergence_def act_then_def [of "try_act _"] try_act_def nodes act_then_Inr)
qed

subsection \<open>The cases of run\<close>

definition worker_two :: identity where
  "worker_two = \<lparr>idn_token = router_token @ ''2'', idn_applications = [''echo'']\<rparr>"

text \<open>The first router up with a state, the other two not started.\<close>

definition serving :: "bench \<Rightarrow> router_state \<Rightarrow> router_state option \<Rightarrow> bool" where
  "serving b st d \<longleftrightarrow> bn_nodes b = [live st d, stopped, stopped]"

lemma serving_node: "serving b st d \<Longrightarrow> 0 < length (bn_nodes b) \<and> bn_nodes b ! 0 = live st d"
  by (simp add: serving_def)

lemma check_eq: "check name body obs s = (Inr (obs @ [\<lparr>obs_case = name, obs_result = fst (body s)\<rparr>]), snd (body s))"
  by (simp add: check_def act_then_def try_act_def split: prod.split)

lemma case_first:
  assumes "serving b empty_state d" "publishable s" "size_law json_bytes"
  shows "\<exists>b' t. publish (bench_routers sha json_bytes polls) 0 router_token s 200 (b, []) = (Inr (), (b', []))
    \<and> serving b' (worker_state 1 s t False) (Some (worker_state 1 s t False))"
  using first_held [of b 0 d s json_bytes sha polls] assms by (auto simp: serving_def)

lemma case_next:
  assumes "serving b (worker_state g old t stale) d" "history_extends old s" "publishable s" "size_law json_bytes" "g \<noteq> max_u64"
  shows "\<exists>b' t'. publish (bench_routers sha json_bytes polls) 0 router_token s 200 (b, []) = (Inr (), (b', []))
    \<and> serving b' (worker_state (g + 1) s t' False) (Some (worker_state (g + 1) s t' False))"
  using next_held [of b 0 g old t stale d s json_bytes sha polls] assms by (auto simp: serving_def)

lemma case_refused:
  assumes "serving b (worker_state g old t stale) d" "snap_owner s = ''worker-1''"
    and "\<exists>e. router_accept json_bytes (worker_state g old t stale) ''worker-1'' s (policy_of bench_identity) (now_of b) = Inl e"
  shows "\<exists>b'. publish (bench_routers sha json_bytes polls) 0 router_token s 409 (b, []) = (Inr (), (b', [])) \<and> serving b' (worker_state g old t stale) d"
  using publish_refused [of 0 b g old t stale d s json_bytes sha polls] assms by (auto simp: serving_def)

lemma case_old:
  assumes "serving b (worker_state g old t stale) d" "\<not> history_extends old s" "snap_owner s = ''worker-1''"
  shows "\<exists>b'. publish (bench_routers sha json_bytes polls) 0 router_token s 409 (b, []) = (Inr (), (b', [])) \<and> serving b' (worker_state g old t stale) d"
  by (rule case_refused [OF assms(1,3)]) (rule refuse_next [OF assms(2,3)])

lemma case_unauthorized:
  assumes "serving b (worker_state g old t stale) d" "snap_owner s = ''worker-1''" "sha token \<noteq> sha router_token"
  shows "\<exists>b'. expect_status (bench_routers sha json_bytes polls) token s 401 (b, []) = (Inr (), (b', [])) \<and> serving b' (worker_state g old t stale) d"
proof -
  have "publish_handler sha json_bytes token s (now_of b) (\<lparr>rn_owners = bench_config, rn_active = worker_state g old t stale, rn_disk = d\<rparr>, [])
      = (Inr (refuse 401), (\<lparr>rn_owners = bench_config, rn_active = worker_state g old t stale, rn_disk = d\<rparr>, []))"
    by (rule handler_unauthorized [where i = bench_identity])
      (use assms(2,3) config_worker in \<open>simp_all add: expected_hash_def worker_state_def worker_entry_def bench_identity_def hex_encode_inj\<close>)
  then show ?thesis
    using post_refused(2) [of 0 b "worker_state g old t stale" d] assms(1) by (auto simp: serving_def)
qed

text \<open>The second worker, which holds nothing at the router.\<close>

lemma case_second:
  assumes "serving b (worker_state g old t stale) d" "snap_owner s = ''worker-2''"
    and "snap_incarnation s \<noteq> 1 \<or> (\<exists>e. router_accept json_bytes (worker_state g old t stale) ''worker-2'' s (policy_of worker_two) (now_of b) = Inl e)"
  shows "\<exists>b'. expect_status (bench_routers sha json_bytes polls) (router_token @ ''2'') s 409 (b, []) = (Inr (), (b', [])) \<and> serving b' (worker_state g old t stale) d"
proof -
  have "gm_get bench_config ''worker-2'' = Some worker_two" by (simp add: bench_config_def worker_two_def)
  then have "publish_handler sha json_bytes (router_token @ ''2'') s (now_of b) (\<lparr>rn_owners = bench_config, rn_active = worker_state g old t stale, rn_disk = d\<rparr>, [])
      = (Inr (refuse 409), (\<lparr>rn_owners = bench_config, rn_active = worker_state g old t stale, rn_disk = d\<rparr>, []))"
    by (intro handler_refuses [where i = worker_two])
      (use assms(2,3) in \<open>auto simp: expected_hash_def worker_state_def worker_entry_def worker_two_def\<close>)
  then show ?thesis
    using post_refused(2) [of 0 b "worker_state g old t stale" d] assms(1) by (auto simp: serving_def)
qed

text \<open>The endpoint of a deleted record stays reserved for its instance.\<close>

lemma reserved_refused:
  "\<exists>e. router_accept json_bytes (worker_state g deleted_snapshot t stale) ''worker-2'' (first_snapshot\<lparr>snap_owner := ''worker-2''\<rparr>) (policy_of worker_two) now = Inl e"
proof -
  let ?s = "first_snapshot\<lparr>snap_owner := ''worker-2''\<rparr>"
  have "\<exists>e. fold_result (record_check (policy_of worker_two) (worker_state g deleted_snapshot t stale) ?s) (snap_records ?s) [] = Inl e"
    by (simp add: record_check_def first_snapshot_def deleted_snapshot_def fixture_snapshot_def fixture_record_def reservations_def worker_state_def worker_entry_def)
  then show ?thesis by (auto simp: router_accept_def Let_def worker_state_def)
qed

lemma excess_refused:
  "\<exists>e. router_accept json_bytes st ''worker-1'' excess_snapshot (policy_of bench_identity) now = Inl e"
proof -
  have "length (gm_put ''excess'' x large_records) = 4097" for x
    using large_length [of 4096] excess_new large_ok [of 4096] by (simp add: gm.size_put map_of_eq_None_iff large_records_upto)
  then show ?thesis by (simp add: router_accept_def excess_snapshot_def fixture_snapshot_def policy_of_def)
qed

text \<open>The steps of a case after which the router serves what it served.\<close>

lemma current_serving:
  assumes "serving b (worker_state g s t stale) d" "publishable s" "size_law json_bytes"
  shows "current (bench_routers sha json_bytes polls) 0 (b, []) = (Inr (view_of (worker_state g s t stale)), (b, []))"
  using current_worker [of 0 b g s t stale d json_bytes sha polls] assms by (simp add: serving_def)

lemma conflict_passes:
  assumes "serving b (worker_state g first_snapshot t stale) d" "size_law json_bytes"
  shows "\<exists>b'. case_conflict (bench_routers sha json_bytes polls) (b, []) = (Inr (), (b', [])) \<and> serving b' (worker_state g first_snapshot t stale) d"
proof -
  obtain b1 where b1: "publish (bench_routers sha json_bytes polls) 0 router_token changed_snapshot 409 (b, []) = (Inr (), (b1, []))"
    "serving b1 (worker_state g first_snapshot t stale) d"
    using case_old [OF assms(1) fixtures_conflict(1) fixture_owner(3)] by blast
  have "rec_endpoint (record_of first_snapshot ''one'') = ''127.0.0.1:19001''" by code_simp
  with b1 show ?thesis
    by (simp add: case_conflict_def act_then_def current_serving [OF b1(2) fixtures_publishable(1) assms(2)] worker_view guard_def)
qed

lemma replay_passes:
  assumes "serving b (worker_state 1 first_snapshot t stale) d" "size_law json_bytes"
  shows "\<exists>b' t'. case_replay (bench_routers sha json_bytes polls) (b, []) = (Inr (), (b', []))
    \<and> serving b' (worker_state 2 deleted_snapshot t' False) (Some (worker_state 2 deleted_snapshot t' False))"
proof -
  obtain b1 u where b1: "publish (bench_routers sha json_bytes polls) 0 router_token deleted_snapshot 200 (b, []) = (Inr (), (b1, []))"
    "serving b1 (worker_state 2 deleted_snapshot u False) (Some (worker_state 2 deleted_snapshot u False))"
    using case_next [OF assms(1) fixtures_extend(5) fixtures_publishable(4) assms(2), of sha polls] by auto
  with case_old [OF b1(2) fixtures_conflict(2) fixture_owner(1), of sha json_bytes polls] show ?thesis
    by (auto simp: case_replay_def act_then_def)
qed

lemma restart_passes:
  assumes "serving b (worker_state 2 deleted_snapshot t False) (Some (worker_state 2 deleted_snapshot t False))" "size_law json_bytes" "polls \<noteq> 0"
  shows "\<exists>b'. case_restart (bench_routers sha json_bytes polls) (view_of (worker_state 2 deleted_snapshot t False)) (b, []) = (Inr (), (b', []))
    \<and> serving b' (worker_state 2 deleted_snapshot t True) (Some (worker_state 2 deleted_snapshot t False))"
proof -
  let ?rs = "bench_routers sha json_bytes polls" and ?w = "worker_state 2 deleted_snapshot t False"
  let ?b1 = "set_process 0 (down ?w (Some ?w)) b"
  let ?b2 = "set_process 0 (live (worker_state 2 deleted_snapshot t True) (Some ?w)) ?b1"
  have stop: "stop_router ?rs 0 (b, []) = (Inr (), (?b1, []))" using assms(1) by (intro stop_live) (simp_all add: serving_def)
  have up: "start_router ?rs 0 (?b1, []) = (Inr (), (?b2, []))"
    using assms by (intro start_again) (simp_all add: serving_def fixtures_publishable)
  have served: "serving ?b2 (worker_state 2 deleted_snapshot t True) (Some ?w)" using assms(1) by (simp add: serving_def)
  have "rec_deleted (record_of deleted_snapshot ''one'')" by code_simp
  with stop up current_serving [OF served fixtures_publishable(4) assms(2), of sha polls] served show ?thesis
    by (simp add: case_restart_def act_then_def Let_def worker_view guard_def)
qed

lemma capacity_passes:
  assumes "serving b (worker_state 2 deleted_snapshot t stale) d" "size_law json_bytes"
  shows "\<exists>b' t'. case_capacity (bench_routers sha json_bytes polls) (b, []) = (Inr (), (b', []))
    \<and> serving b' (worker_state 4 retired_snapshot t' False) (Some (worker_state 4 retired_snapshot t' False))"
proof -
  let ?rs = "bench_routers sha json_bytes polls"
  obtain b1 u where b1: "publish ?rs 0 router_token large_snapshot 200 (b, []) = (Inr (), (b1, []))"
    "serving b1 (worker_state 3 large_snapshot u False) (Some (worker_state 3 large_snapshot u False))"
    using case_next [OF assms(1) deleted_extends_large large_publishable(1) assms(2), of sha polls] by auto
  obtain b2 where b2: "publish ?rs 0 router_token excess_snapshot 409 (b1, []) = (Inr (), (b2, []))"
    "serving b2 (worker_state 3 large_snapshot u False) (Some (worker_state 3 large_snapshot u False))"
    using case_refused [OF b1(2) fixture_owner(4) excess_refused] by blast
  obtain b3 v where b3: "publish ?rs 0 router_token retired_snapshot 200 (b2, []) = (Inr (), (b3, []))"
    "serving b3 (worker_state 4 retired_snapshot v False) (Some (worker_state 4 retired_snapshot v False))"
    using case_next [OF b2(2) large_extends_retired large_publishable(2) assms(2), of sha polls] by auto
  have "length (snap_records retired_snapshot) = 4096"
    using large_length [of 4096] large_has_first large_ok [of 4096] by (simp add: retired_snapshot fixture_snapshot_def retired_records_def gm.size_put large_records_upto)
  moreover have "rec_deleted (record_of retired_snapshot (instance_id 1))"
    using large_ok [of 4096] by (simp add: retired_snapshot fixture_snapshot_def retired_records_def record_of_def gm.get_put large_records_upto fixture_record_def)
  ultimately show ?thesis
    using b1(1) b2(1) b3 by (simp add: case_capacity_def act_then_def Let_def current_serving [OF b3(2) large_publishable(2) assms(2)] worker_view guard_def) blast
qed

subsection \<open>The whole run\<close>

text \<open>C37. The verifier passes on the modelled routers: whatever the clock shows, each of its twelve cases (credentials,
  incarnations, replays, reservations, restart, capacity, and the convergence of two nodes) finds the answer it
  expects, and the run ends with success.\<close>

theorem routing_check_passes:
  assumes "size_law json_bytes" "token_law sha" "polls \<noteq> 0"
  shows "fst (routing_check (bench_routers sha json_bytes polls) (fresh_bench clock, [])) = Inr ()"
proof -
  let ?rs = "bench_routers sha json_bytes polls" and ?w = "\<lambda>g s t. worker_state g s t False" and ?tok2 = "router_token @ ''2''"
  have tokens: "sha ''wrong'' \<noteq> sha router_token" "sha ?tok2 \<noteq> sha router_token" using assms(2) by (simp_all add: token_law_def)
  note first = fixtures_publishable(1) fixture_owner(1)
  obtain b0 where r0: "start_router ?rs 0 (fresh_bench clock, []) = (Inr (), (b0, []))" and s0: "serving b0 empty_state None"
    using start_fresh [of 0 "fresh_bench clock" polls sha json_bytes] assms(3) by (simp add: fresh_bench_def serving_def numeral_3_eq_3)
  obtain b1 t where r1: "publish ?rs 0 router_token first_snapshot 200 (b0, []) = (Inr (), (b1, []))"
    and s1: "serving b1 (?w 1 first_snapshot t) (Some (?w 1 first_snapshot t))"
    using case_first [OF s0 first(1) assms(1)] by blast
  obtain b2 where r2: "expect_status ?rs ''wrong'' first_snapshot 401 (b1, []) = (Inr (), (b2, []))"
    and s2: "serving b2 (?w 1 first_snapshot t) (Some (?w 1 first_snapshot t))"
    using case_unauthorized [OF s1 first(2) tokens(1)] by blast
  obtain b3 where r3: "expect_status ?rs ?tok2 first_snapshot 401 (b2, []) = (Inr (), (b3, []))"
    and s3: "serving b3 (?w 1 first_snapshot t) (Some (?w 1 first_snapshot t))"
    using case_unauthorized [OF s2 first(2) tokens(2)] by blast
  obtain b4 where r4: "expect_status ?rs ?tok2 restored_snapshot 409 (b3, []) = (Inr (), (b4, []))"
    and s4: "serving b4 (?w 1 first_snapshot t) (Some (?w 1 first_snapshot t))"
    using case_second [OF s3, of restored_snapshot json_bytes sha polls] by (auto simp: restored_snapshot_def)
  obtain b5 where r5: "case_conflict ?rs (b4, []) = (Inr (), (b5, []))" and s5: "serving b5 (?w 1 first_snapshot t) (Some (?w 1 first_snapshot t))"
    using conflict_passes [OF s4 assms(1)] by blast
  obtain b6 u where r6: "case_replay ?rs (b5, []) = (Inr (), (b6, []))" and s6: "serving b6 (?w 2 deleted_snapshot u) (Some (?w 2 deleted_snapshot u))"
    using replay_passes [OF s5 assms(1)] by blast
  obtain b7 where r7: "publish ?rs 0 router_token (first_snapshot\<lparr>snap_incarnation := 2\<rparr>) 409 (b6, []) = (Inr (), (b7, []))"
    and s7: "serving b7 (?w 2 deleted_snapshot u) (Some (?w 2 deleted_snapshot u))"
    using case_old [OF s6 fixtures_conflict(3)] first(2) by force
  obtain b8 where r8: "expect_status ?rs ?tok2 (first_snapshot\<lparr>snap_owner := ''worker-2''\<rparr>) 409 (b7, []) = (Inr (), (b8, []))"
    and s8: "serving b8 (?w 2 deleted_snapshot u) (Some (?w 2 deleted_snapshot u))"
    using case_second [OF s7, of "first_snapshot\<lparr>snap_owner := ''worker-2''\<rparr>" json_bytes sha polls] reserved_refused by auto
  have r9: "current ?rs 0 (b8, []) = (Inr (view_of (?w 2 deleted_snapshot u)), (b8, []))"
    by (rule current_serving [OF s8 fixtures_publishable(4) assms(1)])
  then have r10: "case_delivery ?rs (view_of (?w 2 deleted_snapshot u)) (b8, []) = (Inr (), (b8, []))"
    by (simp add: case_delivery_def act_then_def guard_def)
  obtain b11 where r11: "case_restart ?rs (view_of (?w 2 deleted_snapshot u)) (b8, []) = (Inr (), (b11, []))"
    and s11: "serving b11 (worker_state 2 deleted_snapshot u True) (Some (?w 2 deleted_snapshot u))"
    using restart_passes [OF s8 assms(1,3)] by blast
  obtain b12 v where r12: "case_capacity ?rs (b11, []) = (Inr (), (b12, []))" and s12: "serving b12 (?w 4 retired_snapshot v) (Some (?w 4 retired_snapshot v))"
    using capacity_passes [OF s11 assms(1)] by blast
  let ?b13 = "set_process 0 (down (?w 4 retired_snapshot v) (Some (?w 4 retired_snapshot v))) b12"
  have r13: "stop_router ?rs 0 (b12, []) = (Inr (), (?b13, []))" using s12 by (intro stop_live) (simp_all add: serving_def)
  obtain b14 where r14: "convergence ?rs router_token (?b13, []) = (Inr (), (b14, []))"
    using convergence_passes [OF _ assms(1,3)] s12 by (force simp: serving_def)
  have prepared: "run_setup (fresh_bench clock, []) = (Inr (), (fresh_bench clock, []))" by (simp add: run_setup_def act_then_def upt_rec)
  have "\<exists>obs. run_checks ?rs (fresh_bench clock, []) = (Inr obs, (b14, [])) \<and> failed_checks obs = 0"
    by (simp add: run_checks_def act_then_def check_eq prepared r0 r1 r2 r3 r4 r5 r6 r7 r8 r9 r10 r11 r12 r13 r14 failed_checks_def)
  then show ?thesis by (auto simp: routing_check_def act_then_def try_act_def guard_def)
qed

lemma routing_check_passes_witness:
  "fst (routing_check (bench_routers (\<lambda>s. s) (\<lambda>st. length (render (marshal_state st))) 1) (fresh_bench [5, 6, 7], [])) = Inr ()"
proof (rule routing_check_passes)
  show "token_law (\<lambda>s. s)" by code_simp
qed (rule rendered_size, simp)

end
