(* ===== verification/Traffic.thy ===== *)
theory Traffic
  imports Slots
begin

section \<open>The load generator: cmd/traffic\<close>

text \<open>
  \<^verbatim>\<open>cmd/traffic/main.go\<close>: a bounded number of workers draw request numbers from one atomic counter, exchange a
  payload with an echo service each and send the result over a channel to the collector. Parameters are the network
  (what becomes of the exchange for a number and a payload), the JSON decoder and the float arithmetic that picks a
  percentile. Latencies are in microseconds. The times of the start and the throughput of the report are not modelled.
\<close>

subsection \<open>One request\<close>

text \<open>An error, with what \<^verbatim>\<open>net.Error\<close> says of it.\<close>

record net_error =
  ne_text :: string
  ne_timeout :: bool

text \<open>
  What arrives on a connection and how the stream ends (\<^const>\<open>None\<close> is the end of file), and the outcome of the
  goroutine that sends the payload and closes the sending side.
\<close>

record peer_answer =
  pa_bytes :: string
  pa_end :: "net_error option"
  pa_sent :: "net_error option"

text \<open>The elapsed time, and a failed dial or the answer.\<close>

type_synonym network = "int \<Rightarrow> string \<Rightarrow> nat \<times> (net_error + peer_answer)"

type_synonym identities = "(string, (string, string) go_map) go_map"

record attempt =
  at_id :: int
  at_micros :: nat
  at_identity :: "(string, string) go_map"
  at_instance :: string
  at_error :: "net_error option"

definition not_net :: "'a result \<Rightarrow> net_error + 'a" where
  "not_net r = (case r of Inl e \<Rightarrow> Inl \<lparr>ne_text = e, ne_timeout = False\<rparr> | Inr x \<Rightarrow> Inr x)"

definition payload_of :: "int \<Rightarrow> nat \<Rightarrow> string" where
  "payload_of n len = map (\<lambda>i. char_of (nat ((n + int i) mod 251))) [0..<len]"

definition echo_trailer :: string where
  "echo_trailer = [CHR 0x0A] @ ''EOF'' @ [CHR 0x0A]"

text \<open>\<^verbatim>\<open>ReadSlice('\n')\<close> on a reader with a buffer of 4096 bytes: the line with its end, and what is left.\<close>

definition read_line :: "peer_answer \<Rightarrow> net_error + (string \<times> string)" where
  "read_line an = (let line = takeWhile (\<lambda>c. c \<noteq> CHR 0x0A) (pa_bytes an); rest = drop (length line) (pa_bytes an) in
     if 4096 \<le> length line then not_net (Inl ''bufio: buffer full'')
     else case rest of
       [] \<Rightarrow> (case pa_end an of None \<Rightarrow> not_net (Inl ''EOF'') | Some e \<Rightarrow> Inl e)
     | c # more_bytes \<Rightarrow> Inr (line @ [c], more_bytes))"

definition check_identity :: "string \<Rightarrow> string list \<Rightarrow> identities option \<Rightarrow> (string, string) go_map \<Rightarrow> unit result" where
  "check_identity app instances expected ident =
     (if member ident ''app'' \<noteq> app \<or> member ident ''instance'' \<notin> set instances then Inl ''unexpected identity''
      else and_then (fold_result (\<lambda>key _. guard (member ident key \<noteq> []) (''missing identity field '' @ key)) [''worker'', ''region'', ''version''] ()) (\<lambda>_.
      case expected of None \<Rightarrow> Inr ()
      | Some known \<Rightarrow> (case gm_get known (member ident ''instance'') of
            None \<Rightarrow> Inl ''instance absent from independent deployment manifest''
          | Some want \<Rightarrow> fold_result (\<lambda>key _. guard (member ident key = member want key) (''identity '' @ key @ '' mismatch''))
              [''app'', ''worker'', ''region'', ''version''] ())))"

text \<open>\<^verbatim>\<open>io.ReadAll(io.LimitReader(reader, len(expected)+1))\<close>, the outcome of sending, the comparison.\<close>

definition check_echo :: "string \<Rightarrow> peer_answer \<Rightarrow> string \<Rightarrow> net_error + unit" where
  "check_echo payload an rest = (let expected = payload @ echo_trailer; limit = length expected + 1 in
     case (if length rest < limit then pa_end an else None) of
       Some e \<Rightarrow> Inl e
     | None \<Rightarrow> (case pa_sent an of
         Some e \<Rightarrow> Inl e
       | None \<Rightarrow> not_net (guard (expected = take limit rest) ''payload mismatch'')))"

text \<open>The closure of \<^verbatim>\<open>request\<close>: the identity it has stored, if it got that far, and its result.\<close>

definition traffic_exchange :: "(string \<Rightarrow> json result) \<Rightarrow> string \<Rightarrow> string list \<Rightarrow> identities option \<Rightarrow> string \<Rightarrow> net_error + peer_answer \<Rightarrow> (string, string) go_map \<times> (net_error + unit)" where
  "traffic_exchange parse app instances expected payload dialled = (case dialled of
     Inl e \<Rightarrow> ([], Inl e)
   | Inr an \<Rightarrow> (case read_line an of
       Inl e \<Rightarrow> ([], Inl e)
     | Inr (line, rest) \<Rightarrow> (case and_then (parse line) identity_of of
         Inl e \<Rightarrow> ([], not_net (Inl e))
       | Inr ident \<Rightarrow> (ident, (case check_identity app instances expected ident of
           Inl e \<Rightarrow> not_net (Inl e)
         | Inr _ \<Rightarrow> check_echo payload an rest)))))"

definition traffic_request :: "(string \<Rightarrow> json result) \<Rightarrow> network \<Rightarrow> string \<Rightarrow> string list \<Rightarrow> identities option \<Rightarrow> nat \<Rightarrow> int \<Rightarrow> attempt" where
  "traffic_request parse net app instances expected len n = (let payload = payload_of n len in
     case net n payload of (micros, dialled) \<Rightarrow>
     case traffic_exchange parse app instances expected payload dialled of (ident, r) \<Rightarrow>
       \<lparr>at_id = n, at_micros = micros, at_identity = ident, at_instance = member ident ''instance'',
        at_error = (case r of Inl e \<Rightarrow> Some e | Inr _ \<Rightarrow> None)\<rparr>)"

subsection \<open>The workers and the collector\<close>

text \<open>A worker about to draw a number, with its number, with its request on the way, at the channel, returned.\<close>

datatype traffic_worker = Idle | Drawn int | Busy int | Sending attempt | Returned

record traffic_pool =
  tp_next :: int
  tp_workers :: "traffic_worker list"
  tp_channel :: "attempt list"
  tp_results :: "attempt list"

record traffic_load =
  tl_count :: int
  tl_concurrency :: nat
  tl_duration :: int
  tl_work :: "int \<Rightarrow> attempt"

text \<open>The atomic actions in any interleaving; \<open>late\<close> is what the clock says when a worker tests the duration.\<close>

datatype pool_event = Draw nat | Test nat bool | Answer nat | Send nat | Receive

definition worker_at :: "traffic_pool \<Rightarrow> nat \<Rightarrow> traffic_worker" where
  "worker_at p i = (if i < length (tp_workers p) then tp_workers p ! i else Returned)"

definition set_worker :: "nat \<Rightarrow> traffic_worker \<Rightarrow> traffic_pool \<Rightarrow> traffic_pool" where
  "set_worker i w p = p\<lparr>tp_workers := (tp_workers p)[i := w]\<rparr>"

fun pool_step :: "traffic_load \<Rightarrow> pool_event \<Rightarrow> traffic_pool \<Rightarrow> traffic_pool option" where
  "pool_step ld (Draw i) p = (case worker_at p i of
     Idle \<Rightarrow> Some (set_worker i (Drawn (tp_next p + 1)) (p\<lparr>tp_next := tp_next p + 1\<rparr>)) | _ \<Rightarrow> None)"
| "pool_step ld (Test i late) p = (case worker_at p i of
     Drawn n \<Rightarrow> Some (set_worker i (if n > tl_count ld \<or> 0 < tl_duration ld \<and> late then Returned else Busy n) p) | _ \<Rightarrow> None)"
| "pool_step ld (Answer i) p = (case worker_at p i of
     Busy n \<Rightarrow> Some (set_worker i (Sending (tl_work ld n)) p) | _ \<Rightarrow> None)"
| "pool_step ld (Send i) p = (case worker_at p i of
     Sending r \<Rightarrow> if length (tp_channel p) < tl_concurrency ld
       then Some (set_worker i Idle (p\<lparr>tp_channel := tp_channel p @ [r]\<rparr>)) else None
   | _ \<Rightarrow> None)"
| "pool_step ld Receive p = (case tp_channel p of
     r # rs \<Rightarrow> Some (p\<lparr>tp_channel := rs, tp_results := tp_results p @ [r]\<rparr>) | [] \<Rightarrow> None)"

definition start_pool :: "traffic_load \<Rightarrow> traffic_pool" where
  "start_pool ld = \<lparr>tp_next = 0, tp_workers = replicate (tl_concurrency ld) Idle, tp_channel = [], tp_results = []\<rparr>"

text \<open>The workers are waited for, the channel is closed, and the collector has drained it.\<close>

definition pool_done :: "traffic_pool \<Rightarrow> bool" where
  "pool_done p \<longleftrightarrow> list_all (\<lambda>w. w = Returned) (tp_workers p) \<and> tp_channel p = []"

subsection \<open>The report\<close>

record tally =
  ty_latencies :: "nat list"
  ty_successes :: nat
  ty_failures :: nat
  ty_timeouts :: nat
  ty_backends :: "(string, nat) go_map"
  ty_identities :: identities

definition zero_tally :: tally where
  "zero_tally = \<lparr>ty_latencies = [], ty_successes = 0, ty_failures = 0, ty_timeouts = 0, ty_backends = [], ty_identities = []\<rparr>"

definition backend_count :: "tally \<Rightarrow> string \<Rightarrow> nat" where
  "backend_count t i = (case gm_get (ty_backends t) i of None \<Rightarrow> 0 | Some n \<Rightarrow> n)"

definition tally_timeout :: "attempt \<Rightarrow> bool" where
  "tally_timeout r = (case at_error r of None \<Rightarrow> False | Some e \<Rightarrow> ne_timeout e)"

definition tally_result :: "attempt \<Rightarrow> tally \<Rightarrow> tally" where
  "tally_result r t0 = (let
     t1 = t0\<lparr>ty_latencies := ty_latencies t0 @ [at_micros r]\<rparr>;
     t2 = (if at_error r = None \<or> map_option ne_text (at_error r) = Some []
       then t1\<lparr>ty_successes := ty_successes t1 + 1, ty_backends := gm_put (at_instance r) (backend_count t1 (at_instance r) + 1) (ty_backends t1),
         ty_identities := gm_put (at_instance r) (at_identity r) (ty_identities t1)\<rparr>
       else t1\<lparr>ty_failures := ty_failures t1 + 1\<rparr>) in
     if tally_timeout r then t2\<lparr>ty_timeouts := ty_timeouts t2 + 1\<rparr> else t2)"

text \<open>\<^verbatim>\<open>int(float64(len-1) * p)\<close> is \<open>scale (len - 1) p\<close> with \<open>p\<close> in percent.\<close>

definition percentile :: "(nat \<Rightarrow> nat \<Rightarrow> nat) \<Rightarrow> nat list \<Rightarrow> nat \<Rightarrow> nat" where
  "percentile scale latencies p = (if latencies = [] then 0 else sort latencies ! scale (length latencies - 1) p)"

record traffic_report =
  tr_attempts :: nat
  tr_tally :: tally
  tr_p50 :: nat
  tr_p95 :: nat
  tr_p99 :: nat
  tr_max :: nat

definition report_of :: "(nat \<Rightarrow> nat \<Rightarrow> nat) \<Rightarrow> attempt list \<Rightarrow> traffic_report" where
  "report_of scale results = (let t = fold tally_result results zero_tally; p = percentile scale (ty_latencies t) in
     \<lparr>tr_attempts = length (ty_latencies t), tr_tally = t, tr_p50 = p 50, tr_p95 = p 95, tr_p99 = p 99, tr_max = p 100\<rparr>)"

definition report_status :: "traffic_report \<Rightarrow> nat" where
  "report_status rp = (if ty_failures (tr_tally rp) > 0 \<or> ty_successes (tr_tally rp) = 0 then 1 else 0)"

subsection \<open>main\<close>

record traffic_args =
  ta_app :: string
  ta_instances :: string
  ta_count :: int
  ta_concurrency :: int
  ta_bytes :: int
  ta_duration :: int
  ta_deadline :: int
  ta_expected :: string

definition traffic_args_ok :: "traffic_args \<Rightarrow> bool" where
  "traffic_args_ok a \<longleftrightarrow> \<not> (ta_count a < 1 \<or> ta_count a > 4000000 \<or> ta_concurrency a < 1 \<or> ta_concurrency a > 256
     \<or> ta_bytes a < 0 \<or> ta_bytes a > 1048576 \<or> ta_deadline a \<le> 0 \<or> ta_duration a < 0)"

definition read_identities :: "json \<Rightarrow> identities result" where
  "read_identities j = read_map (\<lambda>v old. read_map read_str [] v old) [] j []"

definition complete_identities :: "identities \<Rightarrow> string list \<Rightarrow> bool" where
  "complete_identities known instances \<longleftrightarrow> list_all (\<lambda>i. list_all (\<lambda>key.
     member (case gm_get known i of None \<Rightarrow> [] | Some want \<Rightarrow> want) key \<noteq> []) [''app'', ''worker'', ''region'', ''version'']) instances"

text \<open>\<^const>\<open>Inl\<close> is an exit with status 2.\<close>

definition traffic_setup :: "(string \<Rightarrow> json result) \<Rightarrow> string result \<Rightarrow> traffic_args \<Rightarrow> (string list \<times> identities option) result" where
  "traffic_setup parse manifest_file a =
     and_then (guard (traffic_args_ok a) ''workload exceeds supported bounds'') (\<lambda>_.
     let instances = split_on CHR '','' (ta_instances a) in
     if ta_expected a = [] then Inr (instances, None)
     else and_then (case manifest_file of Inl e \<Rightarrow> Inl ''cannot read bounded identity manifest''
        | Inr text \<Rightarrow> if 65536 < length text then Inl ''cannot read bounded identity manifest'' else Inr text) (\<lambda>text.
      and_then (and_then (parse text) read_identities) (\<lambda>known.
      and_then (guard (complete_identities known instances) ''incomplete identity manifest'') (\<lambda>_.
      Inr (instances, Some known)))))"

definition traffic_load_of :: "(string \<Rightarrow> json result) \<Rightarrow> network \<Rightarrow> traffic_args \<Rightarrow> string list \<Rightarrow> identities option \<Rightarrow> traffic_load" where
  "traffic_load_of parse net a instances expected =
     \<lparr>tl_count = ta_count a, tl_concurrency = nat (ta_concurrency a), tl_duration = ta_duration a,
      tl_work = traffic_request parse net (ta_app a) instances expected (nat (ta_bytes a))\<rparr>"

text \<open>
  A run under a schedule: \<^const>\<open>None\<close> when the schedule is not one of a whole run. With a history file there are the
  outcome of its creation and that of each line; a failure is a panic, whose status is 2 as well.
\<close>

definition history_fails :: "(unit result \<times> (nat \<Rightarrow> unit result)) option \<Rightarrow> attempt list \<Rightarrow> bool" where
  "history_fails history results = (case history of None \<Rightarrow> False
     | Some (created, encode) \<Rightarrow> \<not> is_ok created \<or> list_ex (\<lambda>i. \<not> is_ok (encode i)) [0..<length results])"

definition traffic_main ::
  "(string \<Rightarrow> json result) \<Rightarrow> network \<Rightarrow> (nat \<Rightarrow> nat \<Rightarrow> nat) \<Rightarrow> string result \<Rightarrow> (unit result \<times> (nat \<Rightarrow> unit result)) option \<Rightarrow> traffic_args \<Rightarrow> pool_event list
    \<Rightarrow> (nat \<times> traffic_report option) option" where
  "traffic_main parse net scale manifest_file history a schedule =
     (case traffic_setup parse manifest_file a of
       Inl e \<Rightarrow> Some (2, None)
     | Inr (instances, expected) \<Rightarrow>
       (let ld = traffic_load_of parse net a instances expected in
        case run_events (pool_step ld) schedule (start_pool ld) of
          None \<Rightarrow> None
        | Some p \<Rightarrow> if history_fails history (tp_results p) then Some (2, None)
            else if pool_done p then (let rp = report_of scale (tp_results p) in Some (report_status rp, Some rp)) else None))"

end
