(* ===== verification/Traffic_Props.thy ===== *)
theory Traffic_Props
  imports Traffic
begin

section \<open>The load generator comes to an end, and passes on the echo workload\<close>

subsection \<open>Sums over the workers\<close>

lemma sum_list_replaced:
  fixes f :: "'a \<Rightarrow> 'b :: cancel_comm_monoid_add"
  shows "i < length xs \<Longrightarrow> sum_list (map f (xs[i := y])) + f (xs ! i) = sum_list (map f xs) + f y"
proof (induction xs arbitrary: i)
  case (Cons x xs)
  then show ?case by (cases i) (auto simp: ac_simps add.assoc)
qed simp

lemma worker_sum:
  fixes f :: "traffic_worker \<Rightarrow> 'b :: cancel_comm_monoid_add"
  assumes "worker_at p i = w" "w \<noteq> Returned"
  shows "sum_list (map f ((tp_workers p)[i := y])) + f w = sum_list (map f (tp_workers p)) + f y"
  using assms sum_list_replaced [of i "tp_workers p" f y] by (simp add: worker_at_def split: if_splits)

lemma set_worker_simps [simp]:
  "tp_workers (set_worker i w p) = (tp_workers p)[i := w]" "tp_next (set_worker i w p) = tp_next p"
  "tp_channel (set_worker i w p) = tp_channel p" "tp_results (set_worker i w p) = tp_results p"
  by (simp_all add: set_worker_def)

subsection \<open>Termination: every step lowers a measure\<close>

fun worker_weight :: "traffic_load \<Rightarrow> traffic_worker \<Rightarrow> nat" where
  "worker_weight ld Idle = 2"
| "worker_weight ld (Drawn n) = (if n \<le> tl_count ld then 6 else 1)"
| "worker_weight ld (Busy n) = 5"
| "worker_weight ld (Sending r) = 4"
| "worker_weight ld Returned = 0"

definition pool_measure :: "traffic_load \<Rightarrow> traffic_pool \<Rightarrow> nat" where
  "pool_measure ld p = 5 * nat (tl_count ld - tp_next p) + sum_list (map (worker_weight ld) (tp_workers p)) + length (tp_channel p)"

lemma step_lowers: "pool_step ld ev p = Some q \<Longrightarrow> pool_measure ld q < pool_measure ld p"
proof (cases ev)
  case (Draw i)
  assume "pool_step ld ev p = Some q"
  with Draw have w: "worker_at p i = Idle" and q: "q = set_worker i (Drawn (tp_next p + 1)) (p\<lparr>tp_next := tp_next p + 1\<rparr>)"
    by (auto split: traffic_worker.splits)
  from worker_sum [OF w, of "worker_weight ld" "Drawn (tp_next p + 1)"] show ?thesis
    by (auto simp: q pool_measure_def split: if_splits)
next
  case (Test i late)
  assume "pool_step ld ev p = Some q"
  with Test obtain n where w: "worker_at p i = Drawn n"
    and q: "q = set_worker i (if n > tl_count ld \<or> 0 < tl_duration ld \<and> late then Returned else Busy n) p"
    by (auto split: traffic_worker.splits)
  from worker_sum [OF w, of "worker_weight ld" "if n > tl_count ld \<or> 0 < tl_duration ld \<and> late then Returned else Busy n"] show ?thesis
    by (auto simp: q pool_measure_def split: if_splits)
next
  case (Answer i)
  assume "pool_step ld ev p = Some q"
  with Answer obtain n where w: "worker_at p i = Busy n" and q: "q = set_worker i (Sending (tl_work ld n)) p"
    by (auto split: traffic_worker.splits)
  from worker_sum [OF w, of "worker_weight ld" "Sending (tl_work ld n)"] show ?thesis by (simp add: q pool_measure_def)
next
  case (Send i)
  assume "pool_step ld ev p = Some q"
  with Send obtain r where w: "worker_at p i = Sending r" and q: "q = set_worker i Idle (p\<lparr>tp_channel := tp_channel p @ [r]\<rparr>)"
    by (auto split: traffic_worker.splits if_splits)
  from worker_sum [OF w, of "worker_weight ld" Idle] show ?thesis by (simp add: q pool_measure_def)
qed (auto simp: pool_measure_def split: list.splits)

text \<open>A machine each of whose steps lowers a measure makes at most as many steps.\<close>

locale measured_steps =
  fixes step :: "'ev \<Rightarrow> 's \<Rightarrow> 's option" and weight :: "'s \<Rightarrow> nat"
  assumes lowers: "step ev s = Some s' \<Longrightarrow> weight s' < weight s"
begin

lemma run_lowers: "run_events step evs s = Some s' \<Longrightarrow> length evs + weight s' \<le> weight s"
proof (induction evs arbitrary: s)
  case (Cons ev evs)
  then obtain u where step: "step ev s = Some u" and run: "run_events step evs u = Some s'" by (auto split: option.splits)
  from Cons.IH [OF run] lowers [OF step] show ?case by simp
qed simp

lemma run_bounded: "run_events step evs s = Some s' \<Longrightarrow> length evs \<le> weight s"
  using run_lowers by fastforce

end

interpretation load_pool: measured_steps "pool_step ld" "pool_measure ld" for ld
  by unfold_locales (rule step_lowers)

lemma start_measure: "pool_measure ld (start_pool ld) = 5 * nat (tl_count ld) + 2 * tl_concurrency ld"
  by (simp add: pool_measure_def start_pool_def map_replicate_const sum_list_replicate)

subsection \<open>Every number is drawn, tried and reported once\<close>

fun holds_number :: "traffic_load \<Rightarrow> traffic_worker \<Rightarrow> int multiset" where
  "holds_number ld (Drawn n) = (if n \<le> tl_count ld then {#n#} else {#})"
| "holds_number ld (Busy n) = {#n#}"
| "holds_number ld (Sending r) = {#at_id r#}"
| "holds_number ld w = {#}"

definition numbers :: "traffic_load \<Rightarrow> traffic_pool \<Rightarrow> int multiset" where
  "numbers ld p = sum_list (map (holds_number ld) (tp_workers p)) + mset (map at_id (tp_channel p)) + mset (map at_id (tp_results p))"

definition drawn_numbers :: "traffic_load \<Rightarrow> traffic_pool \<Rightarrow> int multiset" where
  "drawn_numbers ld p = mset_set {1..min (tp_next p) (tl_count ld)}"

fun worker_fits :: "traffic_load \<Rightarrow> int \<Rightarrow> traffic_worker \<Rightarrow> bool" where
  "worker_fits ld nxt (Drawn n) = (n \<le> nxt)"
| "worker_fits ld nxt (Sending r) = (r = tl_work ld (at_id r))"
| "worker_fits ld nxt Returned = (tl_duration ld = 0 \<longrightarrow> tl_count ld < nxt)"
| "worker_fits ld nxt w = True"

definition pool_ok :: "traffic_load \<Rightarrow> traffic_pool \<Rightarrow> bool" where
  "pool_ok ld p \<longleftrightarrow> 0 \<le> tp_next p \<and> length (tp_workers p) = tl_concurrency ld \<and> list_all (worker_fits ld (tp_next p)) (tp_workers p)
     \<and> list_all (\<lambda>r. r = tl_work ld (at_id r)) (tp_channel p @ tp_results p)
     \<and> numbers ld p \<subseteq># drawn_numbers ld p \<and> (tl_duration ld = 0 \<longrightarrow> numbers ld p = drawn_numbers ld p)"

lemma fits_mono: "worker_fits ld m w \<Longrightarrow> m \<le> k \<Longrightarrow> worker_fits ld k w"
  by (cases w) auto

lemma drawn_next:
  "0 \<le> tp_next p \<Longrightarrow> mset_set {1..min (tp_next p + 1) (tl_count ld)} =
     (if tp_next p + 1 \<le> tl_count ld then {#tp_next p + 1#} else {#}) + drawn_numbers ld p"
proof -
  assume pos: "0 \<le> tp_next p"
  show ?thesis
  proof (cases "tp_next p + 1 \<le> tl_count ld")
    case True
    then have "{1..min (tp_next p + 1) (tl_count ld)} = insert (tp_next p + 1) {1..min (tp_next p) (tl_count ld)}" using pos by auto
    then show ?thesis using True by (simp add: drawn_numbers_def)
  next
    case False
    then have "min (tp_next p + 1) (tl_count ld) = min (tp_next p) (tl_count ld)" by simp
    with False show ?thesis by (simp add: drawn_numbers_def)
  qed
qed

lemma fits_update:
  "list_all (worker_fits ld m) ws \<Longrightarrow> m \<le> k \<Longrightarrow> worker_fits ld k w \<Longrightarrow> list_all (worker_fits ld k) (ws[i := w])"
  unfolding list_all_iff using fits_mono set_update_subset_insert [of ws i w] by blast

lemma fits_at: "list_all (worker_fits ld m) (tp_workers p) \<Longrightarrow> worker_at p i = w \<Longrightarrow> w \<noteq> Returned \<Longrightarrow> worker_fits ld m w"
  by (auto simp: worker_at_def list_all_iff split: if_splits)

lemma step_ok:
  assumes "pool_step ld ev p = Some q" "pool_ok ld p" "\<And>n. at_id (tl_work ld n) = n"
  shows "pool_ok ld q"
proof -
  have ok: "0 \<le> tp_next p" "length (tp_workers p) = tl_concurrency ld" "list_all (worker_fits ld (tp_next p)) (tp_workers p)"
    "list_all (\<lambda>r. r = tl_work ld (at_id r)) (tp_channel p @ tp_results p)" "numbers ld p \<subseteq># drawn_numbers ld p"
    "tl_duration ld = 0 \<Longrightarrow> numbers ld p = drawn_numbers ld p"
    using assms(2) by (simp_all add: pool_ok_def)
  show ?thesis
  proof (cases ev)
    case (Draw i)
    with assms(1) have w: "worker_at p i = Idle" and q: "q = set_worker i (Drawn (tp_next p + 1)) (p\<lparr>tp_next := tp_next p + 1\<rparr>)"
      by (auto split: traffic_worker.splits)
    have "numbers ld q = (if tp_next p + 1 \<le> tl_count ld then {#tp_next p + 1#} else {#}) + numbers ld p"
      using worker_sum [OF w, of "holds_number ld" "Drawn (tp_next p + 1)"] by (simp add: q numbers_def)
    moreover have "drawn_numbers ld q = (if tp_next p + 1 \<le> tl_count ld then {#tp_next p + 1#} else {#}) + drawn_numbers ld p"
      using drawn_next [OF ok(1), of ld] by (simp add: q drawn_numbers_def)
    ultimately show ?thesis
      using ok fits_update [OF ok(3), of "tp_next p + 1" "Drawn (tp_next p + 1)" i] by (simp add: pool_ok_def q)
  next
    case (Test i late)
    with assms(1) obtain n where w: "worker_at p i = Drawn n"
      and q: "q = set_worker i (if n > tl_count ld \<or> 0 < tl_duration ld \<and> late then Returned else Busy n) p"
      by (auto split: traffic_worker.splits)
    let ?w = "if n > tl_count ld \<or> 0 < tl_duration ld \<and> late then Returned else Busy n"
    have n: "n \<le> tp_next p" using fits_at [OF ok(3) w] by simp
    have sums: "sum_list (map (holds_number ld) ((tp_workers p)[i := ?w])) + holds_number ld (Drawn n)
        = sum_list (map (holds_number ld) (tp_workers p)) + holds_number ld ?w"
      by (rule worker_sum [OF w]) simp
    have same: "numbers ld q = numbers ld p" if "n > tl_count ld \<or> \<not> (0 < tl_duration ld \<and> late)"
      using sums that by (auto simp: q numbers_def split: if_splits)
    have less: "numbers ld q \<subseteq># numbers ld p"
    proof (cases "n > tl_count ld \<or> \<not> (0 < tl_duration ld \<and> late)")
      case False
      then have "sum_list (map (holds_number ld) (tp_workers p)) = sum_list (map (holds_number ld) ((tp_workers p)[i := ?w])) + {#n#}"
        using sums by simp
      then show ?thesis by (simp add: q numbers_def)
    qed (simp add: same)
    have "worker_fits ld (tp_next p) ?w" using n by auto
    then have fits: "list_all (worker_fits ld (tp_next p)) ((tp_workers p)[i := ?w])" by (rule fits_update [OF ok(3) order_refl])
    have drawn: "drawn_numbers ld q = drawn_numbers ld p" by (simp add: q drawn_numbers_def)
    have "numbers ld q \<subseteq># drawn_numbers ld p" using less ok(5) by (rule subset_mset.order_trans)
    moreover have "tl_duration ld = 0 \<Longrightarrow> numbers ld q = drawn_numbers ld p" using same ok(6) by simp
    ultimately show ?thesis using ok fits by (simp add: pool_ok_def drawn) (simp add: q)
  next
    case (Answer i)
    with assms(1) obtain n where w: "worker_at p i = Busy n" and q: "q = set_worker i (Sending (tl_work ld n)) p"
      by (auto split: traffic_worker.splits)
    have "numbers ld q = numbers ld p"
      using worker_sum [OF w, of "holds_number ld" "Sending (tl_work ld n)"] assms(3) by (simp add: q numbers_def)
    then show ?thesis
      using ok fits_update [OF ok(3) order_refl, of "Sending (tl_work ld n)" i] assms(3) by (simp add: pool_ok_def q drawn_numbers_def)
  next
    case (Send i)
    with assms(1) obtain r where w: "worker_at p i = Sending r" and q: "q = set_worker i Idle (p\<lparr>tp_channel := tp_channel p @ [r]\<rparr>)"
      by (auto split: traffic_worker.splits if_splits)
    have "numbers ld q = numbers ld p"
      using worker_sum [OF w, of "holds_number ld" Idle] by (simp add: q numbers_def ac_simps)
    moreover have "r = tl_work ld (at_id r)" using fits_at [OF ok(3) w] by simp
    ultimately show ?thesis
      using ok fits_update [OF ok(3) order_refl, of Idle i] by (simp add: pool_ok_def q drawn_numbers_def)
  next
    case Receive
    with assms(1) obtain r rs where c: "tp_channel p = r # rs" and q: "q = p\<lparr>tp_channel := rs, tp_results := tp_results p @ [r]\<rparr>"
      by (auto split: list.splits)
    have "numbers ld q = numbers ld p" by (simp add: q numbers_def c)
    then show ?thesis using ok by (simp add: pool_ok_def q c drawn_numbers_def)
  qed
qed

lemma run_ok:
  assumes "\<And>n. at_id (tl_work ld n) = n"
  shows "run_events (pool_step ld) evs p = Some q \<Longrightarrow> pool_ok ld p \<Longrightarrow> pool_ok ld q"
  by (induction evs arbitrary: p) (auto split: option.splits dest: step_ok [OF _ _ assms])

lemma start_ok: "pool_ok ld (start_pool ld)"
proof -
  have "sum_list (replicate n {#}) = ({#} :: int multiset)" for n by (induction n) auto
  then show ?thesis
    by (simp add: pool_ok_def start_pool_def list_all_iff numbers_def drawn_numbers_def map_replicate_const)
qed

text \<open>There is always a step to take until the pool is done.\<close>

lemma pool_progress:
  assumes "pool_ok ld p" "0 < tl_concurrency ld" "\<not> pool_done p"
  shows "\<exists>ev. pool_step ld ev p \<noteq> None"
proof (cases "tp_channel p")
  case (Cons r rs)
  then have "pool_step ld Receive p \<noteq> None" by simp
  then show ?thesis ..
next
  case Nil
  with assms(3) obtain i where i: "i < length (tp_workers p)" "tp_workers p ! i \<noteq> Returned"
    by (auto simp: pool_done_def list_all_length)
  show ?thesis
  proof (cases "tp_workers p ! i")
    case Idle
    then have "pool_step ld (Draw i) p \<noteq> None" using i by (simp add: worker_at_def)
    then show ?thesis ..
  next
    case (Drawn n)
    then have "pool_step ld (Test i False) p \<noteq> None" using i by (simp add: worker_at_def)
    then show ?thesis ..
  next
    case (Busy n)
    then have "pool_step ld (Answer i) p \<noteq> None" using i by (simp add: worker_at_def)
    then show ?thesis ..
  next
    case (Sending r)
    then have "pool_step ld (Send i) p \<noteq> None" using i assms(2) Nil by (simp add: worker_at_def)
    then show ?thesis ..
  qed (use i in simp)
qed

text \<open>What the collector has when the pool is done.\<close>

lemma done_results:
  assumes "pool_ok ld p" "pool_done p" "0 < tl_concurrency ld"
  shows "distinct (map at_id (tp_results p))" "set (map at_id (tp_results p)) \<subseteq> {1..tl_count ld}"
    "tl_duration ld = 0 \<Longrightarrow> set (map at_id (tp_results p)) = {1..tl_count ld}"
    "list_all (\<lambda>r. r = tl_work ld (at_id r)) (tp_results p)"
proof -
  have returned: "\<forall>w \<in> set (tp_workers p). w = Returned" and empty: "tp_channel p = []"
    using assms(2) by (simp_all add: pool_done_def list_all_iff)
  have "sum_list (map (holds_number ld) ws) = {#}" if "\<forall>w \<in> set ws. w = Returned" for ws using that by (induction ws) auto
  from this [OF returned] have "sum_list (map (holds_number ld) (tp_workers p)) = {#}" .
  then have ids: "numbers ld p = mset (map at_id (tp_results p))" using empty by (simp add: numbers_def)
  with assms(1) have sub: "mset (map at_id (tp_results p)) \<subseteq># drawn_numbers ld p" by (simp add: pool_ok_def)
  show "distinct (map at_id (tp_results p))"
  proof (rule ccontr)
    assume "\<not> distinct (map at_id (tp_results p))"
    then obtain xs ys zs x where "map at_id (tp_results p) = xs @ [x] @ ys @ [x] @ zs" using not_distinct_decomp by blast
    then have "2 \<le> count (mset (map at_id (tp_results p))) x" by (simp del: mset_map)
    moreover have "count (drawn_numbers ld p) x \<le> 1" by (simp add: drawn_numbers_def count_mset_set')
    ultimately show False using mset_subset_eq_count [OF sub, of x] by linarith
  qed
  show "set (map at_id (tp_results p)) \<subseteq> {1..tl_count ld}"
    using set_mset_mono [OF sub] by (auto simp: drawn_numbers_def)
  show "set (map at_id (tp_results p)) = {1..tl_count ld}" if "tl_duration ld = 0"
  proof -
    have "tp_workers p \<noteq> []" using assms by (auto simp: pool_ok_def)
    then obtain w where "w \<in> set (tp_workers p)" by (cases "tp_workers p") auto
    moreover have "w = Returned" using returned \<open>w \<in> set (tp_workers p)\<close> by blast
    moreover have "\<forall>x \<in> set (tp_workers p). worker_fits ld (tp_next p) x" using assms(1) by (simp add: pool_ok_def list_all_iff)
    ultimately have "worker_fits ld (tp_next p) Returned" by blast
    then have "tl_count ld < tp_next p" using that by simp
    moreover have "mset (map at_id (tp_results p)) = drawn_numbers ld p" using that assms(1) ids by (simp add: pool_ok_def)
    then have "set_mset (mset (map at_id (tp_results p))) = set_mset (drawn_numbers ld p)" by simp
    ultimately show ?thesis by (simp add: drawn_numbers_def)
  qed
  show "list_all (\<lambda>r. r = tl_work ld (at_id r)) (tp_results p)" using assms(1) by (simp add: pool_ok_def)
qed

subsection \<open>One request\<close>

lemma request_number [simp]: "at_id (traffic_request parse net app instances expected len n) = n"
  by (simp add: traffic_request_def Let_def split: prod.splits)

lemma not_net_Inr [simp]: "not_net r = Inr x \<longleftrightarrow> r = Inr x"
  by (cases r) (auto simp: not_net_def)

text \<open>The identity that a request accepts.\<close>

definition accepted_identity :: "string \<Rightarrow> string list \<Rightarrow> identities option \<Rightarrow> (string, string) go_map \<Rightarrow> bool" where
  "accepted_identity app instances expected ident \<longleftrightarrow> member ident ''app'' = app \<and> member ident ''instance'' \<in> set instances
     \<and> (\<forall>key \<in> {''worker'', ''region'', ''version''}. member ident key \<noteq> [])
     \<and> (\<forall>known. expected = Some known \<longrightarrow> (\<exists>want. gm_get known (member ident ''instance'') = Some want
          \<and> (\<forall>key \<in> {''app'', ''worker'', ''region'', ''version''}. member ident key = member want key)))"

lemma check_identity_iff: "check_identity app instances expected ident = Inr u \<longleftrightarrow> accepted_identity app instances expected ident"
  by (auto simp: check_identity_def accepted_identity_def and_then_eq_Inr split: option.splits)

lemma read_line_iff:
  "read_line an = Inr (line, rest) \<longleftrightarrow> (\<exists>t. line = t @ [CHR 0x0A] \<and> CHR 0x0A \<notin> set t \<and> length t < 4096 \<and> pa_bytes an = line @ rest)"
proof -
  let ?P = "\<lambda>c. c \<noteq> CHR 0x0A" and ?s = "pa_bytes an"
  have split: "?s = takeWhile ?P ?s @ drop (length (takeWhile ?P ?s)) ?s" by (metis append_take_drop_id takeWhile_eq_take)
  have clean: "CHR 0x0A \<notin> set (takeWhile ?P ?s)" by (auto dest: set_takeWhileD)
  have first: "c = CHR 0x0A" if "drop (length (takeWhile ?P ?s)) ?s = c # r" for c r
  proof -
    from that have "dropWhile ?P ?s = c # r" by (simp only: dropWhile_eq_drop)
    with hd_dropWhile [of ?P ?s] show ?thesis by simp
  qed
  have found: "takeWhile ?P (t @ CHR 0x0A # r) = t" if "CHR 0x0A \<notin> set t" for t r
    using that by (subst takeWhile_append2) auto
  show ?thesis
  proof
    assume r: "read_line an = Inr (line, rest)"
    then have short: "length (takeWhile ?P ?s) < 4096" by (simp add: read_line_def Let_def not_net_def split: if_splits)
    with r obtain c where c: "drop (length (takeWhile ?P ?s)) ?s = c # rest" "line = takeWhile ?P ?s @ [c]"
      by (auto simp: read_line_def Let_def not_net_def split: list.splits option.splits)
    have "?s = line @ rest" using split c by (metis append.assoc append_Cons append_Nil)
    then show "\<exists>t. line = t @ [CHR 0x0A] \<and> CHR 0x0A \<notin> set t \<and> length t < 4096 \<and> ?s = line @ rest"
      using short clean c(2) first [OF c(1)] by blast
  next
    assume "\<exists>t. line = t @ [CHR 0x0A] \<and> CHR 0x0A \<notin> set t \<and> length t < 4096 \<and> ?s = line @ rest"
    then show "read_line an = Inr (line, rest)" by (auto simp: read_line_def found)
  qed
qed

lemma line_shape: "read_line an = Inr (line, rest) \<longleftrightarrow> (\<exists>t. line = t @ [CHR 0x0A] \<and> read_line an = Inr (t @ [CHR 0x0A], rest))"
  by (metis read_line_iff)

lemma take_more: "e = take (Suc (length e)) rest \<longleftrightarrow> rest = e" for e :: string
proof
  assume t: "e = take (Suc (length e)) rest"
  then have "length e = min (length rest) (Suc (length e))" by (metis length_take)
  then have "length rest \<le> Suc (length e)" by (simp add: min_def split: if_splits)
  with t show "rest = e" by simp
qed simp

lemma check_echo_iff:
  "check_echo payload an rest = Inr u \<longleftrightarrow> rest = payload @ echo_trailer \<and> pa_end an = None \<and> pa_sent an = None"
proof -
  obtain e where e: "e = payload @ echo_trailer" by simp
  have "check_echo payload an rest = Inr u \<longleftrightarrow> (if length rest < length e + 1 then pa_end an else None) = None \<and> pa_sent an = None \<and> e = take (Suc (length e)) rest"
    by (auto simp: check_echo_def Let_def e [symmetric] split: option.split)
  also have "\<dots> \<longleftrightarrow> rest = e \<and> pa_end an = None \<and> pa_sent an = None"
    unfolding take_more by auto
  finally show ?thesis by (simp add: e)
qed

lemma traffic_exchange_iff:
  "snd (traffic_exchange parse app instances expected payload d) = Inr () \<longleftrightarrow> (\<exists>an t ident. d = Inr an
     \<and> pa_bytes an = t @ [CHR 0x0A] @ payload @ echo_trailer \<and> CHR 0x0A \<notin> set t \<and> length t < 4096
     \<and> pa_end an = None \<and> pa_sent an = None \<and> and_then (parse (t @ [CHR 0x0A])) identity_of = Inr ident
     \<and> accepted_identity app instances expected ident)" (is "_ \<longleftrightarrow> ?thesis_rhs")
proof -
  have "snd (traffic_exchange parse app instances expected payload d) = Inr () \<longleftrightarrow> (\<exists>an line rest ident. d = Inr an
     \<and> read_line an = Inr (line, rest) \<and> and_then (parse line) identity_of = Inr ident
     \<and> check_identity app instances expected ident = Inr () \<and> check_echo payload an rest = Inr ())"
    by (auto simp: traffic_exchange_def not_net_def split: sum.splits)
  also have "\<dots> \<longleftrightarrow> (\<exists>an t ident. d = Inr an \<and> read_line an = Inr (t @ [CHR 0x0A], payload @ echo_trailer)
     \<and> pa_end an = None \<and> pa_sent an = None \<and> and_then (parse (t @ [CHR 0x0A])) identity_of = Inr ident
     \<and> accepted_identity app instances expected ident)"
    unfolding check_echo_iff check_identity_iff by (subst line_shape) blast
  also have "\<dots> \<longleftrightarrow> ?thesis_rhs" unfolding read_line_iff by (simp add: conj_ac)
  finally show ?thesis .
qed

subsection \<open>Properties\<close>

text \<open>C38. The load generator comes to an end, in whatever order its workers and its collector act: a run of the pool has
  at most five steps for each request and two for each worker, it never gets stuck before it is done, and when it is
  done the collector has the result of every number at most once, of numbers up to the count only, and of all of
  them unless a duration cuts the run short.\<close>

theorem traffic_terminates:
  assumes "traffic_args_ok a"
    and "run_events (pool_step (traffic_load_of parse net a instances expected)) schedule
      (start_pool (traffic_load_of parse net a instances expected)) = Some p"
  shows "length schedule \<le> 5 * nat (ta_count a) + 2 * nat (ta_concurrency a)
    \<and> (pool_done p \<or> (\<exists>ev. pool_step (traffic_load_of parse net a instances expected) ev p \<noteq> None))
    \<and> (pool_done p \<longrightarrow> distinct (map at_id (tp_results p)) \<and> set (map at_id (tp_results p)) \<subseteq> {1..ta_count a}
        \<and> (ta_duration a = 0 \<longrightarrow> set (map at_id (tp_results p)) = {1..ta_count a}))"
proof -
  let ?ld = "traffic_load_of parse net a instances expected"
  have load: "tl_count ?ld = ta_count a" "tl_concurrency ?ld = nat (ta_concurrency a)" "tl_duration ?ld = ta_duration a"
    "at_id (tl_work ?ld n) = n" for n
    by (simp_all add: traffic_load_of_def)
  have ok: "pool_ok ?ld p" using run_ok [OF load(4) assms(2) start_ok] .
  have busy: "0 < tl_concurrency ?ld" using assms(1) by (simp add: load traffic_args_ok_def)
  from load_pool.run_bounded [OF assms(2)] have "length schedule \<le> 5 * nat (ta_count a) + 2 * nat (ta_concurrency a)"
    by (simp add: start_measure load)
  then show ?thesis
    using pool_progress [OF ok busy] done_results [OF ok _ busy] by (simp add: load) blast
qed

text \<open>A request counts as a success exactly if it was echoed: the peer sent one line of at most 4096 bytes that is the
  JSON of an accepted identity (the expected application, an allowed instance, all fields present, all as in the
  deployment manifest where there is one), then the payload of this very request and the end mark, and nothing else
  before the end of the stream, and the payload was sent without an error.\<close>

lemma traffic_success_is_echo:
  "at_error (traffic_request parse net app instances expected len n) = None \<longleftrightarrow>
    (\<exists>an t ident. snd (net n (payload_of n len)) = Inr an
       \<and> pa_bytes an = t @ [CHR 0x0A] @ payload_of n len @ echo_trailer \<and> CHR 0x0A \<notin> set t \<and> length t < 4096
       \<and> pa_end an = None \<and> pa_sent an = None \<and> and_then (parse (t @ [CHR 0x0A])) identity_of = Inr ident
       \<and> accepted_identity app instances expected ident)"
proof -
  have "at_error (traffic_request parse net app instances expected len n) = None
      \<longleftrightarrow> snd (traffic_exchange parse app instances expected (payload_of n len) (snd (net n (payload_of n len)))) = Inr ()"
    by (auto simp: traffic_request_def Let_def split: prod.splits sum.splits)
  then show ?thesis unfolding traffic_exchange_iff .
qed

subsection \<open>Against the echo workload\<close>

definition echo_network :: "json \<Rightarrow> (int \<Rightarrow> nat) \<Rightarrow> network" where
  "echo_network doc micros n payload = (micros n, Inr \<lparr>pa_bytes = echo_session doc (Inr ()) payload (Inr ()), pa_end = None, pa_sent = None\<rparr>)"

lemma quote_one_line: "CHR 0x0A \<notin> set (quote s)"
proof -
  have "CHR 0x0A \<notin> set (escape_char c)" for c
  proof -
    have "\<forall>n < 16. CHR 0x0A \<noteq> hex_digit n" by code_simp
    then have digit: "n < 16 \<Longrightarrow> (CHR 0x0A = hex_digit n) = False" for n by blast
    have "(of_char c :: nat) mod 16 < 16" "(of_char c :: nat) div 16 < 16" by (simp_all add: less_mult_imp_div_less of_char_less_256)
    then show ?thesis by (simp add: escape_char_def digit)
  qed
  then show ?thesis by (simp add: quote_def)
qed

lemma identity_one_line: "CHR 0x0A \<notin> set (render (echo_identity app inst worker region version))"
  using quote_one_line by (simp add: echo_identity_def)

lemma echo_succeeds:
  assumes "doc = echo_identity app inst worker region version" "parse (render doc @ [CHR 0x0A]) = Inr doc" "length (render doc) < 4096"
    and "identity_of doc = Inr ident" "accepted_identity app instances expected ident"
  shows "at_error (traffic_request parse (echo_network doc micros) app instances expected len n) = None"
  unfolding traffic_success_is_echo
  using assms identity_one_line [of app inst worker region version] by (auto simp: echo_network_def echo_session_def echo_trailer_def)

lemma echo_instance:
  assumes "doc = echo_identity app inst worker region version" "parse (render doc @ [CHR 0x0A]) = Inr doc" "length (render doc) < 4096"
    and "identity_of doc = Inr ident"
  shows "at_instance (traffic_request parse (echo_network doc micros) app instances expected len n) = member ident ''instance''"
proof -
  have "read_line \<lparr>pa_bytes = echo_session doc (Inr ()) pl (Inr ()), pa_end = None, pa_sent = None\<rparr> = Inr (render doc @ [CHR 0x0A], pl @ echo_trailer)" for pl
    unfolding read_line_iff
    using assms(1,3) identity_one_line [of app inst worker region version] by (auto simp: echo_session_def echo_trailer_def)
  then show ?thesis
    using assms(2,4) by (simp add: traffic_request_def Let_def echo_network_def traffic_exchange_def)
qed

text \<open>The report on successful attempts of one instance.\<close>

lemma tally_successes:
  assumes "list_all (\<lambda>r. at_error r = None \<and> at_instance r = inst) rs" "gm_ok (ty_backends t)"
  shows "ty_successes (fold tally_result rs t) = ty_successes t + length rs \<and> ty_failures (fold tally_result rs t) = ty_failures t
    \<and> length (ty_latencies (fold tally_result rs t)) = length (ty_latencies t) + length rs
    \<and> backend_count (fold tally_result rs t) inst = backend_count t inst + length rs"
  using assms
proof (induction rs arbitrary: t)
  case (Cons r rs)
  have "ty_successes (tally_result r t) = Suc (ty_successes t)" "ty_failures (tally_result r t) = ty_failures t"
    "ty_latencies (tally_result r t) = ty_latencies t @ [at_micros r]"
    "ty_backends (tally_result r t) = gm_put inst (Suc (backend_count t inst)) (ty_backends t)"
    using Cons.prems(1) by (simp_all add: tally_result_def tally_timeout_def backend_count_def Let_def)
  moreover from this have "gm_ok (ty_backends (tally_result r t))" "backend_count (tally_result r t) inst = Suc (backend_count t inst)"
    using Cons.prems(2) by (simp_all add: gm.ok_put gm.get_put backend_count_def)
  ultimately show ?case using Cons by simp
qed simp

text \<open>C39. Against echo workloads the load generator succeeds: when every request reaches a session of one echo workload whose
  identity is accepted, then in whatever order the workers and the collector act, a run without a time limit makes
  exactly the asked number of attempts, reports all of them as successes of this instance, and exits with success.\<close>

theorem traffic_passes_on_echo:
  assumes begun: "traffic_setup parse manifest_file a = Inr (instances, expected)" "ta_duration a = 0"
    and doc: "doc = echo_identity (ta_app a) inst worker region version" "parse (render doc @ [CHR 0x0A]) = Inr doc" "length (render doc) < 4096"
    and ident: "identity_of doc = Inr ident" "accepted_identity (ta_app a) instances expected ident"
    and run: "traffic_main parse (echo_network doc micros) scale manifest_file history a schedule = Some (status, Some rp)"
  shows "status = 0 \<and> tr_attempts rp = nat (ta_count a) \<and> ty_successes (tr_tally rp) = nat (ta_count a) \<and> ty_failures (tr_tally rp) = 0
    \<and> backend_count (tr_tally rp) inst = nat (ta_count a)"
proof -
  let ?net = "echo_network doc micros"
  let ?ld = "traffic_load_of parse ?net a instances expected"
  have args: "traffic_args_ok a" using begun(1) by (auto simp: traffic_setup_def and_then_eq_Inr)
  have load: "tl_count ?ld = ta_count a" "tl_concurrency ?ld = nat (ta_concurrency a)" "tl_duration ?ld = 0" "at_id (tl_work ?ld n) = n" for n
    using begun(2) by (simp_all add: traffic_load_of_def)
  from run obtain p where p: "run_events (pool_step ?ld) schedule (start_pool ?ld) = Some p" "pool_done p"
    and rp: "rp = report_of scale (tp_results p)" "status = report_status rp"
    by (auto simp: traffic_main_def Let_def begun(1) split: option.splits if_splits)
  have busy: "0 < tl_concurrency ?ld" "1 \<le> ta_count a" using args by (simp_all add: load traffic_args_ok_def)
  have results: "distinct (map at_id (tp_results p))" "set (map at_id (tp_results p)) = {1..ta_count a}"
    "list_all (\<lambda>r. r = tl_work ?ld (at_id r)) (tp_results p)"
    using done_results [OF run_ok [OF load(4) p(1) start_ok] p(2) busy(1)] load by auto
  have many: "length (tp_results p) = nat (ta_count a)"
    using distinct_card [OF results(1)] results(2) by simp
  have inst: "member ident ''instance'' = inst" using ident(1) by (auto simp: doc(1) echo_identity_def identity_of_def read_map_def member_def)
  have good: "at_error (tl_work ?ld n) = None \<and> at_instance (tl_work ?ld n) = inst" for n
    using echo_succeeds [where parse = parse, OF doc ident] echo_instance [where parse = parse, OF doc ident(1)] inst by (simp add: traffic_load_of_def)
  have "list_all (\<lambda>r. at_error r = None \<and> at_instance r = inst) (tp_results p)"
    using results(3) good unfolding list_all_iff by metis
  from tally_successes [OF this, of zero_tally] show ?thesis
    using many busy(2) by (simp add: rp report_of_def report_status_def Let_def zero_tally_def backend_count_def gm_ok_def)
qed

subsection \<open>Witnesses\<close>

definition sample_echo :: json where
  "sample_echo = echo_identity ''echo'' ''echo-a'' ''w'' ''r'' ''1''"

definition sample_parse :: "string \<Rightarrow> json result" where
  "sample_parse t = (if t = render sample_echo @ [CHR 0x0A] then Inr sample_echo else Inl ''json'')"

definition sample_traffic :: traffic_args where
  "sample_traffic = \<lparr>ta_app = ''echo'', ta_instances = ''echo-a,echo-b'', ta_count = 2, ta_concurrency = 2, ta_bytes = 3, ta_duration = 0,
     ta_deadline = 3, ta_expected = []\<rparr>"

text \<open>The second worker draws the number 1 and returns last; two numbers beyond the count are drawn.\<close>

definition sample_schedule :: "pool_event list" where
  "sample_schedule = [Draw 1, Draw 0, Test 0 False, Test 1 False, Answer 0, Send 0, Draw 0, Answer 1, Receive, Test 0 False,
     Send 1, Draw 1, Test 1 False, Receive]"

definition sample_network :: network where
  "sample_network = echo_network sample_echo (\<lambda>n. nat n)"

definition sample_traffic_run :: "(nat \<times> traffic_report option) option" where
  "sample_traffic_run = traffic_main sample_parse sample_network (\<lambda>n p. n * p div 100) (Inl ''none'') None sample_traffic sample_schedule"

lemma sample_traffic_setup: "traffic_setup sample_parse (Inl ''none'') sample_traffic = Inr ([''echo-a'', ''echo-b''], None)"
  by code_simp

definition sample_load :: traffic_load where
  "sample_load = traffic_load_of sample_parse sample_network sample_traffic [''echo-a'', ''echo-b''] None"

definition sample_done :: traffic_pool where
  "sample_done = \<lparr>tp_next = 4, tp_workers = [Returned, Returned], tp_channel = [],
     tp_results = map (traffic_request sample_parse sample_network ''echo'' [''echo-a'', ''echo-b''] None 3) [2, 1]\<rparr>"

lemma sample_pool_run: "run_events (pool_step sample_load) sample_schedule (start_pool sample_load) = Some sample_done"
  by (simp add: sample_load_def sample_schedule_def sample_done_def start_pool_def traffic_load_of_def sample_traffic_def worker_at_def
      set_worker_def numeral_2_eq_2)

theorem traffic_terminates_witness:
  "length sample_schedule \<le> 5 * nat (ta_count sample_traffic) + 2 * nat (ta_concurrency sample_traffic)
    \<and> set (map at_id (tp_results sample_done)) = {1..2}"
proof -
  have "traffic_args_ok sample_traffic" by code_simp
  from traffic_terminates [OF this sample_pool_run [unfolded sample_load_def]] show ?thesis
    by (simp add: sample_done_def pool_done_def sample_traffic_def)
qed

theorem traffic_passes_on_echo_witness:
  "ty_successes (tr_tally (report_of (\<lambda>n p. n * p div 100) (tp_results sample_done))) = 2"
proof -
  let ?rp = "report_of (\<lambda>n p. n * p div 100) (tp_results sample_done)"
  have run: "traffic_main sample_parse (echo_network sample_echo (\<lambda>n. nat n)) (\<lambda>n p. n * p div 100) (Inl ''none'') None sample_traffic sample_schedule
      = Some (report_status ?rp, Some ?rp)"
    using sample_pool_run
    by (simp add: traffic_main_def sample_traffic_setup history_fails_def Let_def flip: sample_network_def sample_load_def) (simp add: sample_done_def pool_done_def)
  have doc: "sample_parse (render sample_echo @ [CHR 0x0A]) = Inr sample_echo" "length (render sample_echo) < 4096" by code_simp+
  have ident: "identity_of sample_echo = Inr [(''app'', ''echo''), (''instance'', ''echo-a''), (''region'', ''r''), (''version'', ''1''), (''worker'', ''w'')]"
    by code_simp
  have fits: "accepted_identity (ta_app sample_traffic) [''echo-a'', ''echo-b''] None
      [(''app'', ''echo''), (''instance'', ''echo-a''), (''region'', ''r''), (''version'', ''1''), (''worker'', ''w'')]"
    by (simp add: accepted_identity_def sample_traffic_def member_def)
  have "sample_echo = echo_identity (ta_app sample_traffic) ''echo-a'' ''w'' ''r'' ''1''" "ta_duration sample_traffic = 0"
    by (simp_all add: sample_echo_def sample_traffic_def)
  from traffic_passes_on_echo [OF sample_traffic_setup this(2,1) doc ident fits run] show ?thesis
    by (simp add: sample_traffic_def)
qed

end
