(* ===== verification/Image_Check.thy ===== *)
theory Image_Check
  imports Extract_Props
begin

section \<open>The verifier of a mounted image: cmd/image-check\<close>

text \<open>
  \<^verbatim>\<open>cmd/image-check/main.go\<close>: compare a mounted image with a list of expected files and their SHA-256, a list of
  names that must be absent, and with no other file. The mounted tree is what the calls \<^verbatim>\<open>os.Open\<close>, \<^verbatim>\<open>os.Lstat\<close> and
  \<^verbatim>\<open>filepath.WalkDir\<close> answer; the JSON decoder is a parameter. \<^const>\<open>Inl\<close> is a panic. Go visits the expected files
  in any order; here it is that of the map. The printed results are the value of the run.
\<close>

datatype walk_kind = WalkDir | WalkLink | WalkOther

datatype lstat_answer = Found | NotFound | LstatError

text \<open>A file that was opened: its content and whether reading breaks off at its end. A walk: paths below the root in
  the order of the visit, with the error the callback is given or the kind of the entry.\<close>

record image_view =
  iv_open :: "string \<Rightarrow> (string \<times> bool) result"
  iv_lstat :: "string \<Rightarrow> lstat_answer"
  iv_walk :: "string \<Rightarrow> (string list \<times> walk_kind result) list"

record expected_image =
  ei_files :: "(string, string) go_map"
  ei_absent :: "string list"

datatype image_result = Hashed bool string | Absent_ok bool

record image_report =
  ir_failed :: bool
  ir_results :: "(string, image_result) go_map"
  ir_inventory :: "unit result"

definition expected_field :: "string \<times> json \<Rightarrow> expected_image \<Rightarrow> expected_image result" where
  "expected_field kv x = (case kv of (k, j) \<Rightarrow>
     if names_field k ''files'' then and_then (read_map read_str [] j (ei_files x)) (\<lambda>m. Inr (x\<lparr>ei_files := m\<rparr>))
     else if names_field k ''absent'' then and_then (read_strings j) (\<lambda>names. Inr (x\<lparr>ei_absent := names\<rparr>))
     else unknown_field False k x)"

definition read_expected :: "json \<Rightarrow> expected_image result" where
  "read_expected j = read_struct expected_field j \<lparr>ei_files = [], ei_absent = []\<rparr>"

text \<open>At most one byte more than 64 MiB is read; the hash is of what was read, also when reading failed.\<close>

definition size_limit :: nat where
  "size_limit = 64 * 2 ^ 20"

definition hash_file :: "(string \<Rightarrow> string) \<Rightarrow> (string \<times> bool) result \<Rightarrow> unit result \<times> string" where
  "hash_file sha opened = (case opened of
     Inl e \<Rightarrow> (Inl e, [])
   | Inr (content, broken) \<Rightarrow>
      (if broken \<and> length content < size_limit + 1 then Inl ''read error''
       else if size_limit < length (take (size_limit + 1) content) then Inl ''file exceeds supported size'' else Inr (),
       hex_encode (sha (take (size_limit + 1) content))))"

definition check_file :: "(string \<Rightarrow> string) \<Rightarrow> image_view \<Rightarrow> string \<Rightarrow> string \<times> string \<Rightarrow> image_report \<Rightarrow> image_report" where
  "check_file sha iv root nw rep = (case nw of (name, want) \<Rightarrow>
     case hash_file sha (iv_open iv (path_join root name)) of (e, got) \<Rightarrow>
     let ok = is_ok e \<and> got = want in
     rep\<lparr>ir_results := gm_put name (Hashed ok got) (ir_results rep), ir_failed := ir_failed rep \<or> \<not> ok\<rparr>)"

definition check_absent :: "image_view \<Rightarrow> string \<Rightarrow> string \<Rightarrow> image_report \<Rightarrow> image_report" where
  "check_absent iv root name rep = (let ok = iv_lstat iv (path_join root name) = NotFound in
     rep\<lparr>ir_results := gm_put name (Absent_ok ok) (ir_results rep), ir_failed := ir_failed rep \<or> \<not> ok\<rparr>)"

text \<open>
  The callback of the walk: \<^verbatim>\<open>SkipDir\<close> passes over what is below a directory, and over what is left of the root
  when \<^verbatim>\<open>lost+found\<close> is not a directory. \<open>rel\<close> of the root is a dot.
\<close>

fun inventory :: "(string, string) go_map \<Rightarrow> (string list \<times> walk_kind result) list \<Rightarrow> unit result" where
  "inventory files [] = Inr ()"
| "inventory files ((p, entered) # rest) = (case entered of
     Inl e \<Rightarrow> Inl e
   | Inr kind \<Rightarrow> (let rel = (if p = [] then ''.'' else join_with slash p) in
      if rel = ''lost+found'' then (if kind = WalkDir then inventory files (filter (\<lambda>(q, x). \<not> prefix p q) rest) else Inr ())
      else if rel = ''.edgelab-image.json'' \<or> kind = WalkDir then inventory files rest
      else if kind = WalkLink then Inl (''unexpected symlink '' @ rel)
      else if gm_get files rel = None then Inl (''unexpected file '' @ rel)
      else inventory files rest))"

definition image_check :: "(string \<Rightarrow> string) \<Rightarrow> (string \<Rightarrow> json result) \<Rightarrow> image_view \<Rightarrow> string \<Rightarrow> string result \<Rightarrow> image_report result" where
  "image_check sha parse iv root manifest_file =
     and_then manifest_file (\<lambda>b.
     and_then (and_then (parse b) read_expected) (\<lambda>x.
     and_then (guard (\<not> (root = [] \<or> ei_files x = [])) ''expected files and root required'') (\<lambda>_.
     let r1 = fold (check_file sha iv root) (ei_files x) \<lparr>ir_failed = False, ir_results = [], ir_inventory = Inr ()\<rparr>;
         r2 = fold (check_absent iv root) (ei_absent x) r1;
         inv = inventory (ei_files x) (iv_walk iv root) in
     Inr (r2\<lparr>ir_inventory := inv, ir_failed := ir_failed r2 \<or> \<not> is_ok inv\<rparr>))))"

end
