(* ===== verification/Image_Check_Props.thy ===== *)
theory Image_Check_Props
  imports Image_Check
begin

section \<open>What the image verifier establishes\<close>

subsection \<open>A mounted tree\<close>







subsection \<open>The inventory\<close>





subsection \<open>The files\<close>











text \<open>A \<^verbatim>\<open>lost+found\<close> that is not a directory ends the inventory: what follows it in the root is not looked at.\<close>

lemma lost_file_hides_the_rest:
  "inventory [] [([], Inr WalkDir), ([''lost+found''], Inr WalkOther), ([''planted''], Inr WalkOther)] = Inr ()"
  by (simp add: Let_def)

subsection \<open>Property\<close>


subsection \<open>Witness\<close>







end
