(* ===== verification/Spec2Isabelle.thy ===== *)
theory Spec2Isabelle
  imports Recovery_Outcome Growth_Props Publisher_Props Slots Prepare_Outcome Object_Check_Props Routing_Check_Props Traffic_Props Image_Check_Props
begin

section \<open>The programs of edgelab\<close>

text \<open>
  A verification library for the Go programs under \<^verbatim>\<open>cmd\<close> and for the part of the Rust routing service that they
  talk to. All definitions are translated from the sources; every property is a theorem over them.

  \<^bold>\<open>The system.\<close> A worker host runs \<^verbatim>\<open>cmd/worker\<close> in three roles. As a command it prepares an instance: it loads an
  image whose manifest digest is pinned, extracts it into a sealed thin volume and opens a snapshot of it. As a daemon
  (\<^verbatim>\<open>serve\<close>) it keeps the registry of instances in SQLite and publishes it to two routers once the instances were
  seen to be healthy. As \<^verbatim>\<open>recover\<close> it rebuilds the registry from a backup and from what the routers had accepted.
  \<^verbatim>\<open>cmd/grow\<close> grows volumes, \<^verbatim>\<open>cmd/objects\<close> and \<^verbatim>\<open>cmd/echo\<close> are workloads, and \<^verbatim>\<open>cmd/objects-check\<close>,
  \<^verbatim>\<open>cmd/routing-check\<close>, \<^verbatim>\<open>cmd/traffic\<close> and \<^verbatim>\<open>cmd/image-check\<close> verify the others from outside. Where one program
  verifies another the library composes both: the client's model runs against the model of the service.

  \<^bold>\<open>Foundations.\<close>
  \<^item> \<^theory_text>\<open>Prelude\<close>: results of fallible code, fallible loops, facts on lists and words.
  \<^item> \<^theory_text>\<open>Go_Text\<close>, \<^theory_text>\<open>Go_Path\<close>, \<^theory_text>\<open>Go_Map\<close>, \<^theory_text>\<open>Go_Json\<close>, \<^theory_text>\<open>Netip\<close>: what the sources use of \<^verbatim>\<open>strings\<close>,
    \<^verbatim>\<open>strconv\<close>, \<^verbatim>\<open>encoding/hex\<close>, \<^verbatim>\<open>path\<close>, of maps, of \<^verbatim>\<open>encoding/json\<close> and of \<^verbatim>\<open>net/netip\<close>. Maps are sorted
    association lists behind the locale \<^theory_text>\<open>finite_table\<close>.
  \<^item> \<^theory_text>\<open>Effects\<close>: programs as functions on a world and a list of outcomes; each external call takes the next outcome,
    which can be a refusal, a failure after the effect, or the death of the process. \<^theory_text>\<open>interrupted\<close> is the triple
    for such programs, with a condition that holds wherever the program stops. \<^theory_text>\<open>Files\<close> is a directory with
    \<^verbatim>\<open>durableFile\<close>.
  \<^item> \<^theory_text>\<open>Service\<close>, \<^theory_text>\<open>Slots\<close>: services that run an operation once, and bounded pools of slots.

  \<^bold>\<open>The worker daemon\<close> (\<^verbatim>\<open>cmd/worker/serve.go\<close>).
  \<^item> \<^theory_text>\<open>Route_Data\<close>, \<^theory_text>\<open>Daemon_Config\<close>: the structs and their JSON. \<^theory_text>\<open>Registry\<close>: \<^verbatim>\<open>register\<close> and \<^verbatim>\<open>snapshot\<close> with
    the outcome of every SQL statement as input. \<^theory_text>\<open>Registry_Inv\<close>, \<^theory_text>\<open>Registry_Props\<close>: the invariant, the
    refinement of a ledger of permanent claims, exactly-once effects, capacities and the reserve for deletions.
  \<^item> \<^theory_text>\<open>Management\<close>: start and HTTP handlers of \<^verbatim>\<open>serveWorker\<close>. \<^theory_text>\<open>Management_Props\<close>: authorization, ownership of the
    database, the guard of a restore.
  \<^item> \<^theory_text>\<open>Publisher\<close>: \<^verbatim>\<open>publishLoop\<close> and \<^verbatim>\<open>reconcileWorkloads\<close> against an arbitrary host. \<^theory_text>\<open>Publisher_Props\<close>: at any
    point of the loop, what is published was probed before, and only owned units are touched.

  \<^bold>\<open>Routers and recovery\<close> (\<^verbatim>\<open>routing/src\<close>, \<^verbatim>\<open>cmd/worker/recover.go\<close>).
  \<^item> \<^theory_text>\<open>Router\<close>: accept, freeze, recover and restart of the routing state (\<^verbatim>\<open>lib.rs\<close>). \<^theory_text>\<open>Router_Service\<close>: the
    handlers and the start (\<^verbatim>\<open>main.rs\<close>) with the state file (\<^verbatim>\<open>storage.rs\<close>). \<^theory_text>\<open>Router_Converge\<close>: whatever is lost,
    repeated or reordered between a worker and a router, the newest snapshot wins once it is delivered.
  \<^item> \<^theory_text>\<open>Recovery_Data\<close>, \<^theory_text>\<open>Recovery_Merge\<close>, \<^theory_text>\<open>Recovery_Run\<close>: the journal, the merge of accepted histories with the
    backup, and the command. \<^theory_text>\<open>Recovery_Props\<close>: what the merge keeps, invents and quarantines, in any order of Go's
    maps. \<^theory_text>\<open>Recovery_Crash\<close>, \<^theory_text>\<open>Recovery_Peers\<close>, \<^theory_text>\<open>Recovery_Safety\<close>, \<^theory_text>\<open>Recovery_Live\<close>, \<^theory_text>\<open>Recovery_Outcome\<close>:
    attempts that die anywhere, first against any peers (locale \<^theory_text>\<open>recovery_peers\<close>), then against the modelled
    routers.

  \<^bold>\<open>Images and volumes\<close> (\<^verbatim>\<open>cmd/worker/image.go\<close>, \<^verbatim>\<open>storage.go\<close>, \<^verbatim>\<open>main.go\<close>, \<^verbatim>\<open>cmd/grow\<close>, \<^verbatim>\<open>cmd/image-check\<close>).
  \<^item> \<^theory_text>\<open>Image\<close>, \<^theory_text>\<open>Image_Props\<close>: the blob cache and the entries of layers. \<^theory_text>\<open>Extract\<close>, \<^theory_text>\<open>Extract_Props\<close>:
    \<^verbatim>\<open>applyLayers\<close> computes the overlay of the layers. \<^theory_text>\<open>Storage\<close>, \<^theory_text>\<open>Prepare\<close>: thin volumes through the LVM
    command line and the worker command. \<^theory_text>\<open>Prepare_Props\<close>, \<^theory_text>\<open>Prepare_Outcome\<close>: what a registered operation rests
    on, and a machine that satisfies the laws that are assumed of the tools.
  \<^item> \<^theory_text>\<open>Image_Check\<close>, \<^theory_text>\<open>Image_Check_Props\<close>: the verifier passes on exactly the trees that its expectations describe.
  \<^item> \<^theory_text>\<open>Growth\<close>, \<^theory_text>\<open>Growth_Events\<close>, \<^theory_text>\<open>Growth_Props\<close>: an operation grows a volume once and within its cap, whatever
    commands die where, and an interrupted growth is completed.

  \<^bold>\<open>Workloads and their clients\<close> (\<^verbatim>\<open>cmd/objects\<close>, \<^verbatim>\<open>cmd/echo\<close>, \<^verbatim>\<open>cmd/objects-check\<close>, \<^verbatim>\<open>cmd/routing-check\<close>, \<^verbatim>\<open>cmd/traffic\<close>).
  \<^item> \<^theory_text>\<open>Objects\<close>, \<^theory_text>\<open>Objects_Props\<close>: objects are immutable and hash to their names. \<^theory_text>\<open>Object_Check\<close>,
    \<^theory_text>\<open>Object_Check_Props\<close>: what the client wrote down as acknowledged verifies, from the contract
    \<^theory_text>\<open>object_service\<close> that the modelled store fulfils.
  \<^item> \<^theory_text>\<open>Routing_Check\<close>, \<^theory_text>\<open>Routing_Bench\<close>, \<^theory_text>\<open>Routing_Check_Props\<close>: the twelve cases of the verifier, three modelled
    router processes, and the proof that every case passes on them. \<^theory_text>\<open>Json_Size\<close> bounds the JSON of a state, so that
    the largest snapshot of the verifier fits in a view.
  \<^item> \<^theory_text>\<open>Traffic\<close>, \<^theory_text>\<open>Traffic_Props\<close>: workers and collector as atomic steps in any interleaving, with a measure that every
    step lowers, and the report of a run against \<^verbatim>\<open>cmd/echo\<close>.
\<close>

text \<open>
  \<^bold>\<open>Bounds.\<close> No definition runs on fuel that could run out unnoticed: loops are recursions over the list they range
  over, the polls of \<^verbatim>\<open>routing-check\<close> are a number that the interface gives, and the schedules of \<^verbatim>\<open>cmd/traffic\<close> are
  arguments whose length is bounded by a theorem. Revisions, generations and sizes are machine words or integers with
  the wrap-around written out (\<^verbatim>\<open>cmd/grow\<close> in \<^verbatim>\<open>int64\<close>). The float comparison of a thin pool's threshold is exact in
  the range of its law; floats are a parameter of \<^theory_text>\<open>Storage\<close> and of the percentiles of \<^theory_text>\<open>Traffic\<close>.

  \<^bold>\<open>Parameters.\<close> SHA-256, the decoders of JSON text, gzip and tar, the size of the JSON that the router writes, the random
  names of temporary files, \<^verbatim>\<open>math/rand\<close>, LVM, systemd, the kernel's mounts and the network are arguments of the
  definitions. What a property needs of them is a named law (for example \<^theory_text>\<open>size_law\<close>, \<^theory_text>\<open>token_law\<close>,
  \<^theory_text>\<open>decoder_law\<close>, \<^theory_text>\<open>lengths_law\<close>) which its witness discharges for a concrete function.

  \<^bold>\<open>Conventions.\<close> Texts are lists of bytes; a nil and an empty Go map are one value; bytes from 128 on are written to JSON
  as they are; case folding is that of ASCII; endpoints are compared as canonical texts; error texts are shortened; a
  failed commit leaves the database unchanged. A handler of a router runs to its end: a busy writer or a failing
  state file are outcomes of the call. Requests to the object store take effect one after the other, with a crash possible at every call.

  \<^bold>\<open>Not modelled.\<close> Deadlines and delays; the JSON lines that the programs print; the bodies of HTTP errors; times of
  directories; the choice between the commands in \<^verbatim>\<open>main\<close> of \<^verbatim>\<open>cmd/worker\<close>; torn lines in the manifest of
  \<^verbatim>\<open>cmd/objects-check\<close>; addresses, logs and evidence files of \<^verbatim>\<open>cmd/routing-check\<close>; throughput and start times in
  the report of \<^verbatim>\<open>cmd/traffic\<close>; waiting subscribers of a router's view and the connection slots of
  \<^verbatim>\<open>routing/src/listener.rs\<close>; the Rust proxy; the Python and shell code under \<^verbatim>\<open>lab\<close> and \<^verbatim>\<open>tests\<close>, which drives the
  programs and holds none of their logic.
\<close>

end
